theory Spec2Isabelle
  imports Complex_Main "HOL-Library.Word" "HOL-Library.Signed_Division" "HOL-Library.Monad_Syntax"
begin

section \<open>The ILI9488 driver: data model\<close>

text \<open>
  The theory follows \<^verbatim>\<open>src/ILI9488Driver.cpp\<close>. The class declaration
  (\<^verbatim>\<open>ILI9488Driver.h\<close>) and the difference buffers (\<^verbatim>\<open>DiffBuff\<close>) are not
  part of the sources: what the driver needs from them is either modelled from the
  specification (and marked so) or taken as an input of the operation that uses it.
\<close>

type_synonym i32 = "32 word"
type_synonym u32 = "32 word"
type_synonym ptr = nat
type_synonym frame = "16 word list"
type_synonym span = "int \<times> int \<times> int"

text \<open>
  Screen dimensions in orientation 0. The macros are declared in the header; the values
  are those of the comments in \<^verbatim>\<open>setRotation\<close> (portrait 320x480).
\<close>

definition TFTWIDTH :: int where
  "TFTWIDTH = 320"

definition TFTHEIGHT :: int where
  "TFTHEIGHT = 480"

definition NB_PIXELS :: int where
  "NB_PIXELS = TFTWIDTH * TFTHEIGHT"

datatype dma = DMA_IDLE | DMA_ON

datatype callback = Buffer2fullCB

datatype buffering = NO_BUFFERING | DOUBLE_BUFFERING | TRIPLE_BUFFERING

datatype cmd = VSCRSADD | RAMWR | NOP | FRMCTR1

text \<open>
  What the driver puts on the bus, in order: commands and their data, a rectangle pushed
  synchronously (address window and source frame), and a transfer driven by a diff (the
  content of the framebuffer it reads and the spans it sends). A transfer enters the trace
  when it is complete: when the upload loop, or the last interrupt of an asynchronous
  transfer, finds no span left in the diff.
\<close>

datatype bus = Cmd cmd | Data8 "8 word" | Data16 "16 word"
  | Rect int int int int frame
  | Spans frame "span list"

text \<open>
  A difference buffer: the spans written by the last \<^verbatim>\<open>computeDiff\<close> and the read
  cursor of \<^verbatim>\<open>initRead\<close>/\<^verbatim>\<open>readDiff\<close>.
\<close>

record diffbuf =
  spans :: "span list"
  rpos :: nat

text \<open>
  The fields of \<^verbatim>\<open>ILI9488Driver\<close> that the modelled operations read or write.
  Pointers are addresses (\<open>None\<close> is \<^verbatim>\<open>nullptr\<close>); \<open>mem\<close> holds the content of
  the framebuffers and \<open>diffs\<close> the difference buffers they point to. \<open>panel\<close> is
  the trace of what was sent to the screen. \<open>NB_SCANLINES\<close> is the header's macro
  \<^verbatim>\<open>ILI9488_T4_NB_SCANLINES\<close>, whose value the sources do not give: it is carried
  in the state and never written, so that every result holds for each value of it.
  Statistics that only measure time (CPU time, upload time, pixel and transaction counts)
  are left out.
\<close>

record driver =
  NB_SCANLINES :: int
  width :: int
  height :: int
  rotation :: "8 word"
  refreshmode :: int
  late_start_ratio_override :: bool
  vsync_spacing :: int
  diff1 :: "ptr option"
  diff2 :: "ptr option"
  fb1 :: "ptr option"
  fb2 :: "ptr option"
  dummydiff1 :: ptr
  dummydiff2 :: ptr
  mirrorfb :: "ptr option"
  ongoingDiff :: "ptr option"
  fb2full :: bool
  period :: u32
  period_mode0 :: u32
  synced_em :: u32
  synced_scanline :: u32
  pcb :: "callback option"
  fb :: "ptr option"
  diff :: "ptr option"
  dma_state :: dma
  last_y :: int
  margin :: int
  slinitpos :: int
  prev_caset_x :: int
  prev_paset_y :: int
  stats_nb_frame :: u32
  nbteared :: u32
  statsvar_margin :: "int list"
  mem :: "ptr \<Rightarrow> frame"
  diffs :: "ptr \<Rightarrow> diffbuf"
  panel :: "bus list"

section \<open>Helpers declared in the header\<close>

text \<open>
  Modelled from the spec: \<^verbatim>\<open>bufferingMode()\<close> is declared in the header. The
  specification names three configurations by the number of owned buffers: none
  (NoBuffering), one (DoubleBuffering), two (TripleBuffering); \<^verbatim>\<open>_fb1\<close> is the
  primary buffer.
\<close>

definition bufferingMode :: "driver \<Rightarrow> buffering" where
  "bufferingMode d =
     (if fb1 d \<noteq> None then (if fb2 d \<noteq> None then TRIPLE_BUFFERING else DOUBLE_BUFFERING)
      else NO_BUFFERING)"

text \<open>
  Modelled from the spec: \<^verbatim>\<open>asyncUpdateActive()\<close> is declared in the header; a
  transfer is active until the scheduler is back to Idle.
\<close>

definition asyncUpdateActive :: "driver \<Rightarrow> bool" where
  "asyncUpdateActive d = (dma_state d \<noteq> DMA_IDLE)"

text \<open>
  Modelled from the spec: \<^verbatim>\<open>resync()\<close> is declared in the header; it arms the
  one-shot override that forces a hard resynchronisation at the next transfer.
\<close>

definition resync :: "driver \<Rightarrow> driver" where
  "resync d = d\<lparr>late_start_ratio_override := True\<rparr>"

text \<open>
  Modelled from the spec: \<^verbatim>\<open>_clip\<close> is declared in the header; out-of-range
  values are clamped.
\<close>

definition clip :: "'a::linorder \<Rightarrow> 'a \<Rightarrow> 'a \<Rightarrow> 'a" where
  "clip v vmin vmax = (if v < vmin then vmin else if vmax < v then vmax else v)"

text \<open>
  Modelled from the spec: \<^verbatim>\<open>_setCB\<close>, \<^verbatim>\<open>_swapdiff\<close>, \<^verbatim>\<open>_swapdummydiff\<close>
  and \<^verbatim>\<open>_swapfb\<close> are declared in the header. The first installs the completion
  callback (none by default); the others exchange the two pointers of their pair, which
  is how the secondary buffer and its diff are promoted to primary.
\<close>

definition setCB :: "callback option \<Rightarrow> driver \<Rightarrow> driver" where
  "setCB cb d = d\<lparr>pcb := cb\<rparr>"

definition swapdiff :: "driver \<Rightarrow> driver" where
  "swapdiff d = d\<lparr>diff1 := diff2 d, diff2 := diff1 d\<rparr>"

definition swapdummydiff :: "driver \<Rightarrow> driver" where
  "swapdummydiff d = d\<lparr>dummydiff1 := dummydiff2 d, dummydiff2 := dummydiff1 d\<rparr>"

definition swapfb :: "driver \<Rightarrow> driver" where
  "swapfb d = d\<lparr>fb1 := fb2 d, fb2 := fb1 d\<rparr>"

section \<open>Difference buffers\<close>

datatype rd = Span int int int | MustWait int | Done

text \<open>
  Modelled from the spec: \<^verbatim>\<open>DiffBuffBase::initRead\<close> and \<^verbatim>\<open>readDiff\<close> are not
  in the sources. \<^verbatim>\<open>readDiff(maxScanline)\<close> is a pull-based cursor: if the next
  unread span's row exceeds \<open>maxScanline\<close> it returns MustWait without advancing the
  cursor, otherwise it returns the span and advances; after the last span it returns
  Done. In the driver a negative result is Done, a positive one MustWait and zero a span.
\<close>

definition initRead :: "diffbuf \<Rightarrow> diffbuf" where
  "initRead b = b\<lparr>rpos := 0\<rparr>"

definition readDiff :: "int \<Rightarrow> diffbuf \<Rightarrow> rd \<times> diffbuf" where
  "readDiff maxScanline b =
     (if length (spans b) \<le> rpos b then (Done, b)
      else (case spans b ! rpos b of (x, y, len) \<Rightarrow>
              if maxScanline < y then (MustWait y, b)
              else (Span x y len, b\<lparr>rpos := rpos b + 1\<rparr>)))"

text \<open>
  Modelled from the spec: a dummy diff is one full-rectangle span forcing an
  unconditional redraw, with no comparison performed.
\<close>

definition dummy_spans :: "span list" where
  "dummy_spans = [(0, 0, NB_PIXELS)]"

text \<open>
  Modelled from the spec: \<^verbatim>\<open>computeDiff\<close> and \<^verbatim>\<open>copyfb\<close> of the difference
  buffers are not in the sources. \<open>computeDiff\<close> stores the spans of the new diff in
  the buffer \<open>g\<close> (the spans are an input here: the comparison is not modelled) and,
  when \<open>copy\<close> is set, overwrites the reference framebuffer with the new content;
  \<open>copyfb\<close> overwrites a framebuffer. A store through a null pointer has no result.
\<close>

definition copyfb :: "ptr option \<Rightarrow> frame \<Rightarrow> driver \<Rightarrow> driver option" where
  "copyfb p new d = (case p of None \<Rightarrow> None | Some a \<Rightarrow> Some (d\<lparr>mem := (mem d)(a := new)\<rparr>))"

definition computeDiff :: "ptr option \<Rightarrow> span list \<Rightarrow> ptr option \<Rightarrow> frame \<Rightarrow> bool \<Rightarrow> driver \<Rightarrow> driver option" where
  "computeDiff g sp p new copy d =
     (case g of None \<Rightarrow> None
      | Some b \<Rightarrow>
          (let d1 = d\<lparr>diffs := (diffs d)(b := \<lparr>spans = sp, rpos = 0\<rparr>)\<rparr>
           in if copy then copyfb p new d1 else (if p = None then None else Some d1)))"

section \<open>Statistics\<close>

text \<open>
  \<^verbatim>\<open>statsReset\<close> and \<^verbatim>\<open>_endframe\<close>, on the statistics kept in the model. A
  \<^verbatim>\<open>StatsVar\<close> is the list of the values pushed into it.
\<close>

definition statsReset :: "driver \<Rightarrow> driver" where
  "statsReset d = d\<lparr>stats_nb_frame := 0, statsvar_margin := [], nbteared := 0\<rparr>"

definition endframe :: "driver \<Rightarrow> driver" where
  "endframe d =
     (let d1 = d\<lparr>stats_nb_frame := stats_nb_frame d + 1\<rparr>
      in if 0 < vsync_spacing d1
         then (let d2 = (if margin d1 < 0 then d1\<lparr>nbteared := nbteared d1 + 1\<rparr> else d1)
               in d2\<lparr>statsvar_margin := statsvar_margin d2 @ [margin d2]\<rparr>)
         else d1)"

section \<open>The asynchronous transfer engine\<close>

text \<open>
  The engine is re-entrant: the end of a transfer calls the pending callback, the callback
  \<^verbatim>\<open>_buffer2fullCB\<close> starts the next transfer with \<^verbatim>\<open>_updateAsync\<close>, which waits for
  the engine to be idle and, when the diff is empty, ends the transfer at once and calls the
  callback again. The four functions are defined together, with a bound \<open>n\<close> on the depth
  of the calls: \<open>None\<close> means that the bound was not enough (or that a null pointer was
  dereferenced).

  \<^item> \<open>transfer_end\<close> is the common tail of \<^verbatim>\<open>_updateAsync\<close> (empty diff),
    \<^verbatim>\<open>_subFrameTimerStartcb2\<close> and \<^verbatim>\<open>_subFrameInterruptDiff\<close> (no span left):
    \<^verbatim>\<open>_endframe()\<close>, the engine goes idle, the callback runs, and is removed.
  \<^item> \<open>waitUpdateAsyncComplete\<close> (modelled from the spec: declared in the header) spins
    until the scheduler is idle. While it spins the interrupts of the transfer in flight
    fire and send its spans; the ones before the last only move the read cursor and the
    statistics of the frame, so the loop body is the last one: the frame has been sent
    (\<open>frame_sent\<close>) and the transfer ends (\<open>transfer_end\<close>).
  \<^item> \<open>updateAsync\<close> is \<^verbatim>\<open>_updateAsync\<close>: it arms the transfer and returns with the
    engine busy; the timers that start the first span are hardware.
\<close>

text \<open>
  The two assignments of \<^verbatim>\<open>_updateAsync\<close>: before the first read of the diff (the
  frame is armed), and once a first span was found (the address window is written and the
  timer set).
\<close>

definition arm_transfer :: "ptr \<Rightarrow> ptr \<Rightarrow> driver \<Rightarrow> driver" where
  "arm_transfer a b d =
     d\<lparr>margin := NB_SCANLINES d, dma_state := DMA_ON, fb := Some a, diff := Some b,
       diffs := (diffs d)(b := initRead (diffs d b))\<rparr>"

definition first_span :: "rd \<Rightarrow> diffbuf \<Rightarrow> ptr \<Rightarrow> ptr \<Rightarrow> driver \<Rightarrow> driver" where
  "first_span r b' a b d =
     d\<lparr>diffs := (diffs d)(b := b'),
       prev_caset_x := fst (spans (diffs d b) ! 0),
       prev_paset_y := fst (snd (spans (diffs d b) ! 0)),
       slinitpos := (case r of MustWait sc1 \<Rightarrow> sc1 | _ \<Rightarrow> 0)\<rparr>"

text \<open>
  What the transfer in flight sends: the content of \<^verbatim>\<open>_fb\<close> along the spans of
  \<^verbatim>\<open>_diff\<close>. When it has sent its last span the trace receives it.
\<close>

definition inflight :: "driver \<Rightarrow> bus list" where
  "inflight d =
     (case (fb d, diff d) of
        (Some a, Some b) \<Rightarrow> [Spans (mem d a) (spans (diffs d b))]
      | _ \<Rightarrow> [])"

definition frame_sent :: "driver \<Rightarrow> driver" where
  "frame_sent d = d\<lparr>panel := panel d @ inflight d\<rparr>"

fun transfer_end :: "nat \<Rightarrow> driver \<Rightarrow> driver option"
  and waitUpdateAsyncComplete :: "nat \<Rightarrow> driver \<Rightarrow> driver option"
  and updateAsync :: "nat \<Rightarrow> ptr option \<Rightarrow> ptr option \<Rightarrow> driver \<Rightarrow> driver option"
  and buffer2fullCB :: "nat \<Rightarrow> driver \<Rightarrow> driver option"
where
  "transfer_end 0 d = None"
| "transfer_end (Suc n) d =
     (let d1 = (endframe d)\<lparr>dma_state := DMA_IDLE\<rparr>
      in (case pcb d1 of
            None \<Rightarrow> Some d1
          | Some Buffer2fullCB \<Rightarrow> buffer2fullCB n d1)
         \<bind> (\<lambda>d2. Some (d2\<lparr>pcb := None\<rparr>)))"
| "waitUpdateAsyncComplete 0 d = None"
| "waitUpdateAsyncComplete (Suc n) d =
     (if dma_state d = DMA_IDLE then Some d
      else transfer_end n (frame_sent d) \<bind> waitUpdateAsyncComplete n)"
| "updateAsync 0 f g d = None"
| "updateAsync (Suc n) f g d =
     (case (f, g) of
        (Some a, Some b) \<Rightarrow>
          waitUpdateAsyncComplete n d \<bind> (\<lambda>d1.
            let d2 = arm_transfer a b d1
            in (case readDiff 0 (diffs d2 b) of
                  (Done, _) \<Rightarrow>
                    transfer_end n
                      (if 0 < vsync_spacing d2 then d2\<lparr>late_start_ratio_override := False\<rparr> else d2)
                | (r, b') \<Rightarrow> Some (first_span r b' a b d2)))
      | _ \<Rightarrow> Some d)"
| "buffer2fullCB 0 d = None"
| "buffer2fullCB (Suc n) d =
     (if mirrorfb d \<noteq> None
      then (let d1 = swapfb (swapdiff d);
                d2 = d1\<lparr>mirrorfb := fb1 d1, fb2full := False\<rparr>
            in updateAsync n (fb1 d2) (diff1 d2) d2)
      else (let d1 = swapfb (swapdummydiff d);
                d2 = d1\<lparr>mirrorfb := fb1 d1, fb2full := False\<rparr>
            in updateAsync n (fb1 d2) (Some (dummydiff1 d2)) d2))
     \<bind> (\<lambda>d3. Some ((setCB None d3)\<lparr>ongoingDiff := None\<rparr>))"


text \<open>
  The completion interrupts that fire while the main program is busy elsewhere: \<open>k\<close>
  transfers run to their end (fewer if the engine goes idle before).
\<close>

fun completions :: "nat \<Rightarrow> nat \<Rightarrow> driver \<Rightarrow> driver option" where
  "completions n 0 d = Some d"
| "completions n (Suc k) d =
     (if dma_state d = DMA_IDLE then Some d
      else transfer_end n (frame_sent d) \<bind> completions n k)"

text \<open>
  The loop \<^verbatim>\<open>while (_fb2full);\<close> of \<^verbatim>\<open>update\<close> and \<^verbatim>\<open>updateRegion\<close>: only the
  end of a transfer can clear the flag, so with the flag set and the engine idle the
  loop never ends.
\<close>

fun wait_fb2free :: "nat \<Rightarrow> driver \<Rightarrow> driver option" where
  "wait_fb2free 0 d = None"
| "wait_fb2free (Suc n) d =
     (if \<not> fb2full d then Some d
      else if dma_state d = DMA_IDLE then None
      else transfer_end n (frame_sent d) \<bind> wait_fb2free n)"

section \<open>Inputs from the environment\<close>

text \<open>
  What an update reads from code that is not in the sources or from the hardware:
  \<^item> \<open>e_spans\<close>: the spans written by \<^verbatim>\<open>computeDiff\<close> of the difference buffers
    for a diff that is computed by comparison or for a region;
  \<^item> \<open>e_fb1\<close>: the content of \<^verbatim>\<open>_fb1\<close> once the region of \<^verbatim>\<open>updateRegion\<close>
    has been copied into it;
  \<^item> \<open>e_box\<close>: the result \<open>(x1, x2, y1, y2)\<close> of \<^verbatim>\<open>DiffBuffBase::rotationBox\<close>;
  \<^item> \<open>e_irq1\<close>, \<open>e_irq2\<close>: the number of transfers that end between the first and the
    second test of \<^verbatim>\<open>asyncUpdateActive()\<close> in \<^verbatim>\<open>update\<close>, and between the second
    and the third;
  \<^item> \<open>e_scanline\<close>, \<open>e_slack\<close>: the scanline read when the blocking upload of
    \<^verbatim>\<open>_updateNow\<close> starts and the slack it measures after each span.
\<close>

record env =
  e_spans :: "span list"
  e_fb1 :: frame
  e_box :: "int \<times> int \<times> int \<times> int"
  e_irq1 :: nat
  e_irq2 :: nat
  e_scanline :: int
  e_slack :: "int list"

section \<open>Synchronous uploads\<close>

text \<open>
  \<^verbatim>\<open>_updateNow\<close>: the blocking upload of a diff from the caller's frame. The frame is a
  value here, so the test for a null frame has no counterpart. The pacing loop sends every
  span; with vsync the margin is the least slack measured.
\<close>

definition updateNow :: "nat \<Rightarrow> env \<Rightarrow> frame \<Rightarrow> ptr \<Rightarrow> driver \<Rightarrow> driver option" where
  "updateNow n e new g d =
     waitUpdateAsyncComplete n d \<bind> (\<lambda>d1.
       let d2 = d1\<lparr>margin := NB_SCANLINES d1, diffs := (diffs d1)(g := initRead (diffs d1 g))\<rparr>
       in (case readDiff 0 (diffs d2 g) of
             (Done, _) \<Rightarrow>
               Some (endframe (if 0 < vsync_spacing d2
                               then d2\<lparr>late_start_ratio_override := False\<rparr> else d2))
           | _ \<Rightarrow>
               (let d3 = (if 0 < vsync_spacing d2
                          then d2\<lparr>late_start_ratio_override := False, slinitpos := e_scanline e,
                                  margin := fold min (e_slack e) (margin d2)\<rparr>
                          else d2)
                in Some (endframe
                     (d3\<lparr>diffs := (diffs d3)(g := (diffs d3 g)\<lparr>rpos := length (spans (diffs d3 g))\<rparr>),
                         panel := panel d3 @ [Spans new (spans (diffs d3 g))]\<rparr>)))))"

text \<open>
  \<^verbatim>\<open>_updateRectNow\<close>: the blocking upload of a rectangle, without diff. It does not
  touch \<^verbatim>\<open>_margin\<close>.
\<close>

definition updateRectNow :: "nat \<Rightarrow> env \<Rightarrow> frame \<Rightarrow> driver \<Rightarrow> driver option" where
  "updateRectNow n e sub_fb d =
     (case e_box e of (x1, x2, y1, y2) \<Rightarrow>
        if x2 < x1 \<or> y2 < y1 then Some d
        else waitUpdateAsyncComplete n d \<bind> (\<lambda>d1.
               Some (endframe (d1\<lparr>panel := panel d1 @ [Rect x1 x2 y1 y2 sub_fb]\<rparr>))))"

section \<open>update\<close>

text \<open>
  The two places of \<^verbatim>\<open>update\<close> (triple buffering) that start a transfer at once are the
  same code.
\<close>

definition launch_now :: "nat \<Rightarrow> env \<Rightarrow> frame \<Rightarrow> bool \<Rightarrow> driver \<Rightarrow> driver option" where
  "launch_now n e new force_full_redraw d =
     (if diff2 d = None \<or> mirrorfb d = None \<or> force_full_redraw
      then computeDiff (Some (dummydiff1 d)) dummy_spans (fb1 d) new True d \<bind> (\<lambda>d1.
             updateAsync n (fb1 d1) (Some (dummydiff1 d1)) d1)
      else computeDiff (diff1 d) (e_spans e) (fb1 d) new True d \<bind> (\<lambda>d1.
             updateAsync n (fb1 d1) (diff1 d1) d1))
     \<bind> (\<lambda>d2. Some (d2\<lparr>mirrorfb := fb1 d2\<rparr>))"

definition update_double :: "nat \<Rightarrow> env \<Rightarrow> frame \<Rightarrow> bool \<Rightarrow> driver \<Rightarrow> driver option" where
  "update_double n e new force_full_redraw d =
     (if vsync_spacing d = - 1 \<and> asyncUpdateActive d then Some d
      else if diff1 d = None \<or> mirrorfb d = None \<or> force_full_redraw
      then waitUpdateAsyncComplete n d \<bind> (\<lambda>d1.
             computeDiff (Some (dummydiff1 d1)) dummy_spans (fb1 d1) new True d1 \<bind> (\<lambda>d2.
             updateAsync n (fb1 d2) (Some (dummydiff1 d2)) d2 \<bind> (\<lambda>d3.
             Some (d3\<lparr>mirrorfb := fb1 d3\<rparr>))))
      else if diff2 d = None
      then waitUpdateAsyncComplete n d \<bind> (\<lambda>d1.
             (if mirrorfb d1 = None \<or> force_full_redraw
              then computeDiff (Some (dummydiff1 d1)) dummy_spans (fb1 d1) new True d1 \<bind> (\<lambda>d2.
                     updateAsync n (fb1 d2) (Some (dummydiff1 d2)) d2)
              else computeDiff (diff1 d1) (e_spans e) (fb1 d1) new True d1 \<bind> (\<lambda>d2.
                     updateAsync n (fb1 d2) (diff1 d2) d2))
             \<bind> (\<lambda>d3. Some (d3\<lparr>mirrorfb := fb1 d3\<rparr>)))
      else (if asyncUpdateActive d
            then computeDiff (diff2 d) (e_spans e) (fb1 d) new False d \<bind> (\<lambda>d1.
                   waitUpdateAsyncComplete n d1 \<bind> (\<lambda>d2.
                   copyfb (fb1 d2) new d2 \<bind> (\<lambda>d3.
                   let d4 = swapdiff d3 in updateAsync n (fb1 d4) (diff1 d4) d4)))
            else computeDiff (diff1 d) (e_spans e) (fb1 d) new True d \<bind> (\<lambda>d1.
                   updateAsync n (fb1 d1) (diff1 d1) d1))
           \<bind> (\<lambda>d5. Some (d5\<lparr>mirrorfb := fb1 d5\<rparr>)))"

definition update_triple :: "nat \<Rightarrow> env \<Rightarrow> frame \<Rightarrow> bool \<Rightarrow> driver \<Rightarrow> driver option" where
  "update_triple n e new force_full_redraw d =
     (if \<not> asyncUpdateActive d then launch_now n e new force_full_redraw d
      else (if vsync_spacing d \<noteq> - 1 then wait_fb2free n d else Some d) \<bind> (\<lambda>d1.
           completions n (e_irq1 e) d1 \<bind> (\<lambda>d2.
           if asyncUpdateActive d2
           then (let d3 = setCB None d2
                 in if mirrorfb d3 \<noteq> None \<and> \<not> force_full_redraw \<and> diff2 d3 \<noteq> None
                    then computeDiff (diff2 d3) (e_spans e) (fb1 d3) new False d3 \<bind> (\<lambda>d4.
                         copyfb (fb2 d4) new d4 \<bind> (\<lambda>d5.
                         completions n (e_irq2 e) d5 \<bind> (\<lambda>d6.
                         if asyncUpdateActive d6
                         then Some ((setCB (Some Buffer2fullCB) d6)\<lparr>fb2full := True, mirrorfb := fb2 d6\<rparr>)
                         else (let d7 = swapfb (swapdiff d6);
                                   d8 = d7\<lparr>mirrorfb := fb1 d7\<rparr>
                               in updateAsync n (fb1 d8) (diff1 d8) d8))))
                    else computeDiff (Some (dummydiff2 d3)) dummy_spans (fb1 d3) new False d3 \<bind> (\<lambda>d4.
                         copyfb (fb2 d4) new d4 \<bind> (\<lambda>d5.
                         completions n (e_irq2 e) d5 \<bind> (\<lambda>d6.
                         if asyncUpdateActive d6
                         then Some ((setCB (Some Buffer2fullCB) d6)\<lparr>fb2full := True, mirrorfb := None\<rparr>)
                         else (let d7 = swapfb (swapdummydiff d6);
                                   d8 = d7\<lparr>mirrorfb := fb1 d7\<rparr>
                               in updateAsync n (fb1 d8) (Some (dummydiff1 d8)) d8)))))
           else launch_now n e new force_full_redraw d2)))"

text \<open>
  \<^verbatim>\<open>update(fb, force_full_redraw)\<close>. In double buffering the engine is tested once on
  each path, so no interrupt has to be placed; in triple buffering the source tests it up to
  three times and the environment says how many transfers end in between.
\<close>

definition update :: "nat \<Rightarrow> env \<Rightarrow> frame \<Rightarrow> bool \<Rightarrow> driver \<Rightarrow> driver option" where
  "update n e new force_full_redraw d0 =
     (let d = d0\<lparr>ongoingDiff := None\<rparr>
      in case bufferingMode d of
           NO_BUFFERING \<Rightarrow>
             waitUpdateAsyncComplete n d \<bind> (\<lambda>d1.
               let d2 = d1\<lparr>mirrorfb := None\<rparr>;
                   d3 = d2\<lparr>diffs := (diffs d2)(dummydiff1 d2 := \<lparr>spans = dummy_spans, rpos = 0\<rparr>)\<rparr>
               in updateNow n e new (dummydiff1 d3) d3)
         | DOUBLE_BUFFERING \<Rightarrow> update_double n e new force_full_redraw d
         | TRIPLE_BUFFERING \<Rightarrow> update_triple n e new force_full_redraw d)"


section \<open>updateRegion\<close>

text \<open>
  The two branches of \<^verbatim>\<open>updateRegion\<close> with two diff buffers (the framebuffer
  mirrors the screen, or a diff is pending) run the same code, up to the previous diff
  handed to \<^verbatim>\<open>computeDiff\<close>, which only affects the spans it writes.
\<close>

definition region_diff :: "nat \<Rightarrow> env \<Rightarrow> bool \<Rightarrow> driver \<Rightarrow> driver option" where
  "region_diff n e redrawNow d =
     (if asyncUpdateActive d
      then computeDiff (diff2 d) (e_spans e) (fb1 d) (e_fb1 e) False d \<bind> (\<lambda>d1.
             waitUpdateAsyncComplete n d1 \<bind> (\<lambda>d2.
             copyfb (fb1 d2) (e_fb1 e) d2))
      else computeDiff (diff2 d) (e_spans e) (fb1 d) (e_fb1 e) True d)
     \<bind> (\<lambda>d3.
       let d4 = swapdiff d3
       in if redrawNow
          then updateAsync n (fb1 d4) (diff1 d4) d4 \<bind> (\<lambda>d5.
                 Some (d5\<lparr>mirrorfb := fb1 d5, ongoingDiff := None\<rparr>))
          else Some (d4\<lparr>mirrorfb := None, ongoingDiff := diff1 d4\<rparr>))"

text \<open>
  \<^verbatim>\<open>updateRegion(redrawNow, fb, xmin, xmax, ymin, ymax, stride)\<close>. The region and the
  stride reach the model through the inputs \<open>e_box\<close>, \<open>e_fb1\<close> and \<open>e_spans\<close>.
\<close>

definition updateRegion ::
  "nat \<Rightarrow> env \<Rightarrow> bool \<Rightarrow> frame \<Rightarrow> int \<Rightarrow> int \<Rightarrow> int \<Rightarrow> int \<Rightarrow> int \<Rightarrow> driver \<Rightarrow> driver option" where
  "updateRegion n e redrawNow sub_fb xmin xmax ymin ymax stride d =
     (case bufferingMode d of
        NO_BUFFERING \<Rightarrow> updateRectNow n e sub_fb (d\<lparr>mirrorfb := None, ongoingDiff := None\<rparr>)
      | m \<Rightarrow>
          (if m = TRIPLE_BUFFERING then wait_fb2free n d else Some d) \<bind> (\<lambda>d1.
          if diff2 d1 = None
          then waitUpdateAsyncComplete n (d1\<lparr>ongoingDiff := None\<rparr>) \<bind> (\<lambda>d2.
               computeDiff (Some (dummydiff1 d2)) (e_spans e) (fb1 d2) (e_fb1 e) True d2 \<bind> (\<lambda>d3.
               if redrawNow
               then (if mirrorfb d3 \<noteq> None then updateRectNow n e sub_fb d3
                     else updateAsync n (fb1 d3) (Some (dummydiff1 d3)) d3)
                    \<bind> (\<lambda>d4. Some (d4\<lparr>mirrorfb := fb1 d4\<rparr>))
               else Some (d3\<lparr>mirrorfb := None\<rparr>)))
          else if mirrorfb d1 \<noteq> None then region_diff n e redrawNow d1
          else if ongoingDiff d1 \<noteq> None then region_diff n e redrawNow d1
          else waitUpdateAsyncComplete n d1 \<bind> (\<lambda>d2.
               copyfb (fb1 d2) (e_fb1 e) d2 \<bind> (\<lambda>d3.
               if redrawNow
               then computeDiff (Some (dummydiff1 d3)) dummy_spans (fb1 d3) sub_fb False d3 \<bind> (\<lambda>d4.
                    updateAsync n (fb1 d4) (Some (dummydiff1 d4)) d4 \<bind> (\<lambda>d5.
                    Some (d5\<lparr>mirrorfb := fb1 d5\<rparr>)))
               else Some d3))))"

section \<open>Configuration\<close>

text \<open>\<^verbatim>\<open>setRotation(uint8_t m)\<close>.\<close>

definition setRotation :: "nat \<Rightarrow> 8 word \<Rightarrow> driver \<Rightarrow> driver option" where
  "setRotation n m d =
     (let m1 = clip m 0 3
      in if m1 = rotation d then Some d
         else waitUpdateAsyncComplete n d \<bind> (\<lambda>d1.
                let d2 = statsReset (d1\<lparr>mirrorfb := None, ongoingDiff := None\<rparr>);
                    d3 = d2\<lparr>rotation := m1\<rparr>;
                    d4 = (if m1 = 0 \<or> m1 = 2 then d3\<lparr>width := TFTWIDTH, height := TFTHEIGHT\<rparr>
                          else if m1 = 1 \<or> m1 = 3 then d3\<lparr>width := TFTHEIGHT, height := TFTWIDTH\<rparr>
                          else d3)
                in Some (resync d4)))"



text \<open>
  \<^verbatim>\<open>_sampleRefreshRate\<close> polls the panel until it has seen ten frames; its result is an
  input: the period measured, the last scanline read and the time of that read, or nothing
  when the panel never answers as expected and the loops do not end.
\<close>

definition sampleRefreshRate :: "(u32 \<times> u32 \<times> u32) option \<Rightarrow> driver \<Rightarrow> driver option" where
  "sampleRefreshRate hw d =
     (case hw of
        None \<Rightarrow> None
      | Some (p, sc, now) \<Rightarrow> Some (d\<lparr>period := p, synced_scanline := sc, synced_em := now\<rparr>))"

text \<open>\<^verbatim>\<open>setRefreshMode(int mode)\<close>.\<close>

definition setRefreshMode :: "nat \<Rightarrow> (u32 \<times> u32 \<times> u32) option \<Rightarrow> int \<Rightarrow> driver \<Rightarrow> driver option" where
  "setRefreshMode n hw mode d =
     (if mode < 0 \<or> 31 < mode then Some d
      else (let d1 = d\<lparr>refreshmode := mode\<rparr>;
                diva = (if 16 \<le> mode then 1 else 0);
                mode1 = (if 16 \<le> mode then mode - 16 else mode)
            in waitUpdateAsyncComplete n d1 \<bind> (\<lambda>d2.
                 sampleRefreshRate hw
                   (d2\<lparr>panel := panel d2 @ [Cmd FRMCTR1, Data8 diva, Data8 (word_of_int (16 + mode1))]\<rparr>)
                 \<bind> (\<lambda>d3. Some (resync (statsReset d3))))))"

section \<open>Scrolling\<close>

text \<open>
  C arithmetic on \<^verbatim>\<open>int\<close>: 32-bit two's complement, \<open>+\<close>, \<open>-\<close> and \<open>*\<close> wrap
  around, division truncates towards zero and the remainder has the sign of the dividend.
\<close>

definition c_div :: "i32 \<Rightarrow> i32 \<Rightarrow> i32" where
  "c_div a b = word_of_int (sint a sdiv sint b)"

definition c_mod :: "i32 \<Rightarrow> i32 \<Rightarrow> i32" where
  "c_mod a b = word_of_int (sint a smod sint b)"

text \<open>The value of \<^verbatim>\<open>offset\<close> that \<^verbatim>\<open>setScroll\<close> sends.\<close>

definition scroll_address :: "i32 \<Rightarrow> i32" where
  "scroll_address offset =
     (let offset1 = (if sint offset < 0
                     then offset + (c_div (- offset) (word_of_int TFTHEIGHT) + 1) * word_of_int TFTHEIGHT
                     else offset)
      in c_mod offset1 320)"

text \<open>\<^verbatim>\<open>setScroll(int offset)\<close>; \<^verbatim>\<open>_writedata16_cont\<close> takes 16 bits.\<close>

definition setScroll :: "nat \<Rightarrow> i32 \<Rightarrow> driver \<Rightarrow> driver option" where
  "setScroll n offset d =
     (let a = scroll_address offset
      in waitUpdateAsyncComplete n d \<bind> (\<lambda>d1.
           Some (d1\<lparr>panel := panel d1 @ [Cmd VSCRSADD, Data16 (ucast a), Cmd RAMWR, Cmd NOP]\<rparr>)))"

text \<open>What the claim says of the address, on mathematical integers.\<close>

definition scroll_spec :: "int \<Rightarrow> int" where
  "scroll_spec ofs = (if ofs < 0 then ofs + ((- ofs) div 480 + 1) * 480 else ofs) mod 320"

section \<open>Scanline and refresh rate\<close>

text \<open>
  \<^verbatim>\<open>_getScanLine(sync)\<close>. \<^verbatim>\<open>_synced_em\<close> is an \<^verbatim>\<open>elapsedMicros\<close>: the field
  holds the time of its reset and reading it gives \<open>now - synced_em\<close> on 32 bits. Without
  synchronisation the expression is evaluated on 64 bits, as the cast makes it; a division
  by zero has no result. With synchronisation \<open>res0\<close> is the byte read from the panel.
\<close>

definition getScanLine :: "bool \<Rightarrow> 8 word \<Rightarrow> u32 \<Rightarrow> driver \<Rightarrow> (int \<times> driver) option" where
  "getScanLine sync res0 now d =
     (if \<not> sync
      then (let em = (ucast (now - synced_em d) :: 64 word);
                nb = (word_of_int (NB_SCANLINES d) :: 64 word);
                p = (ucast (period d) :: 64 word);
                s = (ucast (synced_scanline d) :: 64 word)
            in if p = 0 \<or> nb = 0 then None
               else Some (sint (ucast ((s + (em * nb) div p) mod nb) :: i32), d))
      else (let sc0 = 2 * uint res0 - 3;
                sc = (if sc0 < 0 then 0 else sc0)
            in Some (sc, d\<lparr>synced_em := now, synced_scanline := word_of_int sc\<rparr>)))"

text \<open>
  \<^verbatim>\<open>_refreshRateForMode\<close> and \<^verbatim>\<open>_modeForRefreshRate\<close> compute on \<^verbatim>\<open>float\<close>. The
  model computes on the reals: it is exact where the program rounds, and it has no
  infinity, so it stands for the program only when \<^verbatim>\<open>_period_mode0\<close> is not zero.
\<close>

definition refreshRateForMode :: "driver \<Rightarrow> int \<Rightarrow> real" where
  "refreshRateForMode d mode =
     (let freq = 1000000 / real (unat (period_mode0 d))
      in if 16 \<le> mode then ((freq / 2) * 16) / (16 + real_of_int (mode - 16))
         else (freq * 16) / (16 + real_of_int mode))"

text \<open>
  The rate measured for mode 0. \<^verbatim>\<open>begin\<close> selects mode 0, which samples the period of
  one refresh in microseconds, and saves it in \<^verbatim>\<open>_period_mode0\<close>; the first line of
  \<^verbatim>\<open>_refreshRateForMode\<close> turns that period into a rate in Hz.
\<close>

definition baseHz :: "driver \<Rightarrow> real" where
  "baseHz d = 1000000 / real (unat (period_mode0 d))"

function dichotomy :: "driver \<Rightarrow> real \<Rightarrow> int \<Rightarrow> int \<Rightarrow> int \<times> int" where
  "dichotomy d hz a b =
     (if 1 < b - a
      then (let c = (a + b) sdiv 2
            in if hz < refreshRateForMode d c then dichotomy d hz c b else dichotomy d hz a c)
      else (a, b))"
  by pat_completeness auto
termination
proof (relation "measure (\<lambda>(d, hz, a, b). nat (b - a))")
  show "wf (measure (\<lambda>(d, hz, a, b). nat (b - a)))" by simp
next
  fix d :: driver and hz :: real and a b c :: int
  assume h: "1 < b - a" and c: "c = (a + b) sdiv 2"
  have "c = (if 0 \<le> a + b then (a + b) div 2 else - ((- (a + b)) div 2))"
    by (simp add: c signed_divide_int_def sgn_if)
  with h have "a < c \<and> c < b" by (auto split: if_splits)
  then show "((d, hz, c, b), (d, hz, a, b)) \<in> measure (\<lambda>(d, hz, a, b). nat (b - a))"
    and "((d, hz, a, c), (d, hz, a, b)) \<in> measure (\<lambda>(d, hz, a, b). nat (b - a))" by simp_all
qed

definition modeForRefreshRate :: "driver \<Rightarrow> real \<Rightarrow> int" where
  "modeForRefreshRate d hz =
     (if hz \<le> refreshRateForMode d 31 then 31
      else if refreshRateForMode d 0 \<le> hz then 0
      else (case dichotomy d hz 0 31 of (a, b) \<Rightarrow>
              (let da = refreshRateForMode d a - hz;
                   db = hz - refreshRateForMode d b
               in if da < db then a else b)))"

section \<open>The interrupt of a transfer\<close>

text \<open>
  \<^verbatim>\<open>_subFrameInterruptDiff\<close>, called when a span has been sent or when the timer of a
  wait expires. It reads the clock twice: \<open>s\<close> holds the two values of
  \<^verbatim>\<open>_nbScanlineDuring(_em_async)\<close>, the scanlines drawn since the transfer started.
  With vsync it first lowers \<^verbatim>\<open>_margin\<close> to the slack \<open>m\<close> between the last row
  written and the beam. The DMA and bus registers are hardware.
\<close>

definition slack :: "int \<times> int \<Rightarrow> driver \<Rightarrow> int" where
  "slack s d = last_y d + TFTHEIGHT - slinitpos d - fst s"

definition check_margin :: "int \<times> int \<Rightarrow> driver \<Rightarrow> driver" where
  "check_margin s d =
     (if 0 < vsync_spacing d
      then (let m = slack s d in if m < margin d then d\<lparr>margin := m\<rparr> else d)
      else d)"

definition subFrameInterruptDiff :: "nat \<Rightarrow> int \<times> int \<Rightarrow> driver \<Rightarrow> driver option" where
  "subFrameInterruptDiff n s d0 =
     (let d = check_margin s d0;
          asl = (if 0 < vsync_spacing d then slinitpos d + snd s else 2 * TFTHEIGHT)
      in case diff d of
           None \<Rightarrow> None
         | Some g \<Rightarrow>
             (case readDiff asl (diffs d g) of
                (Done, _) \<Rightarrow> transfer_end n (frame_sent d)
              | (MustWait r, _) \<Rightarrow> Some d
              | (Span x y len, b) \<Rightarrow>
                  Some (d\<lparr>diffs := (diffs d)(g := b), prev_caset_x := x, prev_paset_y := y,
                          last_y := (TFTWIDTH * y + x + len) sdiv TFTWIDTH\<rparr>)))"

text \<open>The interrupts of a frame, one after the other.\<close>

fun interrupts :: "nat \<Rightarrow> (int \<times> int) list \<Rightarrow> driver \<Rightarrow> driver option" where
  "interrupts n [] d = Some d"
| "interrupts n (s # ss) d = subFrameInterruptDiff n s d \<bind> interrupts n ss"

text \<open>The slack measured by each of them.\<close>

fun slacks :: "nat \<Rightarrow> (int \<times> int) list \<Rightarrow> driver \<Rightarrow> int list" where
  "slacks n [] d = []"
| "slacks n (s # ss) d =
     slack s d # (case subFrameInterruptDiff n s d of None \<Rightarrow> [] | Some d1 \<Rightarrow> slacks n ss d1)"

text \<open>
  The samples \<open>ss\<close> are those of one frame from the state \<open>d\<close>: the last interrupt, and
  no interrupt before it, finds no span left.
\<close>

definition finds_done :: "int \<times> int \<Rightarrow> driver \<Rightarrow> bool" where
  "finds_done s d =
     (case diff d of
        None \<Rightarrow> False
      | Some g \<Rightarrow>
          fst (readDiff (if 0 < vsync_spacing d then slinitpos d + snd s else 2 * TFTHEIGHT)
                 (diffs d g)) = Done)"

fun frame_of :: "nat \<Rightarrow> (int \<times> int) list \<Rightarrow> driver \<Rightarrow> bool" where
  "frame_of n [] d = False"
| "frame_of n [s] d = finds_done s d"
| "frame_of n (s # ss) d =
     (\<not> finds_done s d \<and>
      (case subFrameInterruptDiff n s d of None \<Rightarrow> False | Some d1 \<Rightarrow> frame_of n ss d1))"

section \<open>Construction\<close>

text \<open>
  The state left by the constructor. \<open>nb\<close> and \<open>vs\<close> are the header's
  \<^verbatim>\<open>ILI9488_T4_NB_SCANLINES\<close> and \<^verbatim>\<open>ILI9488_T4_DEFAULT_VSYNC_SPACING\<close>, \<open>dd1\<close>
  and \<open>dd2\<close> the addresses of the two dummy diffs. The constructor does not initialise
  \<^verbatim>\<open>_period_mode0\<close> (\<open>pm0\<close>) nor the memory.
\<close>

definition new_driver :: "int \<Rightarrow> int \<Rightarrow> ptr \<Rightarrow> ptr \<Rightarrow> u32 \<Rightarrow> driver" where
  "new_driver nb vs dd1 dd2 pm0 =
     \<lparr>NB_SCANLINES = nb, width = TFTWIDTH, height = TFTHEIGHT, rotation = 0, refreshmode = 0,
      late_start_ratio_override = True, vsync_spacing = vs,
      diff1 = None, diff2 = None, fb1 = None, fb2 = None, dummydiff1 = dd1, dummydiff2 = dd2,
      mirrorfb = None, ongoingDiff = None, fb2full = False,
      period = 0, period_mode0 = pm0, synced_em = 0, synced_scanline = 0,
      pcb = None, fb = None, diff = None, dma_state = DMA_IDLE,
      last_y = 0, margin = 0, slinitpos = 0, prev_caset_x = 0, prev_paset_y = 0,
      stats_nb_frame = 0, nbteared = 0, statsvar_margin = [],
      mem = (\<lambda>_. []), diffs = (\<lambda>_. \<lparr>spans = [], rpos = 0\<rparr>), panel = []\<rparr>"


section \<open>Example states\<close>

text \<open>
  Concrete states and inputs on which the theorems below are instantiated. The fields that
  the constructor leaves uninitialised are 0 in \<open>new_driver\<close>.
\<close>

definition ex_driver :: driver where
  "ex_driver = new_driver 480 2 100 101 16000"

definition ex_env :: env where
  "ex_env = \<lparr>e_spans = [(0, 0, 10)], e_fb1 = [5], e_box = (0, 9, 0, 9), e_irq1 = 0, e_irq2 = 0,
             e_scanline = 0, e_slack = []\<rparr>"

text \<open>Double buffering, a transfer in flight, \<^verbatim>\<open>_vsync_spacing\<close> = -1.\<close>

definition c7_state :: driver where
  "c7_state = (new_driver 480 (- 1) 100 101 16000)\<lparr>fb1 := Some 1, dma_state := DMA_ON,
                 fb := Some 1, diff := Some 100\<rparr>"

text \<open>A calibrated clock: period 16000 us, last synchronised at scanline 10 at time 0.\<close>

definition c5_state :: driver where
  "c5_state = ex_driver\<lparr>period := 16000, synced_scanline := 10, synced_em := 0\<rparr>"

text \<open>
  A paced transfer in flight: its diff has two spans, the first was sent by the start timer
  and the row after it is \<^verbatim>\<open>_last_y\<close> = 1.
\<close>

definition c6_state :: driver where
  "c6_state = ex_driver\<lparr>dma_state := DMA_ON, fb := Some 1, diff := Some 7,
                 diffs := (diffs ex_driver)(7 := \<lparr>spans = [(0, 0, 320), (0, 5, 320)], rpos = 1\<rparr>),
                 last_y := 1, slinitpos := 0, margin := 480\<rparr>"

section \<open>Relations used in the proofs\<close>

text \<open>
  What no function of the transfer engine changes: the configuration, the content of the
  framebuffers, the spans of the difference buffers, and the pair of owned framebuffers
  (a promotion exchanges them).
\<close>

definition engine_rel :: "driver \<Rightarrow> driver \<Rightarrow> bool" where
  "engine_rel d d' \<longleftrightarrow>
     NB_SCANLINES d' = NB_SCANLINES d \<and> vsync_spacing d' = vsync_spacing d
     \<and> mem d' = mem d \<and> (\<forall>g. spans (diffs d' g) = spans (diffs d g))
     \<and> {fb1 d', fb2 d'} = {fb1 d, fb2 d}"


text \<open>
  The state in which \<^verbatim>\<open>_buffer2fullCB\<close> calls \<^verbatim>\<open>_updateAsync\<close>: the secondary
  buffer and its diff (the dummy one when no mirror is recorded) have become primary.
\<close>

definition promote :: "driver \<Rightarrow> driver" where
  "promote d =
     (if mirrorfb d \<noteq> None
      then (swapfb (swapdiff d))\<lparr>mirrorfb := fb1 (swapfb (swapdiff d)), fb2full := False\<rparr>
      else (swapfb (swapdummydiff d))\<lparr>mirrorfb := fb1 (swapfb (swapdummydiff d)), fb2full := False\<rparr>)"

text \<open>The diff that a queued frame will be sent with.\<close>

definition queued_diff :: "driver \<Rightarrow> ptr option" where
  "queued_diff d = (if mirrorfb d \<noteq> None then diff2 d else Some (dummydiff2 d))"

text \<open>
  The spans with which \<^verbatim>\<open>update\<close> sends or queues a frame: those of the diff with the
  mirrored framebuffer when there is a second diff buffer, a mirror and no forced redraw, and
  the single span of the dummy diff otherwise.
\<close>

definition first_diff :: "env \<Rightarrow> bool \<Rightarrow> driver \<Rightarrow> span list" where
  "first_diff e force_full_redraw d =
     (if diff2 d = None \<or> mirrorfb d = None \<or> force_full_redraw then dummy_spans else e_spans e)"

text \<open>
  What \<^verbatim>\<open>update\<close> does in triple buffering once a transfer is found in flight: the diff
  goes to the second diff buffer (or the second dummy), the frame to the secondary framebuffer,
  and \<^verbatim>\<open>_buffer2fullCB\<close> is registered.
\<close>

definition queue_frame :: "env \<Rightarrow> frame \<Rightarrow> bool \<Rightarrow> driver \<Rightarrow> driver" where
  "queue_frame e new force d =
     (if mirrorfb d \<noteq> None \<and> \<not> force \<and> diff2 d \<noteq> None
      then d\<lparr>diffs := (diffs d)(the (diff2 d) := \<lparr>spans = e_spans e, rpos = 0\<rparr>),
             mem := (mem d)(the (fb2 d) := new),
             pcb := Some Buffer2fullCB, fb2full := True, mirrorfb := fb2 d\<rparr>
      else d\<lparr>diffs := (diffs d)(dummydiff2 d := \<lparr>spans = dummy_spans, rpos = 0\<rparr>),
             mem := (mem d)(the (fb2 d) := new),
             pcb := Some Buffer2fullCB, fb2full := True, mirrorfb := None\<rparr>)"

text \<open>Triple buffering without diff buffers, nothing in flight, \<^verbatim>\<open>_vsync_spacing\<close> = \<open>v\<close>.\<close>

definition c2_state :: "int \<Rightarrow> driver" where
  "c2_state v = (new_driver 480 v 100 101 16000)\<lparr>fb1 := Some 1, fb2 := Some 2\<rparr>"

text \<open>
  The last interrupt of the transfer in flight, as the waiting loops run it: the frame has
  been sent and the transfer ends.
\<close>

definition last_interrupt :: "nat \<Rightarrow> driver \<Rightarrow> driver option" where
  "last_interrupt n d = transfer_end n (frame_sent d)"

text \<open>
  Three calls of \<^verbatim>\<open>update\<close> with no completion interrupt in between, followed by the
  last interrupts of the two transfers then pending.
\<close>

definition three_submissions :: "nat \<Rightarrow> env \<Rightarrow> frame \<Rightarrow> frame \<Rightarrow> frame \<Rightarrow> driver \<Rightarrow> driver option" where
  "three_submissions n e F1 F2 F3 d =
     update n e F1 False d \<bind> update n e F2 False \<bind> update n e F3 False
       \<bind> last_interrupt n \<bind> last_interrupt n"


text \<open>
  The two difference buffers given to the driver and its two dummy ones are four distinct
  objects.
\<close>

definition diffs_distinct :: "driver \<Rightarrow> bool" where
  "diffs_distinct d \<longleftrightarrow>
     dummydiff1 d \<noteq> dummydiff2 d
     \<and> diff1 d \<noteq> Some (dummydiff1 d) \<and> diff1 d \<noteq> Some (dummydiff2 d)
     \<and> diff2 d \<noteq> Some (dummydiff1 d) \<and> diff2 d \<noteq> Some (dummydiff2 d)
     \<and> (diff1 d = None \<or> diff1 d \<noteq> diff2 d)"

text \<open>The diff \<open>g\<close> is not one of the two that \<^verbatim>\<open>update\<close> writes a queued frame into.\<close>

definition secondary_free :: "ptr \<Rightarrow> driver \<Rightarrow> bool" where
  "secondary_free g d \<longleftrightarrow> g \<noteq> dummydiff2 d \<and> diff2 d \<noteq> Some g"

section \<open>Arithmetic of setScroll\<close>

lemma sint_i32_of_int:
  "- 2147483648 \<le> x \<Longrightarrow> x < 2147483648 \<Longrightarrow> sint (word_of_int x :: i32) = x"
  by (simp add: sint_sbintrunc' signed_take_bit_int_eq_self)

lemma sint_i32_range: "- 2147483648 \<le> sint (w :: i32) \<and> sint w < 2147483648"
  using sint_ge [of w] sint_lt [of w] by simp

lemma sint_i32_minus: "sint (w :: i32) \<noteq> - 2147483648 \<Longrightarrow> sint (- w) = - sint w"
  using sint_i32_range [of w]
  by (simp add: sint_word_minus signed_take_bit_int_eq_self)

lemma smod_nonneg: "0 \<le> (x::int) \<Longrightarrow> 0 < y \<Longrightarrow> x smod y = x mod y"
  by (simp add: smod_int_alt_def signed_divide_int_def sgn_if minus_div_mult_eq_mod)

lemma sdiv_nonneg: "0 \<le> (x::int) \<Longrightarrow> 0 < y \<Longrightarrow> x sdiv y = x div y"
  by (simp add: signed_divide_int_def sgn_if)

lemma lift_bound:
  assumes "(x::int) < 0"
  shows "0 < x + ((- x) div 480 + 1) * 480 \<and> x + ((- x) div 480 + 1) * 480 \<le> 480"
proof -
  define q where "q = (- x) div 480"
  define r where "r = (- x) mod 480"
  have e: "q * 480 + r = - x" by (simp add: q_def r_def)
  have "0 \<le> r" "r < 480" by (simp_all add: r_def)
  with e have "0 < x + (q + 1) * 480 \<and> x + (q + 1) * 480 \<le> 480" by (simp add: distrib_right)
  then show ?thesis by (simp add: q_def)
qed

lemma scroll_address_sint:
  assumes "sint offset \<noteq> - 2147483648"
  shows "sint (scroll_address offset) = scroll_spec (sint offset)"
proof (cases "sint offset < 0")
  case False
  then have "0 \<le> sint offset mod 320" "sint offset mod 320 < 320" by simp_all
  with False show ?thesis
    by (simp add: scroll_address_def scroll_spec_def c_mod_def smod_nonneg sint_i32_of_int)
next
  case True
  define x where "x = sint offset"
  define q where "q = (- x) div 480"
  have r: "- 2147483648 \<le> x" "x < 0" using sint_i32_range [of offset] True by (simp_all add: x_def)
  have neg: "sint (- offset) = - x" using assms by (simp add: sint_i32_minus x_def)
  have "(- x) sdiv 480 = (- x) div 480" using r by (intro sdiv_nonneg) simp_all
  then have d: "c_div (- offset) 480 = word_of_int q"
    unfolding c_div_def neg q_def by (simp del: minus_sdiv_eq)
  have ofs: "offset = word_of_int x" by (simp add: x_def)
  have w: "offset + (c_div (- offset) 480 + 1) * 480 = (word_of_int (x + (q + 1) * 480) :: i32)"
    by (simp add: d ofs [symmetric]) 
  have b: "0 < x + (q + 1) * 480" "x + (q + 1) * 480 \<le> 480"
    using lift_bound [OF r(2)] by (simp_all add: q_def)
  have s: "sint (word_of_int (x + (q + 1) * 480) :: i32) = x + (q + 1) * 480"
    using b by (intro sint_i32_of_int) simp_all
  have m: "0 \<le> (x + (q + 1) * 480) mod 320" "(x + (q + 1) * 480) mod 320 < 320" by simp_all
  have "sint (scroll_address offset) = (x + (q + 1) * 480) mod 320"
    unfolding scroll_address_def Let_def TFTHEIGHT_def using True b m
    by (simp only: w if_True s c_mod_def word_of_int_numeral) (simp add: smod_nonneg sint_i32_of_int)
  moreover have "scroll_spec (sint offset) = (x + (q + 1) * 480) mod 320"
    using r by (simp add: scroll_spec_def x_def [symmetric] q_def [symmetric])
  ultimately show ?thesis by simp
qed

lemma scroll_address_min: "sint (scroll_address (word_of_int (- 2147483648))) = 288"
  by (simp add: scroll_address_def c_div_def c_mod_def TFTHEIGHT_def)

lemma scroll_address_range: "0 \<le> sint (scroll_address offset) \<and> sint (scroll_address offset) < 320"
proof (cases "sint offset = - 2147483648")
  case True
  have "offset = word_of_int (sint offset)" by simp
  with True have "offset = word_of_int (- 2147483648)" by simp
  then show ?thesis using scroll_address_min by simp
next
  case False
  then show ?thesis by (simp add: scroll_address_sint scroll_spec_def)
qed

lemma scroll_address_data16:
  "uint (ucast (scroll_address offset) :: 16 word) = sint (scroll_address offset)"
proof -
  define k where "k = sint (scroll_address offset)"
  have r: "0 \<le> k" "k < 320"
    using scroll_address_range [of offset] by (simp_all add: k_def)
  have e: "word_of_int k = scroll_address offset" by (simp add: k_def)
  have "uint (word_of_int k :: i32) = k" using r by (simp add: uint_word_of_int)
  then have uw: "uint (scroll_address offset) = k" by (simp only: e)
  have "uint (ucast (scroll_address offset) :: 16 word) = take_bit 16 (uint (scroll_address offset))"
    by (simp add: unsigned_ucast_eq)
  with uw r show ?thesis by (simp add: take_bit_eq_mod k_def [symmetric])
qed

section \<open>Waiting for the engine\<close>

lemma wait_idle: "dma_state d = DMA_IDLE \<Longrightarrow> waitUpdateAsyncComplete (Suc n) d = Some d"
  by simp

section \<open>Arithmetic of the scanline\<close>

lemma uint_ucast_32_64: "uint (ucast (w :: u32) :: 64 word) = uint w"
  using uint_lt2p [of w] by (simp add: unsigned_ucast_eq take_bit_eq_mod)

lemma uint_u32_bound: "uint (w :: u32) < 4294967296"
  using uint_lt2p [of w] by simp

section \<open>Refresh rates\<close>

lemma baseHz_pos:
  assumes "period_mode0 d \<noteq> 0"
  shows "0 < baseHz d"
proof -
  have "0 < real (unat (period_mode0 d))"
    using assms by (metis of_nat_0_less_iff unat_gt_0)
  then show ?thesis unfolding baseHz_def by simp
qed

lemma rate_pos:
  assumes "period_mode0 d \<noteq> 0" "0 \<le> m"
  shows "0 < refreshRateForMode d m"
proof -
  have "unat (period_mode0 d) \<noteq> 0" using assms(1) by (simp add: unat_eq_0)
  then have "0 < real (unat (period_mode0 d))" by (metis of_nat_0_less_iff neq0_conv)
  then have "0 < 1000000 / real (unat (period_mode0 d))" by simp
  with assms(2) show ?thesis by (simp add: refreshRateForMode_def Let_def)
qed

lemma rate_strict_antimono:
  assumes p: "period_mode0 d \<noteq> 0" and ij: "0 \<le> i" "i < j"
  shows "refreshRateForMode d j < refreshRateForMode d i"
proof -
  define f where "f = 1000000 / real (unat (period_mode0 d))"
  have "unat (period_mode0 d) \<noteq> 0" using p by (simp add: unat_eq_0)
  then have "0 < real (unat (period_mode0 d))" by (metis of_nat_0_less_iff neq0_conv)
  then have f: "0 < f" by (simp add: f_def)
  consider "j < 16" | "i < 16" "16 \<le> j" | "16 \<le> i" using ij by linarith
  then show ?thesis
  proof cases
    case 1
    then have "f * 16 / (16 + real_of_int j) < f * 16 / (16 + real_of_int i)"
      using f ij by (intro divide_strict_left_mono) simp_all
    with 1 ij show ?thesis by (simp add: refreshRateForMode_def Let_def f_def)
  next
    case 2
    have "f / 2 * 16 / (16 + real_of_int (j - 16)) \<le> f / 2 * 16 / 16"
      using f 2 by (intro divide_left_mono) simp_all
    also have "\<dots> < f * 16 / 31" using f by simp
    also have "\<dots> \<le> f * 16 / (16 + real_of_int i)"
      using f 2 ij by (intro divide_left_mono) simp_all
    finally show ?thesis using 2 by (simp add: refreshRateForMode_def Let_def f_def)
  next
    case 3
    then have "f / 2 * 16 / (16 + real_of_int (j - 16)) < f / 2 * 16 / (16 + real_of_int (i - 16))"
      using f ij by (intro divide_strict_left_mono) simp_all
    with 3 ij show ?thesis by (simp add: refreshRateForMode_def Let_def f_def)
  qed
qed

lemma rate_less_iff:
  assumes "period_mode0 d \<noteq> 0" "0 \<le> i" "0 \<le> j"
  shows "refreshRateForMode d j < refreshRateForMode d i \<longleftrightarrow> i < j"
proof
  assume "i < j" then show "refreshRateForMode d j < refreshRateForMode d i"
    using assms rate_strict_antimono by simp
next
  assume h: "refreshRateForMode d j < refreshRateForMode d i"
  show "i < j"
  proof (rule ccontr)
    assume "\<not> i < j"
    then consider "j = i" | "j < i" by linarith
    then show False
    proof cases
      case 1 with h show False by simp
    next
      case 2
      then have "refreshRateForMode d i < refreshRateForMode d j"
        using assms rate_strict_antimono by simp
      with h show False by simp
    qed
  qed
qed

lemma dichotomy_finds:
  "hz = refreshRateForMode d m \<Longrightarrow> period_mode0 d \<noteq> 0 \<Longrightarrow> 0 \<le> a \<Longrightarrow> a < m \<Longrightarrow> m \<le> b \<Longrightarrow>
     dichotomy d hz a b = (m - 1, m)"
proof (induction d hz a b rule: dichotomy.induct)
  case (1 d hz a b)
  note hz = 1(3) and p = 1(4) and a0 = 1(5) and am = 1(6) and mb = 1(7)
  show ?case
  proof (cases "1 < b - a")
    case False
    with am mb have "a = m - 1" "b = m" by simp_all
    with False show ?thesis by (subst dichotomy.simps) simp
  next
    case True
    define c where "c = (a + b) sdiv 2"
    have c: "c = (a + b) div 2" using a0 am mb by (simp add: c_def signed_divide_int_def sgn_if)
    have cb: "a < c" "c < b" using True c by simp_all
    show ?thesis
    proof (cases "hz < refreshRateForMode d c")
      case t: True
      have "0 \<le> c" "0 \<le> m" using a0 am cb by simp_all
      then have "c < m" using rate_less_iff [OF p, of c m] t hz by simp
      then have "dichotomy d hz c b = (m - 1, m)"
        using 1(1) [OF True c_def t hz p] a0 mb cb by simp
      with True t show ?thesis by (subst dichotomy.simps) (simp add: c_def Let_def)
    next
      case f: False
      have "0 \<le> c" "0 \<le> m" using a0 am cb by simp_all
      then have "m \<le> c" using rate_less_iff [OF p, of c m] f hz by simp
      then have "dichotomy d hz a c = (m - 1, m)"
        using 1(2) [OF True c_def f hz p] a0 am by simp
      with True f show ?thesis by (subst dichotomy.simps) (simp add: c_def Let_def)
    qed
  qed
qed

section \<open>Fields left alone by the steps of a transfer\<close>

lemma endframe_fields [simp]:
  "NB_SCANLINES (endframe d) = NB_SCANLINES d"
  "vsync_spacing (endframe d) = vsync_spacing d"
  "pcb (endframe d) = pcb d"
  "dma_state (endframe d) = dma_state d"
  "mirrorfb (endframe d) = mirrorfb d"
  "ongoingDiff (endframe d) = ongoingDiff d"
  "fb1 (endframe d) = fb1 d"
  "fb2 (endframe d) = fb2 d"
  "diff1 (endframe d) = diff1 d"
  "diff2 (endframe d) = diff2 d"
  "dummydiff1 (endframe d) = dummydiff1 d"
  "dummydiff2 (endframe d) = dummydiff2 d"
  "fb2full (endframe d) = fb2full d"
  "mem (endframe d) = mem d"
  "diffs (endframe d) = diffs d"
  "panel (endframe d) = panel d"
  "margin (endframe d) = margin d"
  "rotation (endframe d) = rotation d"
  by (simp_all add: endframe_def Let_def)

lemma arm_transfer_fields [simp]:
  "NB_SCANLINES (arm_transfer a b d) = NB_SCANLINES d"
  "vsync_spacing (arm_transfer a b d) = vsync_spacing d"
  "pcb (arm_transfer a b d) = pcb d"
  "dma_state (arm_transfer a b d) = DMA_ON"
  "mirrorfb (arm_transfer a b d) = mirrorfb d"
  "ongoingDiff (arm_transfer a b d) = ongoingDiff d"
  "fb1 (arm_transfer a b d) = fb1 d"
  "fb2 (arm_transfer a b d) = fb2 d"
  "diff1 (arm_transfer a b d) = diff1 d"
  "diff2 (arm_transfer a b d) = diff2 d"
  "dummydiff1 (arm_transfer a b d) = dummydiff1 d"
  "dummydiff2 (arm_transfer a b d) = dummydiff2 d"
  "fb2full (arm_transfer a b d) = fb2full d"
  "mem (arm_transfer a b d) = mem d"
  "panel (arm_transfer a b d) = panel d"
  "fb (arm_transfer a b d) = Some a"
  "diff (arm_transfer a b d) = Some b"
  "margin (arm_transfer a b d) = NB_SCANLINES d"
  "nbteared (arm_transfer a b d) = nbteared d"
  "stats_nb_frame (arm_transfer a b d) = stats_nb_frame d"
  "spans (diffs (arm_transfer a b d) g) = spans (diffs d g)"
  "rpos (diffs (arm_transfer a b d) b) = 0"
  by (simp_all add: arm_transfer_def initRead_def)

lemma first_span_fields [simp]:
  "NB_SCANLINES (first_span r b' a b d) = NB_SCANLINES d"
  "vsync_spacing (first_span r b' a b d) = vsync_spacing d"
  "pcb (first_span r b' a b d) = pcb d"
  "dma_state (first_span r b' a b d) = dma_state d"
  "mirrorfb (first_span r b' a b d) = mirrorfb d"
  "ongoingDiff (first_span r b' a b d) = ongoingDiff d"
  "fb1 (first_span r b' a b d) = fb1 d"
  "fb2 (first_span r b' a b d) = fb2 d"
  "diff1 (first_span r b' a b d) = diff1 d"
  "diff2 (first_span r b' a b d) = diff2 d"
  "dummydiff1 (first_span r b' a b d) = dummydiff1 d"
  "dummydiff2 (first_span r b' a b d) = dummydiff2 d"
  "fb2full (first_span r b' a b d) = fb2full d"
  "mem (first_span r b' a b d) = mem d"
  "panel (first_span r b' a b d) = panel d"
  "fb (first_span r b' a b d) = fb d"
  "diff (first_span r b' a b d) = diff d"
  "margin (first_span r b' a b d) = margin d"
  "nbteared (first_span r b' a b d) = nbteared d"
  "stats_nb_frame (first_span r b' a b d) = stats_nb_frame d"
  by (simp_all add: first_span_def)

lemma frame_sent_fields [simp]:
  "NB_SCANLINES (frame_sent d) = NB_SCANLINES d"
  "vsync_spacing (frame_sent d) = vsync_spacing d"
  "pcb (frame_sent d) = pcb d"
  "dma_state (frame_sent d) = dma_state d"
  "mirrorfb (frame_sent d) = mirrorfb d"
  "ongoingDiff (frame_sent d) = ongoingDiff d"
  "fb1 (frame_sent d) = fb1 d"
  "fb2 (frame_sent d) = fb2 d"
  "diff1 (frame_sent d) = diff1 d"
  "diff2 (frame_sent d) = diff2 d"
  "dummydiff1 (frame_sent d) = dummydiff1 d"
  "dummydiff2 (frame_sent d) = dummydiff2 d"
  "fb2full (frame_sent d) = fb2full d"
  "mem (frame_sent d) = mem d"
  "diffs (frame_sent d) = diffs d"
  "panel (frame_sent d) = panel d @ inflight d"
  "margin (frame_sent d) = margin d"
  "nbteared (frame_sent d) = nbteared d"
  "stats_nb_frame (frame_sent d) = stats_nb_frame d"
  "statsvar_margin (frame_sent d) = statsvar_margin d"
  "rotation (frame_sent d) = rotation d"
  "fb (frame_sent d) = fb d"
  "diff (frame_sent d) = diff d"
  by (simp_all add: frame_sent_def)


lemma readDiff_spans [simp]: "spans (snd (readDiff m b)) = spans b"
  by (simp add: readDiff_def split: prod.splits)

lemma readDiff_Done_iff: "rpos b = 0 \<Longrightarrow> fst (readDiff m b) = Done \<longleftrightarrow> spans b = []"
  by (simp add: readDiff_def split: prod.splits)

lemma transfer_end_Suc_None:
  "pcb d = None \<Longrightarrow> transfer_end (Suc n) d = Some ((endframe d)\<lparr>dma_state := DMA_IDLE, pcb := None\<rparr>)"
  by simp

lemma transfer_end_Suc_CB:
  "pcb d = Some Buffer2fullCB \<Longrightarrow>
   transfer_end (Suc n) d =
     buffer2fullCB n ((endframe d)\<lparr>dma_state := DMA_IDLE\<rparr>) \<bind> (\<lambda>d2. Some (d2\<lparr>pcb := None\<rparr>))"
  by simp

text \<open>updateAsync, case by case\<close>

lemma updateAsync_null: "f = None \<or> g = None \<Longrightarrow> updateAsync (Suc n) f g d = Some d"
  by (auto split: option.splits)

lemma updateAsync_empty:
  assumes "waitUpdateAsyncComplete n d = Some d1" "spans (diffs d1 b) = []"
  shows "updateAsync (Suc n) (Some a) (Some b) d =
           transfer_end n (if 0 < vsync_spacing d1
                           then (arm_transfer a b d1)\<lparr>late_start_ratio_override := False\<rparr>
                           else arm_transfer a b d1)"
proof -
  have "fst (readDiff 0 (diffs (arm_transfer a b d1) b)) = Done"
    using assms(2) by (simp add: readDiff_Done_iff)
  then obtain b' where "readDiff 0 (diffs (arm_transfer a b d1) b) = (Done, b')"
    by (cases "readDiff 0 (diffs (arm_transfer a b d1) b)") simp
  with assms(1) show ?thesis by (simp add: Let_def)
qed

lemma updateAsync_start:
  assumes "waitUpdateAsyncComplete n d = Some d1" "spans (diffs d1 b) \<noteq> []"
  shows "\<exists>r b'. readDiff 0 (diffs (arm_transfer a b d1) b) = (r, b')
               \<and> updateAsync (Suc n) (Some a) (Some b) d
                  = Some (first_span r b' a b (arm_transfer a b d1))"
proof -
  obtain r b' where rb: "readDiff 0 (diffs (arm_transfer a b d1) b) = (r, b')"
    by (cases "readDiff 0 (diffs (arm_transfer a b d1) b)") simp
  have "fst (readDiff 0 (diffs (arm_transfer a b d1) b)) \<noteq> Done"
    using assms(2) by (simp add: readDiff_Done_iff)
  with rb have "r \<noteq> Done" by simp
  with rb assms(1) have "updateAsync (Suc n) (Some a) (Some b) d
                  = Some (first_span r b' a b (arm_transfer a b d1))"
    by (cases r) (simp_all add: Let_def)
  with rb show ?thesis by blast
qed

lemma updateAsync_SomeD:
  assumes "updateAsync (Suc n) (Some a) (Some b) d = Some d'"
  shows "\<exists>d1. waitUpdateAsyncComplete n d = Some d1"
  using assms by (auto split: bind_splits)

section \<open>What the engine preserves\<close>

lemma engine_rel_refl [simp]: "engine_rel d d"
  by (simp add: engine_rel_def)

lemma engine_rel_trans: "engine_rel a b \<Longrightarrow> engine_rel b c \<Longrightarrow> engine_rel a c"
  by (simp add: engine_rel_def)

lemma engine_rel_endframe: "engine_rel d ((endframe d)\<lparr>dma_state := s\<rparr>)"
  by (simp add: engine_rel_def)

lemma engine_rel_frame_sent: "engine_rel d (frame_sent d)"
  by (simp add: engine_rel_def)

lemma engine_rel_pcb: "engine_rel d d2 \<Longrightarrow> engine_rel d (d2\<lparr>pcb := c\<rparr>)"
  by (simp add: engine_rel_def)

lemma engine_rel_arm: "engine_rel d (arm_transfer a b d)"
  by (simp add: engine_rel_def)

lemma engine_rel_arm_lsro: "engine_rel d ((arm_transfer a b d)\<lparr>late_start_ratio_override := x\<rparr>)"
  by (simp add: engine_rel_def)

lemma engine_rel_first_span:
  "readDiff m (diffs d b) = (r, b') \<Longrightarrow> engine_rel d (first_span r b' a b d)"
  using readDiff_spans [of m "diffs d b"] by (simp add: engine_rel_def first_span_def)

lemma engine_rel_promote:
  "engine_rel d ((swapfb (swapdiff d))\<lparr>mirrorfb := x, fb2full := y\<rparr>)"
  "engine_rel d ((swapfb (swapdummydiff d))\<lparr>mirrorfb := x, fb2full := y\<rparr>)"
  by (auto simp: engine_rel_def swapfb_def swapdiff_def swapdummydiff_def)

lemma engine_rel_cb_exit: "engine_rel d d3 \<Longrightarrow> engine_rel d ((setCB None d3)\<lparr>ongoingDiff := None\<rparr>)"
  by (simp add: engine_rel_def setCB_def)

lemma engine_preserves:
  "(\<forall>d d'. transfer_end n d = Some d' \<longrightarrow> engine_rel d d')
   \<and> (\<forall>d d'. waitUpdateAsyncComplete n d = Some d' \<longrightarrow> engine_rel d d')
   \<and> (\<forall>f g d d'. updateAsync n f g d = Some d' \<longrightarrow> engine_rel d d')
   \<and> (\<forall>d d'. buffer2fullCB n d = Some d' \<longrightarrow> engine_rel d d')"
proof (induction n)
  case 0
  show ?case by simp
next
  case (Suc n)
  then have te: "\<And>d d'. transfer_end n d = Some d' \<Longrightarrow> engine_rel d d'"
    and wt: "\<And>d d'. waitUpdateAsyncComplete n d = Some d' \<Longrightarrow> engine_rel d d'"
    and ua: "\<And>f g d d'. updateAsync n f g d = Some d' \<Longrightarrow> engine_rel d d'"
    and cb: "\<And>d d'. buffer2fullCB n d = Some d' \<Longrightarrow> engine_rel d d'"
    by blast+
  have 1: "engine_rel d d'" if h: "transfer_end (Suc n) d = Some d'" for d d'
  proof (cases "pcb d")
    case None
    with h have "d' = (endframe d)\<lparr>dma_state := DMA_IDLE, pcb := None\<rparr>"
      by (simp only: transfer_end_Suc_None) simp
    then show ?thesis using engine_rel_pcb [OF engine_rel_endframe] by simp
  next
    case (Some c)
    then have p: "pcb d = Some Buffer2fullCB" by (cases c) simp
    from h obtain d2 where c2: "buffer2fullCB n ((endframe d)\<lparr>dma_state := DMA_IDLE\<rparr>) = Some d2"
      and d': "d' = d2\<lparr>pcb := None\<rparr>"
      by (simp only: transfer_end_Suc_CB [OF p]) (auto split: bind_splits)
    have "engine_rel d d2" using engine_rel_trans [OF engine_rel_endframe cb [OF c2]] .
    then show ?thesis unfolding d' by (rule engine_rel_pcb)
  qed
  have 2: "engine_rel d d'" if h: "waitUpdateAsyncComplete (Suc n) d = Some d'" for d d'
  proof (cases "dma_state d = DMA_IDLE")
    case True with h show ?thesis by simp
  next
    case False
    with h obtain d1 where "transfer_end n (frame_sent d) = Some d1"
      "waitUpdateAsyncComplete n d1 = Some d'"
      by (auto split: bind_splits)
    then have "engine_rel (frame_sent d) d1" "engine_rel d1 d'" using te wt by blast+
    then show ?thesis using engine_rel_frame_sent engine_rel_trans by blast
  qed
  have 3: "engine_rel d d'" if h: "updateAsync (Suc n) f g d = Some d'" for f g d d'
  proof (cases "f = None \<or> g = None")
    case True
    with h show ?thesis by (simp only: updateAsync_null [OF True]) simp
  next
    case False
    then obtain a b where ab: "f = Some a" "g = Some b" by auto
    from h obtain d1 where w: "waitUpdateAsyncComplete n d = Some d1"
      unfolding ab using updateAsync_SomeD by blast
    have c1: "engine_rel d d1" using wt [OF w] .
    show ?thesis
    proof (cases "spans (diffs d1 b) = []")
      case True
      let ?d2 = "if 0 < vsync_spacing d1
                 then (arm_transfer a b d1)\<lparr>late_start_ratio_override := False\<rparr>
                 else arm_transfer a b d1"
      from h have "transfer_end n ?d2 = Some d'"
        unfolding ab by (simp only: updateAsync_empty [OF w True])
      then have "engine_rel ?d2 d'" by (rule te)
      moreover have "engine_rel d1 ?d2" by (simp add: engine_rel_arm engine_rel_arm_lsro)
      ultimately show ?thesis using c1 engine_rel_trans by blast
    next
      case False
      obtain r b' where rb: "readDiff 0 (diffs (arm_transfer a b d1) b) = (r, b')"
        by (cases "readDiff 0 (diffs (arm_transfer a b d1) b)") simp
      have "fst (readDiff 0 (diffs (arm_transfer a b d1) b)) \<noteq> Done"
        using False by (simp add: readDiff_Done_iff)
      with rb have "r \<noteq> Done" by simp
      with rb w h have "d' = first_span r b' a b (arm_transfer a b d1)"
        unfolding ab by (cases r) (simp_all add: Let_def)
      then have "engine_rel (arm_transfer a b d1) d'"
        using engine_rel_first_span [OF rb] by simp
      then show ?thesis using c1 engine_rel_arm engine_rel_trans by blast
    qed
  qed
  have 4: "engine_rel d d'" if h: "buffer2fullCB (Suc n) d = Some d'" for d d'
  proof (cases "mirrorfb d \<noteq> None")
    case True
    define d2 where "d2 = (swapfb (swapdiff d))\<lparr>mirrorfb := fb1 (swapfb (swapdiff d)), fb2full := False\<rparr>"
    from h True obtain d3 where u: "updateAsync n (fb1 d2) (diff1 d2) d2 = Some d3"
      and d': "d' = (setCB None d3)\<lparr>ongoingDiff := None\<rparr>"
      by (auto simp: Let_def d2_def split: bind_splits)
    have "engine_rel d d2" unfolding d2_def by (rule engine_rel_promote)
    then have "engine_rel d d3" using ua [OF u] engine_rel_trans by blast
    then show ?thesis unfolding d' by (rule engine_rel_cb_exit)
  next
    case False
    define d2 where "d2 = (swapfb (swapdummydiff d))\<lparr>mirrorfb := fb1 (swapfb (swapdummydiff d)), fb2full := False\<rparr>"
    from h False obtain d3 where u: "updateAsync n (fb1 d2) (Some (dummydiff1 d2)) d2 = Some d3"
      and d': "d' = (setCB None d3)\<lparr>ongoingDiff := None\<rparr>"
      by (auto simp: Let_def d2_def split: bind_splits)
    have "engine_rel d d2" unfolding d2_def by (rule engine_rel_promote)
    then have "engine_rel d d3" using ua [OF u] engine_rel_trans by blast
    then show ?thesis unfolding d' by (rule engine_rel_cb_exit)
  qed
  from 1 2 3 4 show ?case by blast
qed

section \<open>The tear counter\<close>

lemma endframe_nbteared:
  "nbteared (endframe d) = (if 0 < vsync_spacing d \<and> margin d < 0 then nbteared d + 1 else nbteared d)"
  by (simp add: endframe_def Let_def)

lemma wait_idle_SomeD:
  "dma_state d = DMA_IDLE \<Longrightarrow> waitUpdateAsyncComplete n d = Some d1 \<Longrightarrow> d1 = d"
  by (cases n) simp_all

lemma callback_keeps_nbteared:
  "(\<forall>d d'. 0 \<le> NB_SCANLINES d \<and> 0 \<le> margin d \<and> transfer_end n d = Some d'
        \<longrightarrow> nbteared d' = nbteared d)
   \<and> (\<forall>f g d d'. 0 \<le> NB_SCANLINES d \<and> dma_state d = DMA_IDLE \<and> updateAsync n f g d = Some d'
        \<longrightarrow> nbteared d' = nbteared d)
   \<and> (\<forall>d d'. 0 \<le> NB_SCANLINES d \<and> dma_state d = DMA_IDLE \<and> buffer2fullCB n d = Some d'
        \<longrightarrow> nbteared d' = nbteared d)"
proof (induction n)
  case 0
  show ?case by simp
next
  case (Suc n)
  then have te: "\<And>d d'. 0 \<le> NB_SCANLINES d \<Longrightarrow> 0 \<le> margin d \<Longrightarrow> transfer_end n d = Some d'
                   \<Longrightarrow> nbteared d' = nbteared d"
    and ua: "\<And>f g d d'. 0 \<le> NB_SCANLINES d \<Longrightarrow> dma_state d = DMA_IDLE
                   \<Longrightarrow> updateAsync n f g d = Some d' \<Longrightarrow> nbteared d' = nbteared d"
    and cb: "\<And>d d'. 0 \<le> NB_SCANLINES d \<Longrightarrow> dma_state d = DMA_IDLE
                   \<Longrightarrow> buffer2fullCB n d = Some d' \<Longrightarrow> nbteared d' = nbteared d"
    by blast+
  have 1: "nbteared d' = nbteared d"
    if nb: "0 \<le> NB_SCANLINES d" and m: "0 \<le> margin d" and h: "transfer_end (Suc n) d = Some d'"
    for d d'
  proof (cases "pcb d")
    case None
    with h have "d' = (endframe d)\<lparr>dma_state := DMA_IDLE, pcb := None\<rparr>"
      by (simp only: transfer_end_Suc_None) simp
    with m show ?thesis by (simp add: endframe_nbteared)
  next
    case (Some c)
    then have p: "pcb d = Some Buffer2fullCB" by (cases c) simp
    from h obtain d2 where c2: "buffer2fullCB n ((endframe d)\<lparr>dma_state := DMA_IDLE\<rparr>) = Some d2"
      and d': "d' = d2\<lparr>pcb := None\<rparr>"
      by (simp only: transfer_end_Suc_CB [OF p]) (auto split: bind_splits)
    have "nbteared d2 = nbteared ((endframe d)\<lparr>dma_state := DMA_IDLE\<rparr>)"
      using nb by (intro cb [OF _ _ c2]) simp_all
    with m d' show ?thesis by (simp add: endframe_nbteared)
  qed
  have 3: "nbteared d' = nbteared d"
    if nb: "0 \<le> NB_SCANLINES d" and i: "dma_state d = DMA_IDLE"
      and h: "updateAsync (Suc n) f g d = Some d'" for f g d d'
  proof (cases "f = None \<or> g = None")
    case True
    with h show ?thesis by (simp only: updateAsync_null [OF True]) simp
  next
    case False
    then obtain a b where ab: "f = Some a" "g = Some b" by auto
    from h obtain d1 where w0: "waitUpdateAsyncComplete n d = Some d1"
      unfolding ab using updateAsync_SomeD by blast
    with i have "d1 = d" by (rule wait_idle_SomeD)
    with w0 have w: "waitUpdateAsyncComplete n d = Some d" by simp
    show ?thesis
    proof (cases "spans (diffs d b) = []")
      case True
      let ?d2 = "if 0 < vsync_spacing d
                 then (arm_transfer a b d)\<lparr>late_start_ratio_override := False\<rparr>
                 else arm_transfer a b d"
      from h have "transfer_end n ?d2 = Some d'"
        unfolding ab by (simp only: updateAsync_empty [OF w True])
      moreover have "0 \<le> NB_SCANLINES ?d2" "0 \<le> margin ?d2" using nb by simp_all
      ultimately have "nbteared d' = nbteared ?d2" by (rule te [rotated 2])
      then show ?thesis by simp
    next
      case False
      from updateAsync_start [OF w False, of a] h ab show ?thesis by auto
    qed
  qed
  have 4: "nbteared d' = nbteared d"
    if nb: "0 \<le> NB_SCANLINES d" and i: "dma_state d = DMA_IDLE"
      and h: "buffer2fullCB (Suc n) d = Some d'" for d d'
  proof (cases "mirrorfb d \<noteq> None")
    case True
    define d2 where "d2 = (swapfb (swapdiff d))\<lparr>mirrorfb := fb1 (swapfb (swapdiff d)), fb2full := False\<rparr>"
    from h True obtain d3 where u: "updateAsync n (fb1 d2) (diff1 d2) d2 = Some d3"
      and d': "d' = (setCB None d3)\<lparr>ongoingDiff := None\<rparr>"
      by (auto simp: Let_def d2_def split: bind_splits)
    have "nbteared d3 = nbteared d2"
      using nb i by (intro ua [OF _ _ u]) (simp_all add: d2_def swapfb_def swapdiff_def)
    then show ?thesis by (simp add: d' d2_def swapfb_def swapdiff_def setCB_def)
  next
    case False
    define d2 where "d2 = (swapfb (swapdummydiff d))\<lparr>mirrorfb := fb1 (swapfb (swapdummydiff d)), fb2full := False\<rparr>"
    from h False obtain d3 where u: "updateAsync n (fb1 d2) (Some (dummydiff1 d2)) d2 = Some d3"
      and d': "d' = (setCB None d3)\<lparr>ongoingDiff := None\<rparr>"
      by (auto simp: Let_def d2_def split: bind_splits)
    have "nbteared d3 = nbteared d2"
      using nb i by (intro ua [OF _ _ u]) (simp_all add: d2_def swapfb_def swapdummydiff_def)
    then show ?thesis by (simp add: d' d2_def swapfb_def swapdummydiff_def setCB_def)
  qed
  from 1 3 4 show ?case by blast
qed

lemma cb_keeps_nbteared:
  "0 \<le> NB_SCANLINES d \<Longrightarrow> dma_state d = DMA_IDLE \<Longrightarrow> buffer2fullCB n d = Some d'
   \<Longrightarrow> nbteared d' = nbteared d"
  using callback_keeps_nbteared [of n] by blast

lemma transfer_end_nbteared:
  assumes "0 \<le> NB_SCANLINES d" "transfer_end n d = Some d'"
  shows "nbteared d' = (if 0 < vsync_spacing d \<and> margin d < 0 then nbteared d + 1 else nbteared d)"
proof -
  from assms(2) obtain k where n: "n = Suc k" by (cases n) simp_all
  show ?thesis
  proof (cases "pcb d")
    case None
    with assms(2) have "d' = (endframe d)\<lparr>dma_state := DMA_IDLE, pcb := None\<rparr>"
      unfolding n by (simp only: transfer_end_Suc_None) simp
    then show ?thesis by (simp add: endframe_nbteared)
  next
    case (Some c)
    then have p: "pcb d = Some Buffer2fullCB" by (cases c) simp
    from assms(2) obtain d2 where c2: "buffer2fullCB k ((endframe d)\<lparr>dma_state := DMA_IDLE\<rparr>) = Some d2"
      and d': "d' = d2\<lparr>pcb := None\<rparr>"
      unfolding n by (simp only: transfer_end_Suc_CB [OF p]) (auto split: bind_splits)
    have "nbteared d2 = nbteared ((endframe d)\<lparr>dma_state := DMA_IDLE\<rparr>)"
      using assms(1) by (intro cb_keeps_nbteared [OF _ _ c2]) simp_all
    with d' show ?thesis by (simp add: endframe_nbteared)
  qed
qed

text \<open>one interrupt\<close>

lemma check_margin_fields:
  "0 < vsync_spacing d \<Longrightarrow> margin (check_margin s d) = min (margin d) (slack s d)"
  "nbteared (check_margin s d) = nbteared d"
  "vsync_spacing (check_margin s d) = vsync_spacing d"
  "NB_SCANLINES (check_margin s d) = NB_SCANLINES d"
  "diff (check_margin s d) = diff d"
  "diffs (check_margin s d) = diffs d"
  "slinitpos (check_margin s d) = slinitpos d"
  by (auto simp: check_margin_def Let_def)

lemma interrupt_cases:
  assumes "diff d = Some g"
    "readDiff (if 0 < vsync_spacing d then slinitpos d + snd s else 2 * TFTHEIGHT) (diffs d g) = (r, b)"
  shows "subFrameInterruptDiff n s d =
        (case r of Done \<Rightarrow> transfer_end n (frame_sent (check_margin s d))
         | MustWait _ \<Rightarrow> Some (check_margin s d)
         | Span x y len \<Rightarrow> Some ((check_margin s d)\<lparr>diffs := (diffs d)(g := b), prev_caset_x := x,
                          prev_paset_y := y, last_y := (TFTWIDTH * y + x + len) sdiv TFTWIDTH\<rparr>))"
proof (cases "0 < vsync_spacing d")
  case True
  with assms show ?thesis
    by (cases r) (simp_all add: subFrameInterruptDiff_def Let_def check_margin_fields)
next
  case False
  with assms show ?thesis
    by (cases r) (simp_all add: subFrameInterruptDiff_def Let_def check_margin_fields)
qed

lemma interrupt_diff: "subFrameInterruptDiff n s d = Some d1 \<Longrightarrow> \<exists>g. diff d = Some g"
  by (cases "diff d") (simp_all add: subFrameInterruptDiff_def Let_def check_margin_fields)

lemma interrupt_not_done:
  assumes v: "0 < vsync_spacing d" and nd: "\<not> finds_done s d"
    and h: "subFrameInterruptDiff n s d = Some d1"
  shows "margin d1 = min (margin d) (slack s d) \<and> nbteared d1 = nbteared d
         \<and> vsync_spacing d1 = vsync_spacing d \<and> NB_SCANLINES d1 = NB_SCANLINES d"
proof -
  from interrupt_diff [OF h] obtain g where g: "diff d = Some g" by blast
  obtain r b where rb: "readDiff (if 0 < vsync_spacing d then slinitpos d + snd s else 2 * TFTHEIGHT)
                          (diffs d g) = (r, b)"
    by (cases "readDiff (if 0 < vsync_spacing d then slinitpos d + snd s else 2 * TFTHEIGHT) (diffs d g)") simp
  from nd g rb have r: "r \<noteq> Done" by (simp add: finds_done_def)
  from h r v show ?thesis
    unfolding interrupt_cases [OF g rb] by (cases r) (auto simp: check_margin_fields)
qed

lemma interrupt_done:
  assumes v: "0 < vsync_spacing d" and nb: "0 \<le> NB_SCANLINES d" and dn: "finds_done s d"
    and h: "subFrameInterruptDiff n s d = Some d1"
  shows "nbteared d1 = (if min (margin d) (slack s d) < 0 then nbteared d + 1 else nbteared d)"
proof -
  from interrupt_diff [OF h] obtain g where g: "diff d = Some g" by blast
  obtain r b where rb: "readDiff (if 0 < vsync_spacing d then slinitpos d + snd s else 2 * TFTHEIGHT)
                          (diffs d g) = (r, b)"
    by (cases "readDiff (if 0 < vsync_spacing d then slinitpos d + snd s else 2 * TFTHEIGHT) (diffs d g)") simp
  from dn g rb have r: "r = Done" by (simp add: finds_done_def)
  from h have "transfer_end n (frame_sent (check_margin s d)) = Some d1"
    unfolding interrupt_cases [OF g rb] r by simp
  from transfer_end_nbteared [OF _ this] nb v show ?thesis by (simp add: check_margin_fields)
qed

lemma Min_insert_insert:
  "finite S \<Longrightarrow> Min (insert a (insert b S)) = Min (insert (min a b) S)"
  by (cases "S = {}") (simp_all add: min.assoc)

lemma frame_margin:
  "0 < vsync_spacing d \<Longrightarrow> 0 \<le> NB_SCANLINES d \<Longrightarrow> frame_of n ss d \<Longrightarrow> interrupts n ss d = Some d'
   \<Longrightarrow> nbteared d' = (if Min (set (margin d # slacks n ss d)) < 0 then nbteared d + 1 else nbteared d)"
proof (induction n ss d rule: frame_of.induct)
  case (1 n d)
  then show ?case by simp
next
  case (2 n s d)
  from 2(4) have h: "subFrameInterruptDiff n s d = Some d'"
    by (auto split: bind_splits)
  from interrupt_done [OF 2(1) 2(2) _ h] 2(3) h show ?case
    by (simp add: min_def)
next
  case (3 n s t ss d)
  from 3(5) obtain d1 where h: "subFrameInterruptDiff n s d = Some d1"
    and r: "interrupts n (t # ss) d1 = Some d'"
    by (auto split: bind_splits)
  from 3(4) h have nd: "\<not> finds_done s d" and fr: "frame_of n (t # ss) d1" by simp_all
  note st = interrupt_not_done [OF 3(2) nd h]
  have "nbteared d' = (if Min (set (margin d1 # slacks n (t # ss) d1)) < 0 then nbteared d1 + 1 else nbteared d1)"
    using 3(1) [OF h _ _ fr r] 3(2) 3(3) st by simp
  moreover have "Min (set (margin d1 # slacks n (t # ss) d1)) = Min (set (margin d # slacks n (s # t # ss) d))"
  proof -
    have e: "slacks n (s # t # ss) d = slack s d # slacks n (t # ss) d1" using h by simp
    have m: "margin d1 = min (margin d) (slack s d)" using st by simp
    show ?thesis unfolding e m by (simp only: list.set Min_insert_insert [OF finite_set])
  qed
  ultimately show ?case using st by simp
qed


lemma slacks_nonempty: "frame_of n ss d \<Longrightarrow> slacks n ss d \<noteq> []"
  by (cases ss) simp_all

section \<open>More fuel, same result\<close>

lemma bind_mono_step:
  assumes "m = Some x" "f x = Some y"
  shows "m \<bind> f = Some y"
  using assms by simp

lemma engine_mono:
  "(\<forall>d d'. transfer_end n d = Some d' \<longrightarrow> transfer_end (Suc n) d = Some d')
   \<and> (\<forall>d d'. waitUpdateAsyncComplete n d = Some d' \<longrightarrow> waitUpdateAsyncComplete (Suc n) d = Some d')
   \<and> (\<forall>f g d d'. updateAsync n f g d = Some d' \<longrightarrow> updateAsync (Suc n) f g d = Some d')
   \<and> (\<forall>d d'. buffer2fullCB n d = Some d' \<longrightarrow> buffer2fullCB (Suc n) d = Some d')"
proof (induction n)
  case 0
  show ?case by simp
next
  case (Suc n)
  then have te: "\<And>d d'. transfer_end n d = Some d' \<Longrightarrow> transfer_end (Suc n) d = Some d'"
    and wt: "\<And>d d'. waitUpdateAsyncComplete n d = Some d' \<Longrightarrow> waitUpdateAsyncComplete (Suc n) d = Some d'"
    and ua: "\<And>f g d d'. updateAsync n f g d = Some d' \<Longrightarrow> updateAsync (Suc n) f g d = Some d'"
    and cb: "\<And>d d'. buffer2fullCB n d = Some d' \<Longrightarrow> buffer2fullCB (Suc n) d = Some d'"
    by blast+
  have 1: "transfer_end (Suc (Suc n)) d = Some d'" if h: "transfer_end (Suc n) d = Some d'" for d d'
  proof (cases "pcb d")
    case None
    with h show ?thesis by (simp only: transfer_end_Suc_None)
  next
    case (Some c)
    then have p: "pcb d = Some Buffer2fullCB" by (cases c) simp
    from h obtain d2 where c2: "buffer2fullCB n ((endframe d)\<lparr>dma_state := DMA_IDLE\<rparr>) = Some d2"
      and d': "d' = d2\<lparr>pcb := None\<rparr>"
      by (simp only: transfer_end_Suc_CB [OF p]) (auto split: bind_splits)
    from cb [OF c2] d' show ?thesis by (simp only: transfer_end_Suc_CB [OF p]) simp
  qed
  have 2: "waitUpdateAsyncComplete (Suc (Suc n)) d = Some d'"
    if h: "waitUpdateAsyncComplete (Suc n) d = Some d'" for d d'
  proof (cases "dma_state d = DMA_IDLE")
    case True with h show ?thesis by simp
  next
    case False
    with h obtain d1 where "transfer_end n (frame_sent d) = Some d1"
      "waitUpdateAsyncComplete n d1 = Some d'"
      by (auto split: bind_splits)
    then have "transfer_end (Suc n) (frame_sent d) = Some d1"
      "waitUpdateAsyncComplete (Suc n) d1 = Some d'"
      using te wt by blast+
    with False show ?thesis by (subst waitUpdateAsyncComplete.simps) simp
  qed
  have 3: "updateAsync (Suc (Suc n)) f g d = Some d'"
    if h: "updateAsync (Suc n) f g d = Some d'" for f g d d'
  proof (cases "f = None \<or> g = None")
    case True
    with h show ?thesis by (simp only: updateAsync_null [OF True])
  next
    case False
    then obtain a b where ab: "f = Some a" "g = Some b" by auto
    from h obtain d1 where w: "waitUpdateAsyncComplete n d = Some d1"
      unfolding ab using updateAsync_SomeD by blast
    have w': "waitUpdateAsyncComplete (Suc n) d = Some d1" using wt [OF w] .
    show ?thesis
    proof (cases "spans (diffs d1 b) = []")
      case True
      from h show ?thesis unfolding ab updateAsync_empty [OF w True] updateAsync_empty [OF w' True]
        by (rule te)
    next
      case False
      obtain r b' where rb: "readDiff 0 (diffs (arm_transfer a b d1) b) = (r, b')"
        by (cases "readDiff 0 (diffs (arm_transfer a b d1) b)") simp
      have "fst (readDiff 0 (diffs (arm_transfer a b d1) b)) \<noteq> Done"
        using False by (simp add: readDiff_Done_iff)
      with rb have r: "r \<noteq> Done" by simp
      have e: "updateAsync (Suc k) (Some a) (Some b) d = Some (first_span r b' a b (arm_transfer a b d1))"
        if "waitUpdateAsyncComplete k d = Some d1" for k
        using that rb r by (cases r) (simp_all add: Let_def)
      from h show ?thesis unfolding ab e [OF w] e [OF w'] .
    qed
  qed
  have 4: "buffer2fullCB (Suc (Suc n)) d = Some d'" if h: "buffer2fullCB (Suc n) d = Some d'" for d d'
  proof (cases "mirrorfb d \<noteq> None")
    case True
    define d2 where "d2 = (swapfb (swapdiff d))\<lparr>mirrorfb := fb1 (swapfb (swapdiff d)), fb2full := False\<rparr>"
    from h True obtain d3 where u: "updateAsync n (fb1 d2) (diff1 d2) d2 = Some d3"
      and d': "d' = (setCB None d3)\<lparr>ongoingDiff := None\<rparr>"
      by (auto simp: Let_def d2_def split: bind_splits)
    from ua [OF u] d' True show ?thesis
      by (subst buffer2fullCB.simps) (simp add: Let_def d2_def del: updateAsync.simps)
  next
    case False
    define d2 where "d2 = (swapfb (swapdummydiff d))\<lparr>mirrorfb := fb1 (swapfb (swapdummydiff d)), fb2full := False\<rparr>"
    from h False obtain d3 where u: "updateAsync n (fb1 d2) (Some (dummydiff1 d2)) d2 = Some d3"
      and d': "d' = (setCB None d3)\<lparr>ongoingDiff := None\<rparr>"
      by (auto simp: Let_def d2_def split: bind_splits)
    from ua [OF u] d' False show ?thesis
      by (subst buffer2fullCB.simps) (simp add: Let_def d2_def del: updateAsync.simps)
  qed
  from 1 2 3 4 show ?case by blast
qed

lemma transfer_end_mono: "transfer_end n d = Some d' \<Longrightarrow> transfer_end (n + k) d = Some d'"
  using engine_mono by (induction k) auto

lemma wait_mono: "waitUpdateAsyncComplete n d = Some d' \<Longrightarrow> waitUpdateAsyncComplete (n + k) d = Some d'"
  using engine_mono by (induction k) auto

lemma updateAsync_mono: "updateAsync n f g d = Some d' \<Longrightarrow> updateAsync (n + k) f g d = Some d'"
  using engine_mono by (induction k) auto

lemma transfer_end_det:
  assumes "transfer_end n d = Some a" "transfer_end m d = Some b"
  shows "a = b"
proof -
  have "transfer_end (n + m) d = Some a" using assms(1) by (rule transfer_end_mono)
  moreover have "transfer_end (m + n) d = Some b" using assms(2) by (rule transfer_end_mono)
  ultimately show ?thesis by (simp add: add.commute)
qed

lemma wait_det:
  assumes "waitUpdateAsyncComplete n d = Some a" "waitUpdateAsyncComplete m d = Some b"
  shows "a = b"
proof -
  have "waitUpdateAsyncComplete (n + m) d = Some a" using assms(1) by (rule wait_mono)
  moreover have "waitUpdateAsyncComplete (m + n) d = Some b" using assms(2) by (rule wait_mono)
  ultimately show ?thesis by (simp add: add.commute)
qed

lemma wait_result_idle: "waitUpdateAsyncComplete n d = Some d' \<Longrightarrow> dma_state d' = DMA_IDLE"
proof (induction n arbitrary: d)
  case 0
  then show ?case by simp
next
  case (Suc n)
  show ?case
  proof (cases "dma_state d = DMA_IDLE")
    case True with Suc.prems show ?thesis by simp
  next
    case False
    with Suc.prems obtain d1 where "waitUpdateAsyncComplete n d1 = Some d'"
      by (auto split: bind_splits)
    then show ?thesis by (rule Suc.IH)
  qed
qed

section \<open>Promotion of the queued frame\<close>

lemma promote_fields [simp]:
  "NB_SCANLINES (promote d) = NB_SCANLINES d"
  "vsync_spacing (promote d) = vsync_spacing d"
  "pcb (promote d) = pcb d"
  "dma_state (promote d) = dma_state d"
  "mirrorfb (promote d) = fb2 d"
  "ongoingDiff (promote d) = ongoingDiff d"
  "fb1 (promote d) = fb2 d"
  "fb2 (promote d) = fb1 d"
  "diff1 (promote d) = (if mirrorfb d \<noteq> None then diff2 d else diff1 d)"
  "diff2 (promote d) = (if mirrorfb d \<noteq> None then diff1 d else diff2 d)"
  "dummydiff1 (promote d) = (if mirrorfb d \<noteq> None then dummydiff1 d else dummydiff2 d)"
  "dummydiff2 (promote d) = (if mirrorfb d \<noteq> None then dummydiff2 d else dummydiff1 d)"
  "fb2full (promote d) = False"
  "mem (promote d) = mem d"
  "diffs (promote d) = diffs d"
  "panel (promote d) = panel d"
  "nbteared (promote d) = nbteared d"
  "stats_nb_frame (promote d) = stats_nb_frame d"
  "rotation (promote d) = rotation d"
  by (simp_all add: promote_def swapfb_def swapdiff_def swapdummydiff_def)

lemma buffer2fullCB_Suc:
  "buffer2fullCB (Suc n) d =
     updateAsync n (fb1 (promote d))
       (if mirrorfb d \<noteq> None then diff1 (promote d) else Some (dummydiff1 (promote d))) (promote d)
     \<bind> (\<lambda>d3. Some ((setCB None d3)\<lparr>ongoingDiff := None\<rparr>))"
  by (simp add: promote_def Let_def swapfb_def swapdiff_def swapdummydiff_def del: updateAsync.simps)

lemma first_span_spans:
  "spans b' = spans (diffs d b) \<Longrightarrow> spans (diffs (first_span r b' a b d) x) = spans (diffs d x)"
  by (simp add: first_span_def)

lemma first_span_rotation [simp]: "rotation (first_span r b' a b d) = rotation d"
  by (simp add: first_span_def)

lemma arm_transfer_rotation [simp]: "rotation (arm_transfer a b d) = rotation d"
  by (simp add: arm_transfer_def)

text \<open>The state after the promotion of the queued frame and the start of its transfer.\<close>

lemma transfer_end_promotes:
  assumes p: "pcb d = Some Buffer2fullCB" and q: "fb2 d = Some q"
    and g: "queued_diff d = Some g" and ne: "spans (diffs d g) \<noteq> []"
  shows "\<exists>r b'. spans b' = spans (diffs d g) \<and>
         transfer_end (Suc (Suc (Suc (Suc n)))) d =
           Some ((setCB None (first_span r b' q g
                   (arm_transfer q g (promote ((endframe d)\<lparr>dma_state := DMA_IDLE\<rparr>)))))
                 \<lparr>ongoingDiff := None, pcb := None\<rparr>)"
proof -
  let ?d1 = "(endframe d)\<lparr>dma_state := DMA_IDLE\<rparr>"
  let ?d2 = "promote ?d1"
  have w: "waitUpdateAsyncComplete (Suc n) ?d2 = Some ?d2" by simp
  have ne': "spans (diffs ?d2 g) \<noteq> []" using ne by simp
  from updateAsync_start [OF w ne', of q] obtain r b'
    where rb: "readDiff 0 (diffs (arm_transfer q g ?d2) g) = (r, b')"
      and u: "updateAsync (Suc (Suc n)) (Some q) (Some g) ?d2
                = Some (first_span r b' q g (arm_transfer q g ?d2))"
    by blast
  have "spans (snd (readDiff 0 (diffs (arm_transfer q g ?d2) g))) = spans (diffs (arm_transfer q g ?d2) g)"
    by (rule readDiff_spans)
  then have sb: "spans b' = spans (diffs d g)" unfolding rb by simp
  have f: "fb1 ?d2 = Some q" using q by simp
  have gg: "(if mirrorfb ?d1 \<noteq> None then diff1 ?d2 else Some (dummydiff1 ?d2)) = Some g"
    using g by (auto simp: queued_diff_def split: if_splits)
  have "buffer2fullCB (Suc (Suc (Suc n))) ?d1
          = Some ((setCB None (first_span r b' q g (arm_transfer q g ?d2)))\<lparr>ongoingDiff := None\<rparr>)"
    by (simp only: buffer2fullCB_Suc f gg u) simp
  then have "transfer_end (Suc (Suc (Suc (Suc n)))) d =
           Some ((setCB None (first_span r b' q g (arm_transfer q g ?d2)))
                   \<lparr>ongoingDiff := None, pcb := None\<rparr>)"
    by (simp only: transfer_end_Suc_CB [OF p]) simp
  with sb show ?thesis by blast
qed

lemma transfer_end_promotes_fields:
  assumes p: "pcb d = Some Buffer2fullCB" and q: "fb2 d = Some q"
    and g: "queued_diff d = Some g" and ne: "spans (diffs d g) \<noteq> []"
  shows "\<exists>d'. transfer_end (Suc (Suc (Suc (Suc n)))) d = Some d'
          \<and> dma_state d' = DMA_ON \<and> pcb d' = None \<and> \<not> fb2full d'
          \<and> fb1 d' = Some q \<and> fb2 d' = fb1 d \<and> mirrorfb d' = Some q \<and> ongoingDiff d' = None
          \<and> fb d' = Some q \<and> diff d' = Some g
          \<and> panel d' = panel d
          \<and> mem d' = mem d \<and> (\<forall>x. spans (diffs d' x) = spans (diffs d x))
          \<and> vsync_spacing d' = vsync_spacing d
          \<and> NB_SCANLINES d' = NB_SCANLINES d \<and> rotation d' = rotation d
          \<and> stats_nb_frame d' = stats_nb_frame d + 1
          \<and> diff1 d' = (if mirrorfb d \<noteq> None then diff2 d else diff1 d)
          \<and> diff2 d' = (if mirrorfb d \<noteq> None then diff1 d else diff2 d)
          \<and> dummydiff1 d' = (if mirrorfb d \<noteq> None then dummydiff1 d else dummydiff2 d)
          \<and> dummydiff2 d' = (if mirrorfb d \<noteq> None then dummydiff2 d else dummydiff1 d)"
proof -
  let ?d2 = "arm_transfer q g (promote ((endframe d)\<lparr>dma_state := DMA_IDLE\<rparr>))"
  from transfer_end_promotes [OF assms, of n] obtain r b' where
    sb: "spans b' = spans (diffs d g)" and
    e: "transfer_end (Suc (Suc (Suc (Suc n)))) d =
           Some ((setCB None (first_span r b' q g ?d2))\<lparr>ongoingDiff := None, pcb := None\<rparr>)"
    by blast
  have s: "stats_nb_frame (endframe d) = stats_nb_frame d + 1"
    by (simp add: endframe_def Let_def)
  have sp: "spans (diffs (first_span r b' q g ?d2) x) = spans (diffs d x)" for x
  proof -
    have "spans b' = spans (diffs ?d2 g)" using sb by simp
    then have "spans (diffs (first_span r b' q g ?d2) x) = spans (diffs ?d2 x)"
      by (rule first_span_spans)
    then show ?thesis by simp
  qed
  show ?thesis unfolding e using q s sp by (simp add: setCB_def)
qed

text \<open>The last interrupt of the transfer in flight.\<close>

lemma completion_no_callback:
  assumes "pcb d = None"
  shows "transfer_end (Suc n) (frame_sent d)
         = Some ((endframe (frame_sent d))\<lparr>dma_state := DMA_IDLE, pcb := None\<rparr>)"
  using assms by (intro transfer_end_Suc_None) simp

lemma queued_diff_frame_sent [simp]: "queued_diff (frame_sent d) = queued_diff d"
  by (simp add: queued_diff_def)

lemma completion_promotes:
  assumes p: "pcb d = Some Buffer2fullCB" and q: "fb2 d = Some q"
    and g: "queued_diff d = Some g" and ne: "spans (diffs d g) \<noteq> []"
  shows "\<exists>d'. transfer_end (Suc (Suc (Suc (Suc n)))) (frame_sent d) = Some d'
          \<and> dma_state d' = DMA_ON \<and> pcb d' = None \<and> \<not> fb2full d'
          \<and> fb1 d' = Some q \<and> fb2 d' = fb1 d \<and> mirrorfb d' = Some q \<and> ongoingDiff d' = None
          \<and> fb d' = Some q \<and> diff d' = Some g
          \<and> panel d' = panel d @ inflight d
          \<and> mem d' = mem d \<and> (\<forall>x. spans (diffs d' x) = spans (diffs d x))
          \<and> vsync_spacing d' = vsync_spacing d
          \<and> NB_SCANLINES d' = NB_SCANLINES d \<and> rotation d' = rotation d
          \<and> stats_nb_frame d' = stats_nb_frame d + 1
          \<and> diff1 d' = (if mirrorfb d \<noteq> None then diff2 d else diff1 d)
          \<and> diff2 d' = (if mirrorfb d \<noteq> None then diff1 d else diff2 d)
          \<and> dummydiff1 d' = (if mirrorfb d \<noteq> None then dummydiff1 d else dummydiff2 d)
          \<and> dummydiff2 d' = (if mirrorfb d \<noteq> None then dummydiff2 d else dummydiff1 d)"
proof -
  have h: "pcb (frame_sent d) = Some Buffer2fullCB" "fb2 (frame_sent d) = Some q"
    "queued_diff (frame_sent d) = Some g" "spans (diffs (frame_sent d) g) \<noteq> []"
    using assms by simp_all
  from transfer_end_promotes_fields [OF h, of n] show ?thesis
    by (simp only: frame_sent_fields)
qed





section \<open>Starting a transfer\<close>

lemma dummy_spans_nonempty [simp]: "dummy_spans \<noteq> []"
  by (simp add: dummy_spans_def)

lemma computeDiff_copy:
  "computeDiff (Some g) sp (Some p) new True d
     = Some (d\<lparr>diffs := (diffs d)(g := \<lparr>spans = sp, rpos = 0\<rparr>), mem := (mem d)(p := new)\<rparr>)"
  by (simp add: computeDiff_def copyfb_def Let_def)

lemma computeDiff_nocopy:
  "computeDiff (Some g) sp (Some p) new False d
     = Some (d\<lparr>diffs := (diffs d)(g := \<lparr>spans = sp, rpos = 0\<rparr>)\<rparr>)"
  by (simp add: computeDiff_def Let_def)

text \<open>Starting a transfer at once from an idle engine.\<close>

lemma updateAsync_idle_start:
  assumes "dma_state d = DMA_IDLE" "spans (diffs d g) \<noteq> []"
  shows "\<exists>d'. updateAsync (Suc (Suc n)) (Some p) (Some g) d = Some d'
          \<and> dma_state d' = DMA_ON \<and> pcb d' = pcb d \<and> fb2full d' = fb2full d
          \<and> fb1 d' = fb1 d \<and> fb2 d' = fb2 d \<and> mirrorfb d' = mirrorfb d
          \<and> ongoingDiff d' = ongoingDiff d
          \<and> diff1 d' = diff1 d \<and> diff2 d' = diff2 d
          \<and> dummydiff1 d' = dummydiff1 d \<and> dummydiff2 d' = dummydiff2 d
          \<and> fb d' = Some p \<and> diff d' = Some g
          \<and> panel d' = panel d
          \<and> mem d' = mem d \<and> vsync_spacing d' = vsync_spacing d
          \<and> NB_SCANLINES d' = NB_SCANLINES d
          \<and> stats_nb_frame d' = stats_nb_frame d
          \<and> (\<forall>x. spans (diffs d' x) = spans (diffs d x))"
proof -
  have w: "waitUpdateAsyncComplete (Suc n) d = Some d" using assms(1) by simp
  from updateAsync_start [OF w assms(2), of p] obtain r b' where
    u: "updateAsync (Suc (Suc n)) (Some p) (Some g) d = Some (first_span r b' p g (arm_transfer p g d))"
    and rb: "readDiff 0 (diffs (arm_transfer p g d) g) = (r, b')"
    by blast
  have "spans b' = spans (diffs d g)"
    using readDiff_spans [of 0 "diffs (arm_transfer p g d) g"] rb by simp
  then have "\<forall>x. spans (diffs (first_span r b' p g (arm_transfer p g d)) x) = spans (diffs d x)"
    by (simp add: first_span_def)
  then show ?thesis unfolding u by simp
qed

section \<open>Submissions in triple buffering\<close>

lemma launch_now_idle:
  assumes i: "dma_state d = DMA_IDLE" and p: "fb1 d = Some p"
    and g: "diff2 d \<noteq> None \<longrightarrow> diff1 d \<noteq> None" and ne: "e_spans e \<noteq> []"
  shows "\<exists>d' gA. launch_now (Suc (Suc n)) e new force d = Some d'
          \<and> dma_state d' = DMA_ON \<and> pcb d' = pcb d \<and> fb2full d' = fb2full d
          \<and> fb1 d' = fb1 d \<and> fb2 d' = fb2 d \<and> mirrorfb d' = Some p
          \<and> ongoingDiff d' = ongoingDiff d
          \<and> diff1 d' = diff1 d \<and> diff2 d' = diff2 d
          \<and> dummydiff1 d' = dummydiff1 d \<and> dummydiff2 d' = dummydiff2 d
          \<and> fb d' = Some p \<and> diff d' = Some gA
          \<and> (gA = dummydiff1 d \<or> diff1 d = Some gA)
          \<and> spans (diffs d' gA) = first_diff e force d
          \<and> panel d' = panel d
          \<and> mem d' = (mem d)(p := new) \<and> vsync_spacing d' = vsync_spacing d
          \<and> stats_nb_frame d' = stats_nb_frame d"
proof (cases "diff2 d = None \<or> mirrorfb d = None \<or> force")
  case True
  define dA where "dA = d\<lparr>diffs := (diffs d)(dummydiff1 d := \<lparr>spans = dummy_spans, rpos = 0\<rparr>),
                          mem := (mem d)(p := new)\<rparr>"
  have c: "computeDiff (Some (dummydiff1 d)) dummy_spans (fb1 d) new True d = Some dA"
    by (simp add: p computeDiff_copy dA_def)
  have "dma_state dA = DMA_IDLE" "spans (diffs dA (dummydiff1 d)) \<noteq> []"
    using i by (simp_all add: dA_def)
  from updateAsync_idle_start [OF this, of n p] obtain d1 where
    u: "updateAsync (Suc (Suc n)) (Some p) (Some (dummydiff1 d)) dA = Some d1"
    and f: "dma_state d1 = DMA_ON" "pcb d1 = pcb dA" "fb2full d1 = fb2full dA"
      "fb1 d1 = fb1 dA" "fb2 d1 = fb2 dA" "ongoingDiff d1 = ongoingDiff dA"
      "diff1 d1 = diff1 dA" "diff2 d1 = diff2 dA"
      "dummydiff1 d1 = dummydiff1 dA" "dummydiff2 d1 = dummydiff2 dA"
      "panel d1 = panel dA" "fb d1 = Some p" "diff d1 = Some (dummydiff1 d)"
      "spans (diffs d1 (dummydiff1 d)) = spans (diffs dA (dummydiff1 d))"
      "mem d1 = mem dA" "vsync_spacing d1 = vsync_spacing dA" "stats_nb_frame d1 = stats_nb_frame dA"
    by blast
  have fA: "fb1 dA = Some p" "dummydiff1 dA = dummydiff1 d" by (simp_all add: dA_def p)
  have "launch_now (Suc (Suc n)) e new force d = Some (d1\<lparr>mirrorfb := fb1 d1\<rparr>)"
    using True by (simp add: launch_now_def c fA u del: updateAsync.simps)
  moreover have "first_diff e force d = dummy_spans" using True by (simp add: first_diff_def)
  ultimately have "launch_now (Suc (Suc n)) e new force d = Some (d1\<lparr>mirrorfb := fb1 d1\<rparr>)
          \<and> dma_state (d1\<lparr>mirrorfb := fb1 d1\<rparr>) = DMA_ON \<and> pcb (d1\<lparr>mirrorfb := fb1 d1\<rparr>) = pcb d
          \<and> fb2full (d1\<lparr>mirrorfb := fb1 d1\<rparr>) = fb2full d
          \<and> fb1 (d1\<lparr>mirrorfb := fb1 d1\<rparr>) = fb1 d \<and> fb2 (d1\<lparr>mirrorfb := fb1 d1\<rparr>) = fb2 d
          \<and> mirrorfb (d1\<lparr>mirrorfb := fb1 d1\<rparr>) = Some p
          \<and> ongoingDiff (d1\<lparr>mirrorfb := fb1 d1\<rparr>) = ongoingDiff d
          \<and> diff1 (d1\<lparr>mirrorfb := fb1 d1\<rparr>) = diff1 d \<and> diff2 (d1\<lparr>mirrorfb := fb1 d1\<rparr>) = diff2 d
          \<and> dummydiff1 (d1\<lparr>mirrorfb := fb1 d1\<rparr>) = dummydiff1 d
          \<and> dummydiff2 (d1\<lparr>mirrorfb := fb1 d1\<rparr>) = dummydiff2 d
          \<and> fb (d1\<lparr>mirrorfb := fb1 d1\<rparr>) = Some p
          \<and> diff (d1\<lparr>mirrorfb := fb1 d1\<rparr>) = Some (dummydiff1 d)
          \<and> (dummydiff1 d = dummydiff1 d \<or> diff1 d = Some (dummydiff1 d))
          \<and> spans (diffs (d1\<lparr>mirrorfb := fb1 d1\<rparr>) (dummydiff1 d)) = first_diff e force d
          \<and> panel (d1\<lparr>mirrorfb := fb1 d1\<rparr>) = panel d
          \<and> mem (d1\<lparr>mirrorfb := fb1 d1\<rparr>) = (mem d)(p := new)
          \<and> vsync_spacing (d1\<lparr>mirrorfb := fb1 d1\<rparr>) = vsync_spacing d
          \<and> stats_nb_frame (d1\<lparr>mirrorfb := fb1 d1\<rparr>) = stats_nb_frame d"
    using f by (simp add: dA_def p)
  then show ?thesis by blast
next
  case False
  with g obtain g1 where g1: "diff1 d = Some g1" by auto
  from False obtain g2 mm where c1: "diff2 d = Some g2" "mirrorfb d = Some mm" "\<not> force" by auto
  define dA where "dA = d\<lparr>diffs := (diffs d)(g1 := \<lparr>spans = e_spans e, rpos = 0\<rparr>),
                          mem := (mem d)(p := new)\<rparr>"
  have c: "computeDiff (diff1 d) (e_spans e) (fb1 d) new True d = Some dA"
    by (simp add: p g1 computeDiff_copy dA_def)
  have "dma_state dA = DMA_IDLE" "spans (diffs dA g1) \<noteq> []"
    using i ne by (simp_all add: dA_def)
  from updateAsync_idle_start [OF this, of n p] obtain d1 where
    u: "updateAsync (Suc (Suc n)) (Some p) (Some g1) dA = Some d1"
    and f: "dma_state d1 = DMA_ON" "pcb d1 = pcb dA" "fb2full d1 = fb2full dA"
      "fb1 d1 = fb1 dA" "fb2 d1 = fb2 dA" "ongoingDiff d1 = ongoingDiff dA"
      "diff1 d1 = diff1 dA" "diff2 d1 = diff2 dA"
      "dummydiff1 d1 = dummydiff1 dA" "dummydiff2 d1 = dummydiff2 dA"
      "panel d1 = panel dA" "fb d1 = Some p" "diff d1 = Some g1"
      "spans (diffs d1 g1) = spans (diffs dA g1)"
      "mem d1 = mem dA" "vsync_spacing d1 = vsync_spacing dA" "stats_nb_frame d1 = stats_nb_frame dA"
    by blast
  have fA: "fb1 dA = Some p" "diff1 dA = Some g1" by (simp_all add: dA_def p g1)
  have "launch_now (Suc (Suc n)) e new force d = Some (d1\<lparr>mirrorfb := fb1 d1\<rparr>)"
    using c1 by (simp add: launch_now_def c fA u del: updateAsync.simps)
  moreover have "first_diff e force d = e_spans e" using c1 by (simp add: first_diff_def)
  ultimately have "launch_now (Suc (Suc n)) e new force d = Some (d1\<lparr>mirrorfb := fb1 d1\<rparr>)
          \<and> dma_state (d1\<lparr>mirrorfb := fb1 d1\<rparr>) = DMA_ON \<and> pcb (d1\<lparr>mirrorfb := fb1 d1\<rparr>) = pcb d
          \<and> fb2full (d1\<lparr>mirrorfb := fb1 d1\<rparr>) = fb2full d
          \<and> fb1 (d1\<lparr>mirrorfb := fb1 d1\<rparr>) = fb1 d \<and> fb2 (d1\<lparr>mirrorfb := fb1 d1\<rparr>) = fb2 d
          \<and> mirrorfb (d1\<lparr>mirrorfb := fb1 d1\<rparr>) = Some p
          \<and> ongoingDiff (d1\<lparr>mirrorfb := fb1 d1\<rparr>) = ongoingDiff d
          \<and> diff1 (d1\<lparr>mirrorfb := fb1 d1\<rparr>) = diff1 d \<and> diff2 (d1\<lparr>mirrorfb := fb1 d1\<rparr>) = diff2 d
          \<and> dummydiff1 (d1\<lparr>mirrorfb := fb1 d1\<rparr>) = dummydiff1 d
          \<and> dummydiff2 (d1\<lparr>mirrorfb := fb1 d1\<rparr>) = dummydiff2 d
          \<and> fb (d1\<lparr>mirrorfb := fb1 d1\<rparr>) = Some p
          \<and> diff (d1\<lparr>mirrorfb := fb1 d1\<rparr>) = Some g1
          \<and> (g1 = dummydiff1 d \<or> diff1 d = Some g1)
          \<and> spans (diffs (d1\<lparr>mirrorfb := fb1 d1\<rparr>) g1) = first_diff e force d
          \<and> panel (d1\<lparr>mirrorfb := fb1 d1\<rparr>) = panel d
          \<and> mem (d1\<lparr>mirrorfb := fb1 d1\<rparr>) = (mem d)(p := new)
          \<and> vsync_spacing (d1\<lparr>mirrorfb := fb1 d1\<rparr>) = vsync_spacing d
          \<and> stats_nb_frame (d1\<lparr>mirrorfb := fb1 d1\<rparr>) = stats_nb_frame d"
    using f g1 by (simp add: dA_def p)
  then show ?thesis by blast
qed

lemma completions_0 [simp]: "completions n 0 d = Some d"
  by simp

lemma update_triple_after_wait:
  assumes a0: "dma_state d0 \<noteq> DMA_IDLE"
    and w: "(if vsync_spacing d0 \<noteq> - 1 then wait_fb2free n d0 else Some d0) = Some dW"
    and a: "dma_state dW \<noteq> DMA_IDLE" and p: "fb1 dW = Some p" and q: "fb2 dW = Some q"
    and irq: "e_irq1 e = 0" "e_irq2 e = 0"
  shows "update_triple n e new force d0 = Some (queue_frame e new force dW)"
proof -
  have k0: "asyncUpdateActive d0" using a0 by (simp add: asyncUpdateActive_def)
  have k: "asyncUpdateActive dW" using a by (simp add: asyncUpdateActive_def)
  have e: "update_triple n e new force d0 =
     (let d3 = setCB None dW
                 in if mirrorfb d3 \<noteq> None \<and> \<not> force \<and> diff2 d3 \<noteq> None
                    then computeDiff (diff2 d3) (e_spans e) (fb1 d3) new False d3 \<bind> (\<lambda>d4.
                         copyfb (fb2 d4) new d4 \<bind> (\<lambda>d5.
                         completions n (e_irq2 e) d5 \<bind> (\<lambda>d6.
                         if asyncUpdateActive d6
                         then Some ((setCB (Some Buffer2fullCB) d6)\<lparr>fb2full := True, mirrorfb := fb2 d6\<rparr>)
                         else (let d7 = swapfb (swapdiff d6);
                                   d8 = d7\<lparr>mirrorfb := fb1 d7\<rparr>
                               in updateAsync n (fb1 d8) (diff1 d8) d8))))
                    else computeDiff (Some (dummydiff2 d3)) dummy_spans (fb1 d3) new False d3 \<bind> (\<lambda>d4.
                         copyfb (fb2 d4) new d4 \<bind> (\<lambda>d5.
                         completions n (e_irq2 e) d5 \<bind> (\<lambda>d6.
                         if asyncUpdateActive d6
                         then Some ((setCB (Some Buffer2fullCB) d6)\<lparr>fb2full := True, mirrorfb := None\<rparr>)
                         else (let d7 = swapfb (swapdummydiff d6);
                                   d8 = d7\<lparr>mirrorfb := fb1 d7\<rparr>
                               in updateAsync n (fb1 d8) (Some (dummydiff1 d8)) d8)))))"
    unfolding update_triple_def w using k0 k
    by (simp only: if_True if_False not_True_eq_False bind.bind_lunit irq completions.simps refl)
  have s: "mirrorfb (setCB None dW) = mirrorfb dW" "diff2 (setCB None dW) = diff2 dW"
    "fb1 (setCB None dW) = Some p" "dummydiff2 (setCB None dW) = dummydiff2 dW"
    using p by (simp_all add: setCB_def)
  show ?thesis
  proof (cases "mirrorfb dW \<noteq> None \<and> \<not> force \<and> diff2 dW \<noteq> None")
    case True
    then obtain g where g: "diff2 dW = Some g" by auto
    have q1: "queue_frame e new force dW =
        dW\<lparr>diffs := (diffs dW)(g := \<lparr>spans = e_spans e, rpos = 0\<rparr>),
             mem := (mem dW)(q := new),
             pcb := Some Buffer2fullCB, fb2full := True, mirrorfb := Some q\<rparr>"
      using True g q by (simp add: queue_frame_def)
    have "update_triple n e new force d0 =
       computeDiff (Some g) (e_spans e) (Some p) new False (setCB None dW) \<bind> (\<lambda>d4.
                         copyfb (fb2 d4) new d4 \<bind> (\<lambda>d5.
                         completions n 0 d5 \<bind> (\<lambda>d6.
                         if asyncUpdateActive d6
                         then Some ((setCB (Some Buffer2fullCB) d6)\<lparr>fb2full := True, mirrorfb := fb2 d6\<rparr>)
                         else (let d7 = swapfb (swapdiff d6);
                                   d8 = d7\<lparr>mirrorfb := fb1 d7\<rparr>
                               in updateAsync n (fb1 d8) (diff1 d8) d8))))"
      unfolding e Let_def s irq g using True by (simp only: g if_True simp_thms)
    also have "\<dots> = Some (queue_frame e new force dW)"
      unfolding computeDiff_nocopy q1
      using a p q by (simp add: copyfb_def asyncUpdateActive_def setCB_def del: updateAsync.simps)
    finally show ?thesis .
  next
    case False
    have q1: "queue_frame e new force dW =
        dW\<lparr>diffs := (diffs dW)(dummydiff2 dW := \<lparr>spans = dummy_spans, rpos = 0\<rparr>),
             mem := (mem dW)(q := new),
             pcb := Some Buffer2fullCB, fb2full := True, mirrorfb := None\<rparr>"
      using False q by (auto simp: queue_frame_def)
    have "update_triple n e new force d0 =
       computeDiff (Some (dummydiff2 dW)) dummy_spans (Some p) new False (setCB None dW) \<bind> (\<lambda>d4.
                         copyfb (fb2 d4) new d4 \<bind> (\<lambda>d5.
                         completions n 0 d5 \<bind> (\<lambda>d6.
                         if asyncUpdateActive d6
                         then Some ((setCB (Some Buffer2fullCB) d6)\<lparr>fb2full := True, mirrorfb := None\<rparr>)
                         else (let d7 = swapfb (swapdummydiff d6);
                                   d8 = d7\<lparr>mirrorfb := fb1 d7\<rparr>
                               in updateAsync n (fb1 d8) (Some (dummydiff1 d8)) d8))))"
      unfolding e Let_def s irq using False by (simp only: if_False simp_thms)
    also have "\<dots> = Some (queue_frame e new force dW)"
      unfolding computeDiff_nocopy q1
      using a p q by (simp add: copyfb_def asyncUpdateActive_def setCB_def del: updateAsync.simps)
    finally show ?thesis .
  qed
qed

lemma update_triple_queues:
  assumes a: "dma_state d \<noteq> DMA_IDLE" and p: "fb1 d = Some p" and q: "fb2 d = Some q"
    and nb: "vsync_spacing d = - 1 \<or> (\<not> fb2full d \<and> 0 < n)"
    and irq: "e_irq1 e = 0" "e_irq2 e = 0"
  shows "update n e new force d = Some (queue_frame e new force (d\<lparr>ongoingDiff := None\<rparr>))"
proof -
  define d0 where "d0 = d\<lparr>ongoingDiff := None\<rparr>"
  have f0: "dma_state d0 \<noteq> DMA_IDLE" "fb1 d0 = Some p" "fb2 d0 = Some q"
    "vsync_spacing d0 = vsync_spacing d" "fb2full d0 = fb2full d"
    using a p q by (simp_all add: d0_def)
  have m: "bufferingMode d0 = TRIPLE_BUFFERING" using f0 by (simp add: bufferingMode_def)
  have w: "(if vsync_spacing d0 \<noteq> - 1 then wait_fb2free n d0 else Some d0) = Some d0"
  proof (cases "vsync_spacing d = - 1")
    case True then show ?thesis using f0 by simp
  next
    case False
    with nb obtain k where "n = Suc k" "\<not> fb2full d" by (cases n) auto
    then show ?thesis using f0 by simp
  qed
  from update_triple_after_wait [OF f0(1) w f0(1) f0(2) f0(3) irq]
  show ?thesis by (simp add: update_def Let_def d0_def [symmetric] m)
qed

lemma first_diff_ongoing [simp]:
  "first_diff e force (d\<lparr>ongoingDiff := x\<rparr>) = first_diff e force d"
  by (simp add: first_diff_def)

lemma first_diff_nonempty: "e_spans e \<noteq> [] \<Longrightarrow> first_diff e force d \<noteq> []"
  by (simp add: first_diff_def)

lemma first_diff_dummy: "diff2 d = None \<Longrightarrow> first_diff e force d = dummy_spans"
  by (simp add: first_diff_def)

lemma queue_frame_fields:
  "dma_state (queue_frame e new force d) = dma_state d"
  "fb1 (queue_frame e new force d) = fb1 d"
  "fb2 (queue_frame e new force d) = fb2 d"
  "diff1 (queue_frame e new force d) = diff1 d"
  "diff2 (queue_frame e new force d) = diff2 d"
  "dummydiff1 (queue_frame e new force d) = dummydiff1 d"
  "dummydiff2 (queue_frame e new force d) = dummydiff2 d"
  "fb (queue_frame e new force d) = fb d"
  "diff (queue_frame e new force d) = diff d"
  "vsync_spacing (queue_frame e new force d) = vsync_spacing d"
  "panel (queue_frame e new force d) = panel d"
  "stats_nb_frame (queue_frame e new force d) = stats_nb_frame d"
  "pcb (queue_frame e new force d) = Some Buffer2fullCB"
  "fb2full (queue_frame e new force d)"
  "mem (queue_frame e new force d) = (mem d)(the (fb2 d) := new)"
  by (simp_all add: queue_frame_def)

lemma queue_frame_queued:
  assumes "fb2 d = Some q"
  shows "\<exists>g. queued_diff (queue_frame e new force d) = Some g
             \<and> spans (diffs (queue_frame e new force d) g) = first_diff e force d"
proof (cases "mirrorfb d \<noteq> None \<and> \<not> force \<and> diff2 d \<noteq> None")
  case True
  then obtain g m where "diff2 d = Some g" "mirrorfb d = Some m" by auto
  with True assms show ?thesis
    by (simp add: queue_frame_def queued_diff_def first_diff_def)
next
  case False
  then have "queue_frame e new force d =
      d\<lparr>diffs := (diffs d)(dummydiff2 d := \<lparr>spans = dummy_spans, rpos = 0\<rparr>),
             mem := (mem d)(the (fb2 d) := new),
             pcb := Some Buffer2fullCB, fb2full := True, mirrorfb := None\<rparr>"
    by (auto simp: queue_frame_def)
  moreover have "first_diff e force d = dummy_spans" using False by (auto simp: first_diff_def)
  ultimately show ?thesis by (simp add: queued_diff_def)
qed

text \<open>
  Queueing a frame leaves the transfer in flight alone, when the buffers are distinct: it
  writes the secondary framebuffer and one of the two secondary diffs.
\<close>

lemma queue_frame_inflight:
  assumes "fb d = Some a" "diff d = Some b" "fb2 d = Some q" "a \<noteq> q" "secondary_free b d"
  shows "inflight (queue_frame e new force d) = inflight d"
proof (cases "mirrorfb d \<noteq> None \<and> \<not> force \<and> diff2 d \<noteq> None")
  case True
  then obtain g where g: "diff2 d = Some g" by auto
  with assms(5) have "g \<noteq> b" by (auto simp: secondary_free_def)
  with True g assms show ?thesis by (simp add: queue_frame_def inflight_def)
next
  case False
  have "dummydiff2 d \<noteq> b" using assms(5) by (auto simp: secondary_free_def)
  moreover from False have "queue_frame e new force d =
      d\<lparr>diffs := (diffs d)(dummydiff2 d := \<lparr>spans = dummy_spans, rpos = 0\<rparr>),
             mem := (mem d)(the (fb2 d) := new),
             pcb := Some Buffer2fullCB, fb2full := True, mirrorfb := None\<rparr>"
    by (auto simp: queue_frame_def)
  ultimately show ?thesis using assms by (simp add: inflight_def)
qed

lemma secondary_free_queue_frame [simp]:
  "secondary_free b (queue_frame e new force d) = secondary_free b d"
  by (simp add: secondary_free_def queue_frame_fields)

lemma secondary_free_ongoing [simp]:
  "secondary_free b (d\<lparr>ongoingDiff := x\<rparr>) = secondary_free b d"
  by (simp add: secondary_free_def)

lemma inflight_ongoing [simp]: "inflight (d\<lparr>ongoingDiff := x\<rparr>) = inflight d"
  by (simp add: inflight_def split: option.splits)

lemma queued_diff_ongoing [simp]: "queued_diff (d\<lparr>ongoingDiff := x\<rparr>) = queued_diff d"
  by (simp add: queued_diff_def)

lemma diffs_distinct_queue_frame [simp]:
  "diffs_distinct (queue_frame e new force d) = diffs_distinct d"
  by (simp add: diffs_distinct_def queue_frame_fields)

lemma diffs_distinct_ongoing [simp]:
  "diffs_distinct (d\<lparr>ongoingDiff := x\<rparr>) = diffs_distinct d"
  by (simp add: diffs_distinct_def)

text \<open>The diff of a promoted frame is a primary one.\<close>

lemma promoted_secondary_free:
  assumes "diffs_distinct d" "queued_diff d = Some g"
    "diff2 d' = (if mirrorfb d \<noteq> None then diff1 d else diff2 d)"
    "dummydiff2 d' = (if mirrorfb d \<noteq> None then dummydiff2 d else dummydiff1 d)"
  shows "secondary_free g d'"
  using assms by (auto simp: diffs_distinct_def queued_diff_def secondary_free_def split: if_splits)

lemma launched_secondary_free:
  assumes "diffs_distinct d" "gA = dummydiff1 d \<or> diff1 d = Some gA"
  shows "secondary_free gA d"
  using assms by (auto simp: diffs_distinct_def secondary_free_def)

lemma update_triple_launches:
  assumes i: "dma_state d = DMA_IDLE" and p: "fb1 d = Some p" and q: "fb2 d = Some q"
    and g: "diff2 d \<noteq> None \<longrightarrow> diff1 d \<noteq> None" and ne: "e_spans e \<noteq> []"
    and dd: "diffs_distinct d"
  shows "\<exists>d' gA. update (Suc (Suc n)) e new force d = Some d'
          \<and> dma_state d' = DMA_ON \<and> pcb d' = pcb d \<and> fb2full d' = fb2full d
          \<and> fb1 d' = Some p \<and> fb2 d' = Some q \<and> mirrorfb d' = Some p
          \<and> fb d' = Some p \<and> diff d' = Some gA \<and> secondary_free gA d'
          \<and> diffs_distinct d'
          \<and> inflight d' = [Spans new (first_diff e force d)]
          \<and> panel d' = panel d
          \<and> mem d' = (mem d)(p := new) \<and> vsync_spacing d' = vsync_spacing d"
proof -
  define d0 where "d0 = d\<lparr>ongoingDiff := None\<rparr>"
  have f0: "dma_state d0 = DMA_IDLE" "fb1 d0 = Some p" "fb2 d0 = Some q"
    "diff2 d0 \<noteq> None \<longrightarrow> diff1 d0 \<noteq> None"
    using i p q g by (simp_all add: d0_def)
  have m: "bufferingMode d0 = TRIPLE_BUFFERING" using f0 by (simp add: bufferingMode_def)
  have e: "update (Suc (Suc n)) e new force d = launch_now (Suc (Suc n)) e new force d0"
    using f0(1)
    by (simp add: update_def Let_def d0_def [symmetric] m update_triple_def asyncUpdateActive_def)
  from launch_now_idle [OF f0(1) f0(2) f0(4) ne, of n new force] obtain d' gA where
    l: "launch_now (Suc (Suc n)) e new force d0 = Some d'"
    and f: "dma_state d' = DMA_ON" "pcb d' = pcb d0" "fb2full d' = fb2full d0"
      "fb1 d' = fb1 d0" "fb2 d' = fb2 d0" "mirrorfb d' = Some p"
      "diff1 d' = diff1 d0" "diff2 d' = diff2 d0"
      "dummydiff1 d' = dummydiff1 d0" "dummydiff2 d' = dummydiff2 d0"
      "fb d' = Some p" "diff d' = Some gA" "gA = dummydiff1 d0 \<or> diff1 d0 = Some gA"
      "spans (diffs d' gA) = first_diff e force d0"
      "panel d' = panel d0"
      "mem d' = (mem d0)(p := new)" "vsync_spacing d' = vsync_spacing d0"
    by blast
  have dd': "diffs_distinct d'" using dd f by (simp add: diffs_distinct_def d0_def)
  have sf: "secondary_free gA d'"
    using f(13) dd' f(7) f(9) by (intro launched_secondary_free) simp_all
  have inf: "inflight d' = [Spans new (first_diff e force d)]"
    using f by (simp add: inflight_def d0_def)
  have "update (Suc (Suc n)) e new force d = Some d'
          \<and> dma_state d' = DMA_ON \<and> pcb d' = pcb d \<and> fb2full d' = fb2full d
          \<and> fb1 d' = Some p \<and> fb2 d' = Some q \<and> mirrorfb d' = Some p
          \<and> fb d' = Some p \<and> diff d' = Some gA \<and> secondary_free gA d'
          \<and> diffs_distinct d'
          \<and> inflight d' = [Spans new (first_diff e force d)]
          \<and> panel d' = panel d
          \<and> mem d' = (mem d)(p := new) \<and> vsync_spacing d' = vsync_spacing d"
    using e l f f0 sf dd' inf by (simp add: d0_def)
  then show ?thesis by blast
qed

text \<open>With another spacing than -1 the submit waits for the secondary buffer to be free.\<close>

lemma update_triple_blocks:
  assumes a: "dma_state d \<noteq> DMA_IDLE" and p: "fb1 d = Some p" and q: "fb2 d = Some q"
    and v: "vsync_spacing d \<noteq> - 1" and fl: "fb2full d" and cb: "pcb d = Some Buffer2fullCB"
    and g: "queued_diff d = Some g" and ne: "spans (diffs d g) \<noteq> []"
    and dd: "diffs_distinct d"
    and irq: "e_irq1 e = 0" "e_irq2 e = 0"
  shows "\<exists>dP. update (Suc (Suc (Suc (Suc (Suc n))))) e new force d = Some (queue_frame e new force dP)
            \<and> dma_state dP = DMA_ON \<and> \<not> fb2full dP \<and> fb1 dP = Some q \<and> fb2 dP = Some p
            \<and> fb dP = Some q \<and> diff dP = Some g \<and> secondary_free g dP \<and> diffs_distinct dP
            \<and> panel dP = panel d @ inflight d
            \<and> inflight dP = [Spans (mem d q) (spans (diffs d g))]
            \<and> mem dP = mem d \<and> vsync_spacing dP = vsync_spacing d
            \<and> diff2 dP = (if mirrorfb d \<noteq> None then diff1 d else diff2 d)"
proof -
  define d0 where "d0 = d\<lparr>ongoingDiff := None\<rparr>"
  have f0: "dma_state d0 \<noteq> DMA_IDLE" "fb1 d0 = Some p" "fb2 d0 = Some q"
    "vsync_spacing d0 \<noteq> - 1" "fb2full d0" "pcb d0 = Some Buffer2fullCB"
    "queued_diff d0 = Some g" "spans (diffs d0 g) \<noteq> []" "diffs_distinct d0"
    using a p q v fl cb g ne dd by (simp_all add: d0_def)
  have same: "panel d0 = panel d" "mem d0 = mem d" "diffs d0 = diffs d"
    "vsync_spacing d0 = vsync_spacing d" "inflight d0 = inflight d"
    "mirrorfb d0 = mirrorfb d" "diff1 d0 = diff1 d" "diff2 d0 = diff2 d"
    by (simp_all add: d0_def)
  have m: "bufferingMode d0 = TRIPLE_BUFFERING" using f0 by (simp add: bufferingMode_def)
  from completion_promotes [OF f0(6) f0(3) f0(7) f0(8), of n] obtain dP where
    t: "transfer_end (Suc (Suc (Suc (Suc n)))) (frame_sent d0) = Some dP"
    and fP: "dma_state dP = DMA_ON" "\<not> fb2full dP" "fb1 dP = Some q" "fb2 dP = fb1 d0"
      "fb dP = Some q" "diff dP = Some g"
      "panel dP = panel d0 @ inflight d0"
      "mem dP = mem d0" "spans (diffs dP g) = spans (diffs d0 g)"
      "vsync_spacing dP = vsync_spacing d0"
      "diff1 dP = (if mirrorfb d0 \<noteq> None then diff2 d0 else diff1 d0)"
      "diff2 dP = (if mirrorfb d0 \<noteq> None then diff1 d0 else diff2 d0)"
      "dummydiff1 dP = (if mirrorfb d0 \<noteq> None then dummydiff1 d0 else dummydiff2 d0)"
      "dummydiff2 dP = (if mirrorfb d0 \<noteq> None then dummydiff2 d0 else dummydiff1 d0)"
    by blast
  have sf: "secondary_free g dP"
    using f0(9) f0(7) fP(12) fP(14) by (rule promoted_secondary_free)
  have ddP: "diffs_distinct dP"
    using f0(9) fP(11-14) by (auto simp: diffs_distinct_def split: if_splits)
  have inf: "inflight dP = [Spans (mem d q) (spans (diffs d g))]"
    using fP same by (simp add: inflight_def)
  have "wait_fb2free (Suc (Suc (Suc (Suc (Suc n))))) d0 = Some dP"
    using f0(1) f0(5) t fP(2)
    by (subst wait_fb2free.simps) (simp del: transfer_end.simps)
  then have w: "(if vsync_spacing d0 \<noteq> - 1 then wait_fb2free (Suc (Suc (Suc (Suc (Suc n))))) d0 else Some d0)
              = Some dP"
    using f0(4) by simp
  have "update_triple (Suc (Suc (Suc (Suc (Suc n))))) e new force d0 = Some (queue_frame e new force dP)"
    using fP f0 by (intro update_triple_after_wait [OF f0(1) w _ _ _ irq, of q p]) simp_all
  then have u: "update (Suc (Suc (Suc (Suc (Suc n))))) e new force d = Some (queue_frame e new force dP)"
    by (simp add: update_def Let_def d0_def [symmetric] m)
  have "update (Suc (Suc (Suc (Suc (Suc n))))) e new force d = Some (queue_frame e new force dP)
            \<and> dma_state dP = DMA_ON \<and> \<not> fb2full dP \<and> fb1 dP = Some q \<and> fb2 dP = Some p
            \<and> fb dP = Some q \<and> diff dP = Some g \<and> secondary_free g dP \<and> diffs_distinct dP
            \<and> panel dP = panel d @ inflight d
            \<and> inflight dP = [Spans (mem d q) (spans (diffs d g))]
            \<and> mem dP = mem d \<and> vsync_spacing dP = vsync_spacing d
            \<and> diff2 dP = (if mirrorfb d \<noteq> None then diff1 d else diff2 d)"
    using u fP f0(2) sf ddP inf unfolding same by simp
  then show ?thesis by blast
qed

text \<open>
  A frame queued behind a transfer in flight, then the two completion interrupts: the first
  one ends the transfer in flight, promotes the queued frame and starts its transfer, the
  second one ends that transfer.
\<close>

lemma queued_then_completions:
  assumes x: "fb x = Some a" "diff x = Some b" "fb1 x = Some a" "fb2 x = Some c" "a \<noteq> c"
      "secondary_free b x"
    and ne: "e_spans e \<noteq> []"
  shows "\<exists>d4 d5. transfer_end (Suc (Suc (Suc (Suc n)))) (frame_sent (queue_frame e F r x)) = Some d4
          \<and> dma_state d4 = DMA_ON \<and> pcb d4 = None \<and> \<not> fb2full d4
          \<and> fb1 d4 = Some c \<and> fb2 d4 = Some a \<and> mirrorfb d4 = Some c
          \<and> inflight d4 = [Spans F (first_diff e r x)]
          \<and> panel d4 = panel x @ inflight x
          \<and> transfer_end (Suc m) (frame_sent d4) = Some d5
          \<and> dma_state d5 = DMA_IDLE \<and> pcb d5 = None
          \<and> panel d5 = panel x @ inflight x @ [Spans F (first_diff e r x)]"
proof -
  define d3 where "d3 = queue_frame e F r x"
  have f3: "pcb d3 = Some Buffer2fullCB" "fb2 d3 = Some c" "fb1 d3 = Some a"
    "panel d3 = panel x" "mem d3 = (mem x)(c := F)"
    using x by (simp_all add: d3_def queue_frame_fields)
  have i3: "inflight d3 = inflight x"
    unfolding d3_def using x(1) x(2) x(4) x(5) x(6) by (rule queue_frame_inflight)
  from queue_frame_queued [OF x(4), of e F r] obtain g3 where
    q3: "queued_diff d3 = Some g3" "spans (diffs d3 g3) = first_diff e r x"
    unfolding d3_def by blast
  have n3: "spans (diffs d3 g3) \<noteq> []" using q3(2) ne by (simp add: first_diff_nonempty)
  from completion_promotes [OF f3(1) f3(2) q3(1) n3, of n] obtain d4 where
    t4: "transfer_end (Suc (Suc (Suc (Suc n)))) (frame_sent d3) = Some d4"
    and f4: "dma_state d4 = DMA_ON" "pcb d4 = None" "\<not> fb2full d4" "fb1 d4 = Some c"
      "fb2 d4 = fb1 d3" "mirrorfb d4 = Some c" "fb d4 = Some c" "diff d4 = Some g3"
      "panel d4 = panel d3 @ inflight d3" "mem d4 = mem d3"
      "spans (diffs d4 g3) = spans (diffs d3 g3)"
    by blast
  have i4: "inflight d4 = [Spans F (first_diff e r x)]"
    using f4 f3 q3 by (simp add: inflight_def)
  let ?d5 = "(endframe (frame_sent d4))\<lparr>dma_state := DMA_IDLE, pcb := None\<rparr>"
  have t5: "transfer_end (Suc m) (frame_sent d4) = Some ?d5"
    using f4(2) by (rule completion_no_callback)
  have p5: "panel ?d5 = panel x @ inflight x @ [Spans F (first_diff e r x)]"
    using f4 f3 i3 i4 by simp
  have "transfer_end (Suc (Suc (Suc (Suc n)))) (frame_sent (queue_frame e F r x)) = Some d4
          \<and> dma_state d4 = DMA_ON \<and> pcb d4 = None \<and> \<not> fb2full d4
          \<and> fb1 d4 = Some c \<and> fb2 d4 = Some a \<and> mirrorfb d4 = Some c
          \<and> inflight d4 = [Spans F (first_diff e r x)]
          \<and> panel d4 = panel x @ inflight x
          \<and> transfer_end (Suc m) (frame_sent d4) = Some ?d5
          \<and> dma_state ?d5 = DMA_IDLE \<and> pcb ?d5 = None
          \<and> panel ?d5 = panel x @ inflight x @ [Spans F (first_diff e r x)]"
    using t4 [unfolded d3_def] f4 f3 i3 i4 t5 p5 by simp
  then show ?thesis by blast
qed

text \<open>The first two submissions: the first frame is in flight, the second one queued.\<close>

lemma two_submissions:
  assumes t: "fb1 d = Some p" "fb2 d = Some q" "p \<noteq> q"
    and i: "dma_state d = DMA_IDLE" and nf: "\<not> fb2full d"
    and dd: "diffs_distinct d" and g: "diff2 d \<noteq> None \<longrightarrow> diff1 d \<noteq> None"
    and ne: "e_spans e1 \<noteq> []"
    and irq: "e_irq1 e2 = 0" "e_irq2 e2 = 0"
  shows "\<exists>d1 d2 gA g2.
       update (Suc (Suc n)) e1 F1 r1 d = Some d1
     \<and> dma_state d1 = DMA_ON \<and> inflight d1 = [Spans F1 (first_diff e1 r1 d)] \<and> panel d1 = panel d
     \<and> diff1 d1 = diff1 d \<and> diff2 d1 = diff2 d
     \<and> update (Suc n2) e2 F2 r2 d1 = Some d2
     \<and> dma_state d2 = DMA_ON \<and> inflight d2 = [Spans F1 (first_diff e1 r1 d)] \<and> panel d2 = panel d
     \<and> fb1 d2 = Some p \<and> fb2 d2 = Some q \<and> mem d2 q = F2 \<and> fb2full d2
     \<and> pcb d2 = Some Buffer2fullCB \<and> vsync_spacing d2 = vsync_spacing d
     \<and> fb d2 = Some p \<and> diff d2 = Some gA \<and> secondary_free gA d2 \<and> diffs_distinct d2
     \<and> diff1 d2 = diff1 d \<and> diff2 d2 = diff2 d
     \<and> queued_diff d2 = Some g2 \<and> spans (diffs d2 g2) = first_diff e2 r2 d1"
proof -
  from update_triple_launches [OF i t(1) t(2) g ne dd, of n F1 r1] obtain d1 gA where
    u1: "update (Suc (Suc n)) e1 F1 r1 d = Some d1"
    and f1: "dma_state d1 = DMA_ON" "fb2full d1 = fb2full d"
      "fb1 d1 = Some p" "fb2 d1 = Some q"
      "fb d1 = Some p" "diff d1 = Some gA" "secondary_free gA d1" "diffs_distinct d1"
      "inflight d1 = [Spans F1 (first_diff e1 r1 d)]" "panel d1 = panel d"
      "mem d1 = (mem d)(p := F1)" "vsync_spacing d1 = vsync_spacing d"
    by blast
  have k1: "diff1 d1 = diff1 d \<and> diff2 d1 = diff2 d"
  proof -
    define d0 where "d0 = d\<lparr>ongoingDiff := None\<rparr>"
    have f0: "dma_state d0 = DMA_IDLE" "fb1 d0 = Some p" "fb2 d0 = Some q"
      "diff2 d0 \<noteq> None \<longrightarrow> diff1 d0 \<noteq> None"
      using i t g by (simp_all add: d0_def)
    have m: "bufferingMode d0 = TRIPLE_BUFFERING" using f0 by (simp add: bufferingMode_def)
    have e: "update (Suc (Suc n)) e1 F1 r1 d = launch_now (Suc (Suc n)) e1 F1 r1 d0"
      using f0(1)
      by (simp add: update_def Let_def d0_def [symmetric] m update_triple_def asyncUpdateActive_def)
    from launch_now_idle [OF f0(1) f0(2) f0(4) ne, of n F1 r1] obtain d' where
      "launch_now (Suc (Suc n)) e1 F1 r1 d0 = Some d'" "diff1 d' = diff1 d0" "diff2 d' = diff2 d0"
      by blast
    with e u1 show ?thesis by (simp add: d0_def)
  qed
  define x where "x = d1\<lparr>ongoingDiff := None\<rparr>"
  define d2 where "d2 = queue_frame e2 F2 r2 x"
  have u2: "update (Suc n2) e2 F2 r2 d1 = Some d2"
    unfolding d2_def x_def using f1 nf irq by (intro update_triple_queues [of d1 p q]) simp_all
  have fx: "fb x = Some p" "diff x = Some gA" "fb2 x = Some q" "secondary_free gA x"
    "inflight x = inflight d1"
    using f1 by (simp_all add: x_def)
  have i2: "inflight d2 = inflight x"
    unfolding d2_def using fx(1) fx(2) fx(3) t(3) fx(4) by (rule queue_frame_inflight)
  have f2: "dma_state d2 = DMA_ON" "fb1 d2 = Some p" "fb2 d2 = Some q"
    "panel d2 = panel d" "fb2full d2" "pcb d2 = Some Buffer2fullCB"
    "mem d2 q = F2" "vsync_spacing d2 = vsync_spacing d"
    "fb d2 = Some p" "diff d2 = Some gA" "secondary_free gA d2" "diffs_distinct d2"
    "diff1 d2 = diff1 d" "diff2 d2 = diff2 d"
    using f1 k1 by (simp_all add: d2_def x_def queue_frame_fields)
  from queue_frame_queued [OF fx(3), of e2 F2 r2] obtain g2 where
    q2: "queued_diff d2 = Some g2" "spans (diffs d2 g2) = first_diff e2 r2 d1"
    unfolding d2_def x_def by auto
  have "update (Suc (Suc n)) e1 F1 r1 d = Some d1
     \<and> dma_state d1 = DMA_ON \<and> inflight d1 = [Spans F1 (first_diff e1 r1 d)] \<and> panel d1 = panel d
     \<and> diff1 d1 = diff1 d \<and> diff2 d1 = diff2 d
     \<and> update (Suc n2) e2 F2 r2 d1 = Some d2
     \<and> dma_state d2 = DMA_ON \<and> inflight d2 = [Spans F1 (first_diff e1 r1 d)] \<and> panel d2 = panel d
     \<and> fb1 d2 = Some p \<and> fb2 d2 = Some q \<and> mem d2 q = F2 \<and> fb2full d2
     \<and> pcb d2 = Some Buffer2fullCB \<and> vsync_spacing d2 = vsync_spacing d
     \<and> fb d2 = Some p \<and> diff d2 = Some gA \<and> secondary_free gA d2 \<and> diffs_distinct d2
     \<and> diff1 d2 = diff1 d \<and> diff2 d2 = diff2 d
     \<and> queued_diff d2 = Some g2 \<and> spans (diffs d2 g2) = first_diff e2 r2 d1"
    using u1 u2 f1 k1 f2 i2 fx(5) q2 by simp
  then show ?thesis by blast
qed

text \<open>
  A third submission with a spacing of -1: it returns at once, having overwritten the queued
  frame; the transfer in flight is still the first one.
\<close>

lemma third_overwrites:
  assumes d2: "dma_state d2 = DMA_ON" "fb1 d2 = Some p" "fb2 d2 = Some q" "p \<noteq> q"
      "fb d2 = Some p" "diff d2 = Some gA" "secondary_free gA d2"
    and v: "vsync_spacing d2 = - 1"
    and ne: "e_spans e3 \<noteq> []" and irq: "e_irq1 e3 = 0" "e_irq2 e3 = 0"
  shows "\<exists>d3 d4 d5.
       update n3 e3 F3 r3 d2 = Some d3
     \<and> dma_state d3 = DMA_ON \<and> fb2full d3 \<and> fb2 d3 = Some q \<and> mem d3 q = F3
     \<and> inflight d3 = inflight d2 \<and> panel d3 = panel d2
     \<and> last_interrupt (Suc (Suc (Suc (Suc n)))) d3 = Some d4
     \<and> dma_state d4 = DMA_ON \<and> fb1 d4 = Some q \<and> \<not> fb2full d4
     \<and> inflight d4 = [Spans F3 (first_diff e3 r3 d2)]
     \<and> last_interrupt (Suc m) d4 = Some d5
     \<and> dma_state d5 = DMA_IDLE
     \<and> panel d5 = panel d2 @ inflight d2 @ [Spans F3 (first_diff e3 r3 d2)]"
proof -
  define x where "x = d2\<lparr>ongoingDiff := None\<rparr>"
  define d3 where "d3 = queue_frame e3 F3 r3 x"
  have u3: "update n3 e3 F3 r3 d2 = Some d3"
    unfolding d3_def x_def using d2 v irq by (intro update_triple_queues [of d2 p q]) simp_all
  have fx: "fb x = Some p" "diff x = Some gA" "fb1 x = Some p" "fb2 x = Some q"
    "secondary_free gA x" "inflight x = inflight d2" "panel x = panel d2"
    "first_diff e3 r3 x = first_diff e3 r3 d2"
    using d2 by (simp_all add: x_def)
  have i3: "inflight d3 = inflight x"
    unfolding d3_def using fx(1) fx(2) fx(4) d2(4) fx(5) by (rule queue_frame_inflight)
  have f3: "dma_state d3 = DMA_ON" "fb2full d3" "fb2 d3 = Some q" "mem d3 q = F3"
    "panel d3 = panel d2"
    using d2 by (simp_all add: d3_def x_def queue_frame_fields)
  from queued_then_completions [OF fx(1) fx(2) fx(3) fx(4) d2(4) fx(5) ne, of n F3 r3 m]
  obtain d4 d5 where
    c: "transfer_end (Suc (Suc (Suc (Suc n)))) (frame_sent d3) = Some d4"
      "dma_state d4 = DMA_ON" "\<not> fb2full d4" "fb1 d4 = Some q"
      "inflight d4 = [Spans F3 (first_diff e3 r3 x)]"
      "transfer_end (Suc m) (frame_sent d4) = Some d5"
      "dma_state d5 = DMA_IDLE"
      "panel d5 = panel x @ inflight x @ [Spans F3 (first_diff e3 r3 x)]"
    unfolding d3_def by blast
  have "update n3 e3 F3 r3 d2 = Some d3
     \<and> dma_state d3 = DMA_ON \<and> fb2full d3 \<and> fb2 d3 = Some q \<and> mem d3 q = F3
     \<and> inflight d3 = inflight d2 \<and> panel d3 = panel d2
     \<and> last_interrupt (Suc (Suc (Suc (Suc n)))) d3 = Some d4
     \<and> dma_state d4 = DMA_ON \<and> fb1 d4 = Some q \<and> \<not> fb2full d4
     \<and> inflight d4 = [Spans F3 (first_diff e3 r3 d2)]
     \<and> last_interrupt (Suc m) d4 = Some d5
     \<and> dma_state d5 = DMA_IDLE
     \<and> panel d5 = panel d2 @ inflight d2 @ [Spans F3 (first_diff e3 r3 d2)]"
    using u3 f3 i3 c unfolding last_interrupt_def fx(6) fx(7) fx(8) by simp
  then show ?thesis by blast
qed

text \<open>
  A third submission with another spacing: it waits until the first transfer has ended and
  the second frame has been promoted, and queues the third frame behind it.
\<close>

lemma third_waits:
  assumes d2: "dma_state d2 = DMA_ON" "fb1 d2 = Some p" "fb2 d2 = Some q" "p \<noteq> q"
      "fb2full d2" "pcb d2 = Some Buffer2fullCB" "diffs_distinct d2"
      "queued_diff d2 = Some g2" "spans (diffs d2 g2) \<noteq> []"
    and v: "vsync_spacing d2 \<noteq> - 1"
    and ne: "e_spans e3 \<noteq> []" and irq: "e_irq1 e3 = 0" "e_irq2 e3 = 0"
  shows "\<exists>d3 d4 d5 s3. s3 \<noteq> [] \<and> (diff1 d2 = None \<and> diff2 d2 = None \<longrightarrow> s3 = dummy_spans)
     \<and> update (Suc (Suc (Suc (Suc (Suc n3))))) e3 F3 r3 d2 = Some d3
     \<and> dma_state d3 = DMA_ON \<and> fb2full d3 \<and> fb2 d3 = Some p \<and> mem d3 p = F3
     \<and> inflight d3 = [Spans (mem d2 q) (spans (diffs d2 g2))]
     \<and> panel d3 = panel d2 @ inflight d2
     \<and> last_interrupt (Suc (Suc (Suc (Suc n)))) d3 = Some d4
     \<and> dma_state d4 = DMA_ON \<and> fb1 d4 = Some p \<and> \<not> fb2full d4
     \<and> inflight d4 = [Spans F3 s3]
     \<and> last_interrupt (Suc m) d4 = Some d5
     \<and> dma_state d5 = DMA_IDLE
     \<and> panel d5 = panel d2 @ inflight d2 @ [Spans (mem d2 q) (spans (diffs d2 g2)), Spans F3 s3]"
proof -
  have a: "dma_state d2 \<noteq> DMA_IDLE" using d2(1) by simp
  from update_triple_blocks [OF a d2(2) d2(3) v d2(5) d2(6) d2(8) d2(9) d2(7) irq, of n3 F3 r3]
  obtain x where
    u3: "update (Suc (Suc (Suc (Suc (Suc n3))))) e3 F3 r3 d2 = Some (queue_frame e3 F3 r3 x)"
    and fx: "dma_state x = DMA_ON" "fb1 x = Some q" "fb2 x = Some p"
      "fb x = Some q" "diff x = Some g2" "secondary_free g2 x"
      "panel x = panel d2 @ inflight d2"
      "inflight x = [Spans (mem d2 q) (spans (diffs d2 g2))]"
      "diff2 x = (if mirrorfb d2 \<noteq> None then diff1 d2 else diff2 d2)"
    by blast
  have k: "diff1 d2 = None \<and> diff2 d2 = None \<longrightarrow> first_diff e3 r3 x = dummy_spans"
  proof
    assume "diff1 d2 = None \<and> diff2 d2 = None"
    with fx(9) have "diff2 x = None" by simp
    then show "first_diff e3 r3 x = dummy_spans" by (rule first_diff_dummy)
  qed
  define d3 where "d3 = queue_frame e3 F3 r3 x"
  have qp: "q \<noteq> p" using d2(4) by simp
  have i3: "inflight d3 = inflight x"
    unfolding d3_def using fx(4) fx(5) fx(3) qp fx(6) by (rule queue_frame_inflight)
  have f3: "dma_state d3 = DMA_ON" "fb2full d3" "fb2 d3 = Some p" "mem d3 p = F3"
    "panel d3 = panel x"
    using fx by (simp_all add: d3_def queue_frame_fields)
  from queued_then_completions [OF fx(4) fx(5) fx(2) fx(3) qp fx(6) ne, of n F3 r3 m]
  obtain d4 d5 where
    c: "transfer_end (Suc (Suc (Suc (Suc n)))) (frame_sent d3) = Some d4"
      "dma_state d4 = DMA_ON" "\<not> fb2full d4" "fb1 d4 = Some p"
      "inflight d4 = [Spans F3 (first_diff e3 r3 x)]"
      "transfer_end (Suc m) (frame_sent d4) = Some d5"
      "dma_state d5 = DMA_IDLE"
      "panel d5 = panel x @ inflight x @ [Spans F3 (first_diff e3 r3 x)]"
    unfolding d3_def by blast
  have "first_diff e3 r3 x \<noteq> []
     \<and> (diff1 d2 = None \<and> diff2 d2 = None \<longrightarrow> first_diff e3 r3 x = dummy_spans)
     \<and> update (Suc (Suc (Suc (Suc (Suc n3))))) e3 F3 r3 d2 = Some d3
     \<and> dma_state d3 = DMA_ON \<and> fb2full d3 \<and> fb2 d3 = Some p \<and> mem d3 p = F3
     \<and> inflight d3 = [Spans (mem d2 q) (spans (diffs d2 g2))]
     \<and> panel d3 = panel d2 @ inflight d2
     \<and> last_interrupt (Suc (Suc (Suc (Suc n)))) d3 = Some d4
     \<and> dma_state d4 = DMA_ON \<and> fb1 d4 = Some p \<and> \<not> fb2full d4
     \<and> inflight d4 = [Spans F3 (first_diff e3 r3 x)]
     \<and> last_interrupt (Suc m) d4 = Some d5
     \<and> dma_state d5 = DMA_IDLE
     \<and> panel d5 = panel d2 @ inflight d2
                    @ [Spans (mem d2 q) (spans (diffs d2 g2)), Spans F3 (first_diff e3 r3 x)]"
    using u3 [folded d3_def] f3 i3 c k first_diff_nonempty [OF ne, of r3 x]
    unfolding last_interrupt_def fx(7) fx(8) by simp
  then show ?thesis by blast
qed

lemma c2_state_fields:
  "fb1 (c2_state v) = Some 1" "fb2 (c2_state v) = Some 2" "dma_state (c2_state v) = DMA_IDLE"
  "\<not> fb2full (c2_state v)" "diffs_distinct (c2_state v)"
  "diff2 (c2_state v) \<noteq> None \<longrightarrow> diff1 (c2_state v) \<noteq> None"
  "vsync_spacing (c2_state v) = v"
  "diff1 (c2_state v) = None" "diff2 (c2_state v) = None" "panel (c2_state v) = []"
  "bufferingMode (c2_state v) = TRIPLE_BUFFERING" "\<not> asyncUpdateActive (c2_state v)"
  "dummydiff1 (c2_state v) = 100" "dummydiff2 (c2_state v) = 101"
  by (simp_all add: c2_state_def new_driver_def bufferingMode_def asyncUpdateActive_def
      diffs_distinct_def)

lemma ex_env_fields:
  "e_spans ex_env \<noteq> []" "e_irq1 ex_env = 0" "e_irq2 ex_env = 0"
  by (simp_all add: ex_env_def)

section \<open>Claims\<close>

text \<open>
  C10. For every offset, negative ones included, \<^verbatim>\<open>setScroll\<close> sends the panel a
  vertical-scroll start address in [0, 320): once the engine is idle the bus sees VSCRSADD,
  the address on 16 bits, RAMWR and NOP. The address is the offset, made non-negative by
  adding a multiple \<open>k * 480\<close> of the panel height when it is negative, and reduced
  modulo 320. The range holds for the 2^32 values of a C \<^verbatim>\<open>int\<close> with wrap-around;
  the decomposition leaves out INT_MIN, whose negation overflows.
\<close>

theorem setScroll_address:
  assumes "waitUpdateAsyncComplete n d = Some d1"
  shows "\<exists>a :: 16 word.
           setScroll n offset d =
             Some (d1\<lparr>panel := panel d1 @ [Cmd VSCRSADD, Data16 a, Cmd RAMWR, Cmd NOP]\<rparr>)
         \<and> uint a < 320
         \<and> (sint offset \<noteq> - 2147483648 \<longrightarrow>
              (\<exists>k. 0 \<le> k \<and> (0 \<le> sint offset \<longrightarrow> k = 0)
                 \<and> 0 \<le> sint offset + k * 480
                 \<and> uint a = (sint offset + k * 480) mod 320))"
proof -
  let ?a = "ucast (scroll_address offset) :: 16 word"
  have 1: "setScroll n offset d =
             Some (d1\<lparr>panel := panel d1 @ [Cmd VSCRSADD, Data16 ?a, Cmd RAMWR, Cmd NOP]\<rparr>)"
    using assms by (simp add: setScroll_def)
  have 2: "uint ?a < 320"
    using scroll_address_range [of offset] by (simp add: scroll_address_data16)
  have 3: "\<exists>k. 0 \<le> k \<and> (0 \<le> sint offset \<longrightarrow> k = 0) \<and> 0 \<le> sint offset + k * 480
             \<and> uint ?a = (sint offset + k * 480) mod 320"
    if h: "sint offset \<noteq> - 2147483648"
  proof (cases "sint offset < 0")
    case True
    let ?k = "(- sint offset) div 480 + 1"
    have "0 \<le> ?k" using True by simp
    moreover have "0 \<le> sint offset + ?k * 480" using lift_bound [OF True] by simp
    moreover have "uint ?a = (sint offset + ?k * 480) mod 320"
      using True by (simp add: scroll_address_data16 scroll_address_sint [OF h] scroll_spec_def)
    ultimately show ?thesis using True by (intro exI [of _ ?k]) simp
  next
    case False
    then have "uint ?a = (sint offset + 0 * 480) mod 320"
      by (simp add: scroll_address_data16 scroll_address_sint [OF h] scroll_spec_def)
    with False show ?thesis by (intro exI [of _ 0]) simp
  qed
  from 1 2 3 show ?thesis by blast
qed

theorem setScroll_address_witness:
  "waitUpdateAsyncComplete 1 ex_driver = Some ex_driver
   \<and> sint (- 1 :: i32) \<noteq> - 2147483648
   \<and> (\<exists>a :: 16 word.
         setScroll 1 (- 1) ex_driver =
           Some (ex_driver\<lparr>panel := panel ex_driver @ [Cmd VSCRSADD, Data16 a, Cmd RAMWR, Cmd NOP]\<rparr>)
         \<and> uint a < 320)"
proof -
  have w: "waitUpdateAsyncComplete 1 ex_driver = Some ex_driver"
    by (simp add: ex_driver_def new_driver_def)
  from setScroll_address [OF w, of "- 1"] w show ?thesis by auto
qed

text \<open>
  C7. In double buffering, when \<^verbatim>\<open>_vsync_spacing\<close> is negative and a transfer is
  active, \<^verbatim>\<open>update\<close> returns at once, whatever the bound on the calls: the frame is
  dropped, no framebuffer and no difference buffer is written, nothing is sent, and the engine
  and the transfer in flight are left as they were. The only field written is
  \<^verbatim>\<open>_ongoingDiff\<close>, reset before the test. The negative value of \<^verbatim>\<open>_vsync_spacing\<close>
  is -1, the one that \<^verbatim>\<open>update\<close> tests and \<^verbatim>\<open>printStats\<close> reports as dropping
  frames when busy: the first hypothesis on the spacing is that range.
\<close>

theorem update_drops_frame:
  assumes "bufferingMode d = DOUBLE_BUFFERING" "- 1 \<le> vsync_spacing d" "vsync_spacing d < 0"
    and "asyncUpdateActive d"
  shows "\<exists>d'. update n e new force_full_redraw d = Some d'
           \<and> d' = d\<lparr>ongoingDiff := None\<rparr>
           \<and> mem d' = mem d \<and> diffs d' = diffs d \<and> panel d' = panel d
           \<and> dma_state d' = dma_state d \<and> fb d' = fb d \<and> diff d' = diff d
           \<and> mirrorfb d' = mirrorfb d"
proof -
  have v: "vsync_spacing d = - 1" using assms(2) assms(3) by simp
  have "update n e new force_full_redraw d = Some (d\<lparr>ongoingDiff := None\<rparr>)"
    using assms(1) assms(4) v
    by (simp add: update_def update_double_def bufferingMode_def asyncUpdateActive_def Let_def
        split: if_splits)
  then show ?thesis by simp
qed

theorem update_drops_frame_witness:
  "bufferingMode c7_state = DOUBLE_BUFFERING \<and> - 1 \<le> vsync_spacing c7_state \<and> vsync_spacing c7_state < 0
   \<and> asyncUpdateActive c7_state
   \<and> update 0 ex_env [7] False c7_state = Some (c7_state\<lparr>ongoingDiff := None\<rparr>)
   \<and> mem (c7_state\<lparr>ongoingDiff := None\<rparr>) = mem c7_state
   \<and> panel (c7_state\<lparr>ongoingDiff := None\<rparr>) = panel c7_state"
proof -
  have h: "bufferingMode c7_state = DOUBLE_BUFFERING" "- 1 \<le> vsync_spacing c7_state"
    "vsync_spacing c7_state < 0" "asyncUpdateActive c7_state"
    by (simp_all add: c7_state_def new_driver_def bufferingMode_def asyncUpdateActive_def)
  from update_drops_frame [OF h, of 0 ex_env "[7]" False] h show ?thesis by auto
qed

text \<open>
  C8. Invalid configuration values are never fatal. \<^verbatim>\<open>setRefreshMode\<close> with a mode
  outside 0..31 returns at once and leaves the whole state, so the refresh mode and the
  trace of the panel, as it was. \<^verbatim>\<open>setRotation\<close> returns as soon as the engine is
  idle, and the rotation it sets is its argument clamped into 0..3.
\<close>

theorem invalid_configuration_ignored:
  "(mode < 0 \<or> 31 < mode \<longrightarrow> setRefreshMode n hw mode d = Some d)
   \<and> (waitUpdateAsyncComplete n d = Some d1 \<longrightarrow>
        (\<exists>d'. setRotation n m d = Some d' \<and> rotation d' = clip m 0 3 \<and> rotation d' \<le> 3
              \<and> (3 < m \<longrightarrow> rotation d' = 3)))"
proof -
  have c: "clip m 0 3 \<le> 3" "3 < m \<longrightarrow> clip m 0 3 = 3"
    by (auto simp: clip_def not_less)
  have "\<exists>d'. setRotation n m d = Some d' \<and> rotation d' = clip m 0 3"
    if "waitUpdateAsyncComplete n d = Some d1"
    using that by (simp add: setRotation_def Let_def resync_def statsReset_def)
  with c show ?thesis by (auto simp: setRefreshMode_def)
qed

theorem invalid_configuration_ignored_witness:
  "((32::int) < 0 \<or> 31 < (32::int))
   \<and> setRefreshMode 1 None 32 ex_driver = Some ex_driver
   \<and> waitUpdateAsyncComplete 1 ex_driver = Some ex_driver
   \<and> (\<exists>d'. setRotation 1 7 ex_driver = Some d' \<and> rotation d' = 3)"
proof -
  have w: "waitUpdateAsyncComplete 1 ex_driver = Some ex_driver"
    by (simp add: ex_driver_def new_driver_def)
  have m: "(32::int) < 0 \<or> 31 < (32::int)" by simp
  from invalid_configuration_ignored [of 32 1 None ex_driver ex_driver 7] w m
  show ?thesis by auto
qed

text \<open>
  C5. Without resynchronisation, and with a calibrated period, \<^verbatim>\<open>_getScanLine\<close>
  returns (last synchronised scanline + elapsed microseconds * number of scanlines / period)
  modulo the number of scanlines: the 64-bit computation of the source never wraps and is
  the one on integers, so the value lies in [0, number of scanlines). The state is not
  changed. When \<^verbatim>\<open>_period\<close> is 0 (as the constructor leaves it) the division has no
  result.
\<close>

theorem getScanLine_extrapolated:
  assumes nb: "0 < NB_SCANLINES d" "NB_SCANLINES d < 2147483648" and p: "period d \<noteq> 0"
  shows "getScanLine False res0 now d =
           Some ((uint (synced_scanline d)
                   + uint (now - synced_em d) * NB_SCANLINES d div uint (period d))
                 mod NB_SCANLINES d, d)
         \<and> 0 \<le> fst (the (getScanLine False res0 now d))
         \<and> fst (the (getScanLine False res0 now d)) < NB_SCANLINES d"
proof -
  define N where "N = NB_SCANLINES d"
  define em where "em = uint (now - synced_em d)"
  define P where "P = uint (period d)"
  define S where "S = uint (synced_scanline d)"
  let ?em = "ucast (now - synced_em d) :: 64 word"
  let ?nb = "word_of_int (NB_SCANLINES d) :: 64 word"
  let ?p = "ucast (period d) :: 64 word"
  let ?s = "ucast (synced_scanline d) :: 64 word"
  have N: "0 < N" "N < 2147483648" using nb by (simp_all add: N_def)
  have em: "0 \<le> em" "em < 4294967296" using uint_u32_bound by (simp_all add: em_def)
  have S: "0 \<le> S" "S < 4294967296" using uint_u32_bound by (simp_all add: S_def)
  have "P \<noteq> 0" using p by (simp add: P_def uint_0_iff)
  moreover have "0 \<le> P" by (simp add: P_def)
  ultimately have P: "0 < P" by simp
  have u_em: "uint ?em = em" by (simp add: uint_ucast_32_64 em_def)
  have u_s: "uint ?s = S" by (simp add: uint_ucast_32_64 S_def)
  have u_p: "uint ?p = P" by (simp add: uint_ucast_32_64 P_def)
  have u_nb: "uint ?nb = N" using N by (simp add: uint_word_of_int N_def [symmetric])
  have prod_le: "em * N \<le> 9223372036854775808"
  proof -
    have "em * N \<le> 4294967296 * 2147483648" using em N by (intro mult_mono) simp_all
    then show ?thesis by simp
  qed
  have prod_lt: "em * N < 18446744073709551616" using prod_le by simp
  have u_prod: "uint (?em * ?nb) = em * N"
    using prod_lt em N by (simp add: uint_word_ariths u_em u_nb)
  have u_q: "uint ((?em * ?nb) div ?p) = em * N div P"
    by (simp add: uint_div u_prod u_p)
  have q0: "0 \<le> em * N div P" using P em N by (simp add: pos_imp_zdiv_nonneg_iff)
  have q_le: "em * N div P \<le> em * N"
    using P em N zdiv_mono2 [of "em * N" 1 P] by simp
  have u_sum: "uint (?s + (?em * ?nb) div ?p) = S + em * N div P"
    using S q0 q_le prod_le by (simp add: uint_word_ariths u_s u_q)
  have u_r: "uint ((?s + (?em * ?nb) div ?p) mod ?nb) = (S + em * N div P) mod N"
    by (simp add: uint_mod u_sum u_nb)
  define r where "r = (S + em * N div P) mod N"
  have r: "0 \<le> r" "r < N" using N by (simp_all add: r_def)
  have "sint (ucast ((?s + (?em * ?nb) div ?p) mod ?nb) :: i32) = r"
  proof -
    have "(ucast ((?s + (?em * ?nb) div ?p) mod ?nb) :: i32) = word_of_int r"
      by (subst ucast_eq) (simp only: u_r r_def)
    then show ?thesis using r N by (simp add: sint_i32_of_int)
  qed
  moreover have "?p \<noteq> 0" using P u_p by auto
  moreover have "?nb \<noteq> 0" using N u_nb by auto
  ultimately have "getScanLine False res0 now d = Some (r, d)"
    by (simp add: getScanLine_def Let_def)
  with r show ?thesis by (simp add: r_def N_def em_def P_def S_def)
qed


theorem getScanLine_extrapolated_witness:
  "0 < NB_SCANLINES c5_state \<and> NB_SCANLINES c5_state < 2147483648 \<and> period c5_state \<noteq> 0
   \<and> getScanLine False 0 8000 c5_state = Some (250, c5_state)"
proof -
  have h: "0 < NB_SCANLINES c5_state" "NB_SCANLINES c5_state < 2147483648" "period c5_state \<noteq> 0"
    by (simp_all add: c5_state_def ex_driver_def new_driver_def)
  from getScanLine_extrapolated [OF h, of 0 8000] h show ?thesis
    by (simp add: c5_state_def ex_driver_def new_driver_def)
qed

text \<open>
  C4. For a mode \<open>m\<close> of 0..31, the refresh rate computed is \<open>baseHz * 16 / (16 + m)\<close>
  for \<open>m < 16\<close> and \<open>(baseHz / 2) * 16 / (16 + (m - 16))\<close> otherwise, where
  \<open>baseHz\<close> is the rate measured for mode 0: one refresh per \<^verbatim>\<open>_period_mode0\<close>
  microseconds, which is also the rate computed for mode 0. The rates are positive. The
  arithmetic is that of the reals (the rounding of \<^verbatim>\<open>float\<close> is not modelled), and the
  period of mode 0 must have been measured (not 0).
\<close>

theorem refreshRateForMode_formula:
  assumes "period_mode0 d \<noteq> 0" "0 \<le> m" "m \<le> 31"
  shows "refreshRateForMode d m =
           (if m < 16 then baseHz d * 16 / (16 + real_of_int m)
            else (baseHz d / 2) * 16 / (16 + real_of_int (m - 16)))
         \<and> baseHz d * real (unat (period_mode0 d)) = 1000000
         \<and> 0 < baseHz d \<and> 0 < refreshRateForMode d m
         \<and> refreshRateForMode d 0 = baseHz d"
proof -
  have p: "0 < real (unat (period_mode0 d))"
    using assms(1) by (metis of_nat_0_less_iff unat_gt_0)
  have b: "0 < baseHz d" using assms(1) by (rule baseHz_pos)
  have f: "refreshRateForMode d m =
           (if m < 16 then baseHz d * 16 / (16 + real_of_int m)
            else (baseHz d / 2) * 16 / (16 + real_of_int (m - 16)))"
    by (simp add: refreshRateForMode_def baseHz_def Let_def)
  have q: "baseHz d * real (unat (period_mode0 d)) = 1000000"
    using p unfolding baseHz_def by simp
  have z: "refreshRateForMode d 0 = baseHz d"
    by (simp add: refreshRateForMode_def baseHz_def Let_def)
  have r: "0 < refreshRateForMode d m"
  proof (cases "m < 16")
    case True
    then have "refreshRateForMode d m = baseHz d * 16 / (16 + real_of_int m)" using f by simp
    moreover have "0 < 16 + real_of_int m" using assms(2) by simp
    ultimately show ?thesis using b by simp
  next
    case False
    then have "refreshRateForMode d m = (baseHz d / 2) * 16 / (16 + real_of_int (m - 16))"
      using f by simp
    moreover have "0 < 16 + real_of_int (m - 16)" using False by simp
    ultimately show ?thesis using b by simp
  qed
  from f q b r z show ?thesis by simp
qed

theorem refreshRateForMode_formula_witness:
  "period_mode0 ex_driver \<noteq> 0 \<and> (0::int) \<le> 17 \<and> (17::int) \<le> 31
   \<and> baseHz ex_driver = 125 / 2
   \<and> refreshRateForMode ex_driver 17 = (baseHz ex_driver / 2) * 16 / (16 + real_of_int (17 - 16))
   \<and> refreshRateForMode ex_driver 17 = 500 / 17"
proof -
  have p: "period_mode0 ex_driver \<noteq> 0" by (simp add: ex_driver_def new_driver_def)
  have b: "baseHz ex_driver = 125 / 2" by (simp add: baseHz_def ex_driver_def new_driver_def)
  from refreshRateForMode_formula [OF p, of 17] p b show ?thesis by simp
qed

text \<open>
  C3. For every mode \<open>m\<close> of 0..31, the mode nearest to the refresh rate of \<open>m\<close> is
  \<open>m\<close>: the rates decrease strictly with the mode, the dichotomy brackets the rate
  between \<open>m - 1\<close> and \<open>m\<close>, and the distance to \<open>m\<close> is zero. The arithmetic is that
  of the reals, and the period of mode 0 must have been measured (not 0).
\<close>

theorem mode_rate_roundtrip:
  assumes "period_mode0 d \<noteq> 0"
  shows "\<forall>m \<in> {0..31}. modeForRefreshRate d (refreshRateForMode d m) = m"
proof
  fix m :: int
  assume "m \<in> {0..31}"
  then have m: "0 \<le> m" "m \<le> 31" by simp_all
  consider "m = 31" | "m = 0" | "0 < m" "m < 31" using m by linarith
  then show "modeForRefreshRate d (refreshRateForMode d m) = m"
  proof cases
    case 1
    then show ?thesis by (simp add: modeForRefreshRate_def)
  next
    case 2
    have "refreshRateForMode d 31 < refreshRateForMode d 0"
      using rate_strict_antimono [OF assms, of 0 31] by simp
    with 2 show ?thesis by (simp add: modeForRefreshRate_def)
  next
    case 3
    have a: "refreshRateForMode d 31 < refreshRateForMode d m"
      using rate_strict_antimono [OF assms, of m 31] 3 by simp
    have b: "refreshRateForMode d m < refreshRateForMode d 0"
      using rate_strict_antimono [OF assms, of 0 m] 3 by simp
    have c: "refreshRateForMode d m < refreshRateForMode d (m - 1)"
      using rate_strict_antimono [OF assms, of "m - 1" m] 3 by simp
    have "dichotomy d (refreshRateForMode d m) 0 31 = (m - 1, m)"
      using dichotomy_finds [OF refl assms, of 0 m 31] 3 by simp
    with a b c show ?thesis by (simp add: modeForRefreshRate_def Let_def)
  qed
qed

theorem mode_rate_roundtrip_witness:
  "period_mode0 ex_driver \<noteq> 0
   \<and> (17 :: int) \<in> {0..31}
   \<and> refreshRateForMode ex_driver 17 = 500 / 17
   \<and> modeForRefreshRate ex_driver (500 / 17) = 17"
proof -
  have p: "period_mode0 ex_driver \<noteq> 0" by (simp add: ex_driver_def new_driver_def)
  have m: "(17 :: int) \<in> {0..31}" by simp
  have r: "refreshRateForMode ex_driver 17 = 500 / 17"
    by (simp add: refreshRateForMode_def ex_driver_def new_driver_def)
  from mode_rate_roundtrip [OF p, THEN bspec, OF m] p r show ?thesis by simp
qed




text \<open>
  C2, as amended. Triple buffering with distinct buffers, nothing in flight, the diffs of the
  three frames not empty, no transfer ending during the second and third call. The first
  \<^verbatim>\<open>update\<close> starts the transfer of \<open>F1\<close>. The second, made while that transfer is
  active, stores \<open>F2\<close> in the secondary buffer and returns with the transfer still in
  flight. With \<^verbatim>\<open>_vsync_spacing\<close> = -1 the third returns without waiting (even with no
  bound left for a wait), having overwritten the secondary buffer with \<open>F3\<close> while \<open>F1\<close>
  is still in flight: the panel receives \<open>F1\<close> and \<open>F3\<close> and never \<open>F2\<close>. With any
  other spacing the third call waits until the transfer of \<open>F1\<close> has ended and \<open>F2\<close> has
  been promoted, and stores \<open>F3\<close> in the buffer that became secondary: the panel receives
  the three frames. In both cases the last interrupt of a transfer promotes the secondary
  buffer to primary and starts its transfer at once.
\<close>

theorem triple_buffering_depth_one_queue:
  assumes t: "fb1 d = Some p" "fb2 d = Some q" "p \<noteq> q"
    and i: "dma_state d = DMA_IDLE" and nf: "\<not> fb2full d"
    and dd: "diffs_distinct d" and g: "diff2 d \<noteq> None \<longrightarrow> diff1 d \<noteq> None"
    and ne: "e_spans e1 \<noteq> []" "e_spans e2 \<noteq> []" "e_spans e3 \<noteq> []"
    and irq: "e_irq1 e2 = 0" "e_irq2 e2 = 0" "e_irq1 e3 = 0" "e_irq2 e3 = 0"
  shows "\<exists>d1 d2 d3 d4 d5 s3. s3 \<noteq> []
     \<and> update (Suc (Suc (Suc (Suc (Suc n))))) e1 F1 r1 d = Some d1
     \<and> dma_state d1 = DMA_ON \<and> inflight d1 = [Spans F1 (first_diff e1 r1 d)] \<and> panel d1 = panel d
     \<and> update (Suc (Suc (Suc (Suc (Suc n))))) e2 F2 r2 d1 = Some d2
     \<and> dma_state d2 = DMA_ON \<and> inflight d2 = [Spans F1 (first_diff e1 r1 d)] \<and> panel d2 = panel d
     \<and> fb2 d2 = Some q \<and> mem d2 q = F2 \<and> fb2full d2
     \<and> update (Suc (Suc (Suc (Suc (Suc n))))) e3 F3 r3 d2 = Some d3
     \<and> dma_state d3 = DMA_ON \<and> fb2full d3
     \<and> (if vsync_spacing d = - 1
         then update 0 e3 F3 r3 d2 = Some d3 \<and> fb2 d3 = Some q \<and> mem d3 q = F3
              \<and> inflight d3 = [Spans F1 (first_diff e1 r1 d)] \<and> panel d3 = panel d
         else fb2 d3 = Some p \<and> mem d3 p = F3
              \<and> inflight d3 = [Spans F2 (first_diff e2 r2 d1)]
              \<and> panel d3 = panel d @ [Spans F1 (first_diff e1 r1 d)])
     \<and> last_interrupt (Suc (Suc (Suc (Suc (Suc n))))) d3 = Some d4
     \<and> dma_state d4 = DMA_ON \<and> fb1 d4 = fb2 d3 \<and> \<not> fb2full d4 \<and> inflight d4 = [Spans F3 s3]
     \<and> last_interrupt (Suc (Suc (Suc (Suc (Suc n))))) d4 = Some d5
     \<and> dma_state d5 = DMA_IDLE
     \<and> panel d5 = panel d @
          (if vsync_spacing d = - 1
           then [Spans F1 (first_diff e1 r1 d), Spans F3 s3]
           else [Spans F1 (first_diff e1 r1 d), Spans F2 (first_diff e2 r2 d1), Spans F3 s3])"
proof -
  from two_submissions [OF t i nf dd g ne(1) irq(1) irq(2),
      of "Suc (Suc (Suc n))" F1 r1 "Suc (Suc (Suc (Suc n)))" F2 r2]
  obtain d1 d2 gA g2 where
    u1: "update (Suc (Suc (Suc (Suc (Suc n))))) e1 F1 r1 d = Some d1"
    and f1: "dma_state d1 = DMA_ON" "inflight d1 = [Spans F1 (first_diff e1 r1 d)]"
      "panel d1 = panel d"
    and u2: "update (Suc (Suc (Suc (Suc (Suc n))))) e2 F2 r2 d1 = Some d2"
    and f2: "dma_state d2 = DMA_ON" "inflight d2 = [Spans F1 (first_diff e1 r1 d)]"
      "panel d2 = panel d" "fb1 d2 = Some p" "fb2 d2 = Some q" "mem d2 q = F2" "fb2full d2"
      "pcb d2 = Some Buffer2fullCB" "vsync_spacing d2 = vsync_spacing d"
      "fb d2 = Some p" "diff d2 = Some gA" "secondary_free gA d2" "diffs_distinct d2"
      "queued_diff d2 = Some g2" "spans (diffs d2 g2) = first_diff e2 r2 d1"
    by blast
  show ?thesis
  proof (cases "vsync_spacing d = - 1")
    case True
    then have v: "vsync_spacing d2 = - 1" using f2(9) by simp
    note tw = third_overwrites [OF f2(1) f2(4) f2(5) t(3) f2(10) f2(11) f2(12) v ne(3) irq(3) irq(4)]
    from tw [of "Suc (Suc (Suc (Suc (Suc n))))" F3 r3 "Suc n" "Suc (Suc (Suc (Suc n)))"]
    obtain d3 d4 d5 where
      u3: "update (Suc (Suc (Suc (Suc (Suc n))))) e3 F3 r3 d2 = Some d3"
      and f3: "dma_state d3 = DMA_ON" "fb2full d3" "fb2 d3 = Some q" "mem d3 q = F3"
        "inflight d3 = inflight d2" "panel d3 = panel d2"
      and c: "last_interrupt (Suc (Suc (Suc (Suc (Suc n))))) d3 = Some d4"
        "dma_state d4 = DMA_ON" "fb1 d4 = Some q" "\<not> fb2full d4"
        "inflight d4 = [Spans F3 (first_diff e3 r3 d2)]"
        "last_interrupt (Suc (Suc (Suc (Suc (Suc n))))) d4 = Some d5"
        "dma_state d5 = DMA_IDLE"
        "panel d5 = panel d2 @ inflight d2 @ [Spans F3 (first_diff e3 r3 d2)]"
      by blast
    have "update (0 + Suc (Suc (Suc (Suc (Suc n))))) e3 F3 r3 d2
          = Some (queue_frame e3 F3 r3 (d2\<lparr>ongoingDiff := None\<rparr>))"
      using f2 v irq by (intro update_triple_queues [of d2 p q]) simp_all
    moreover have "update 0 e3 F3 r3 d2 = Some (queue_frame e3 F3 r3 (d2\<lparr>ongoingDiff := None\<rparr>))"
      using f2 v irq by (intro update_triple_queues [of d2 p q]) simp_all
    ultimately have u0': "update 0 e3 F3 r3 d2 = Some d3" using u3 by simp
    have s3: "first_diff e3 r3 d2 \<noteq> []" using ne(3) by (rule first_diff_nonempty)
    have "first_diff e3 r3 d2 \<noteq> []
     \<and> update (Suc (Suc (Suc (Suc (Suc n))))) e1 F1 r1 d = Some d1
     \<and> dma_state d1 = DMA_ON \<and> inflight d1 = [Spans F1 (first_diff e1 r1 d)] \<and> panel d1 = panel d
     \<and> update (Suc (Suc (Suc (Suc (Suc n))))) e2 F2 r2 d1 = Some d2
     \<and> dma_state d2 = DMA_ON \<and> inflight d2 = [Spans F1 (first_diff e1 r1 d)] \<and> panel d2 = panel d
     \<and> fb2 d2 = Some q \<and> mem d2 q = F2 \<and> fb2full d2
     \<and> update (Suc (Suc (Suc (Suc (Suc n))))) e3 F3 r3 d2 = Some d3
     \<and> dma_state d3 = DMA_ON \<and> fb2full d3
     \<and> (if vsync_spacing d = - 1
         then update 0 e3 F3 r3 d2 = Some d3 \<and> fb2 d3 = Some q \<and> mem d3 q = F3
              \<and> inflight d3 = [Spans F1 (first_diff e1 r1 d)] \<and> panel d3 = panel d
         else fb2 d3 = Some p \<and> mem d3 p = F3
              \<and> inflight d3 = [Spans F2 (first_diff e2 r2 d1)]
              \<and> panel d3 = panel d @ [Spans F1 (first_diff e1 r1 d)])
     \<and> last_interrupt (Suc (Suc (Suc (Suc (Suc n))))) d3 = Some d4
     \<and> dma_state d4 = DMA_ON \<and> fb1 d4 = fb2 d3 \<and> \<not> fb2full d4
     \<and> inflight d4 = [Spans F3 (first_diff e3 r3 d2)]
     \<and> last_interrupt (Suc (Suc (Suc (Suc (Suc n))))) d4 = Some d5
     \<and> dma_state d5 = DMA_IDLE
     \<and> panel d5 = panel d @
          (if vsync_spacing d = - 1
           then [Spans F1 (first_diff e1 r1 d), Spans F3 (first_diff e3 r3 d2)]
           else [Spans F1 (first_diff e1 r1 d), Spans F2 (first_diff e2 r2 d1),
                 Spans F3 (first_diff e3 r3 d2)])"
      using s3 u1 f1 u2 f2(1-3) f2(5-7) u3 f3 u0' c True
      by (simp only: simp_thms if_True append_Cons append_Nil)
    then show ?thesis by (intro exI)
  next
    case False
    then have v: "vsync_spacing d2 \<noteq> - 1" using f2(9) by simp
    have n2: "spans (diffs d2 g2) \<noteq> []"
      using f2(15) ne(2) by (simp add: first_diff_nonempty)
    from third_waits [OF f2(1) f2(4) f2(5) t(3) f2(7) f2(8) f2(13) f2(14) n2 v ne(3) irq(3) irq(4),
        of n F3 r3 "Suc n" "Suc (Suc (Suc (Suc n)))"]
    obtain d3 d4 d5 s3 where
      s3: "s3 \<noteq> []"
      and u3: "update (Suc (Suc (Suc (Suc (Suc n))))) e3 F3 r3 d2 = Some d3"
      and f3: "dma_state d3 = DMA_ON" "fb2full d3" "fb2 d3 = Some p" "mem d3 p = F3"
        "inflight d3 = [Spans (mem d2 q) (spans (diffs d2 g2))]"
        "panel d3 = panel d2 @ inflight d2"
      and c: "last_interrupt (Suc (Suc (Suc (Suc (Suc n))))) d3 = Some d4"
        "dma_state d4 = DMA_ON" "fb1 d4 = Some p" "\<not> fb2full d4"
        "inflight d4 = [Spans F3 s3]"
        "last_interrupt (Suc (Suc (Suc (Suc (Suc n))))) d4 = Some d5"
        "dma_state d5 = DMA_IDLE"
        "panel d5 = panel d2 @ inflight d2 @ [Spans (mem d2 q) (spans (diffs d2 g2)), Spans F3 s3]"
      by blast
    have "s3 \<noteq> []
     \<and> update (Suc (Suc (Suc (Suc (Suc n))))) e1 F1 r1 d = Some d1
     \<and> dma_state d1 = DMA_ON \<and> inflight d1 = [Spans F1 (first_diff e1 r1 d)] \<and> panel d1 = panel d
     \<and> update (Suc (Suc (Suc (Suc (Suc n))))) e2 F2 r2 d1 = Some d2
     \<and> dma_state d2 = DMA_ON \<and> inflight d2 = [Spans F1 (first_diff e1 r1 d)] \<and> panel d2 = panel d
     \<and> fb2 d2 = Some q \<and> mem d2 q = F2 \<and> fb2full d2
     \<and> update (Suc (Suc (Suc (Suc (Suc n))))) e3 F3 r3 d2 = Some d3
     \<and> dma_state d3 = DMA_ON \<and> fb2full d3
     \<and> (if vsync_spacing d = - 1
         then update 0 e3 F3 r3 d2 = Some d3 \<and> fb2 d3 = Some q \<and> mem d3 q = F3
              \<and> inflight d3 = [Spans F1 (first_diff e1 r1 d)] \<and> panel d3 = panel d
         else fb2 d3 = Some p \<and> mem d3 p = F3
              \<and> inflight d3 = [Spans F2 (first_diff e2 r2 d1)]
              \<and> panel d3 = panel d @ [Spans F1 (first_diff e1 r1 d)])
     \<and> last_interrupt (Suc (Suc (Suc (Suc (Suc n))))) d3 = Some d4
     \<and> dma_state d4 = DMA_ON \<and> fb1 d4 = fb2 d3 \<and> \<not> fb2full d4 \<and> inflight d4 = [Spans F3 s3]
     \<and> last_interrupt (Suc (Suc (Suc (Suc (Suc n))))) d4 = Some d5
     \<and> dma_state d5 = DMA_IDLE
     \<and> panel d5 = panel d @
          (if vsync_spacing d = - 1
           then [Spans F1 (first_diff e1 r1 d), Spans F3 s3]
           else [Spans F1 (first_diff e1 r1 d), Spans F2 (first_diff e2 r2 d1), Spans F3 s3])"
      using s3 u1 f1 u2 f2(1-3) f2(5-7) f2(15) u3 f3 c False
      by (simp only: simp_thms if_False append_Cons append_Nil)
    then show ?thesis by (intro exI)
  qed
qed

text \<open>
  With \<^verbatim>\<open>_vsync_spacing\<close> = 2 the third call waits in \<^verbatim>\<open>while (_fb2full);\<close>: the
  three frames reach the panel.
\<close>

theorem three_submissions_all_displayed_counterexample:
  "bufferingMode (c2_state 2) = TRIPLE_BUFFERING \<and> \<not> asyncUpdateActive (c2_state 2)
   \<and> vsync_spacing (c2_state 2) = 2 \<and> panel (c2_state 2) = []
   \<and> map_option panel
        (three_submissions (Suc (Suc (Suc (Suc (Suc 0))))) ex_env [1] [2] [3] (c2_state 2))
     = Some [Spans [1] dummy_spans, Spans [2] dummy_spans, Spans [3] dummy_spans]"
proof -
  have ne: "(1::nat) \<noteq> 2" by simp
  from two_submissions [where n = "Suc (Suc (Suc 0))" and ?F1.0 = "[1]" and ?r1.0 = False
      and ?n2.0 = "Suc (Suc (Suc (Suc 0)))" and ?F2.0 = "[2]" and ?r2.0 = False,
      OF c2_state_fields(1) c2_state_fields(2) ne c2_state_fields(3)
      c2_state_fields(4) c2_state_fields(5) c2_state_fields(6) ex_env_fields(1)
      ex_env_fields(2) ex_env_fields(3), of 2]
  obtain d1 d2 g2 where
    u1: "update (Suc (Suc (Suc (Suc (Suc 0))))) ex_env [1] False (c2_state 2) = Some d1"
    and k1: "diff2 d1 = diff2 (c2_state 2)"
    and u2: "update (Suc (Suc (Suc (Suc (Suc 0))))) ex_env [2] False d1 = Some d2"
    and f2: "dma_state d2 = DMA_ON" "inflight d2 = [Spans [1] (first_diff ex_env False (c2_state 2))]"
      "panel d2 = panel (c2_state 2)" "fb1 d2 = Some 1" "fb2 d2 = Some 2" "mem d2 2 = [2]"
      "fb2full d2" "pcb d2 = Some Buffer2fullCB" "vsync_spacing d2 = vsync_spacing (c2_state 2)"
      "diffs_distinct d2" "diff1 d2 = diff1 (c2_state 2)" "diff2 d2 = diff2 (c2_state 2)"
      "queued_diff d2 = Some g2" "spans (diffs d2 g2) = first_diff ex_env False d1"
    by blast
  have s1: "first_diff ex_env False (c2_state 2) = dummy_spans"
    by (rule first_diff_dummy) (rule c2_state_fields)
  have s2: "spans (diffs d2 g2) = dummy_spans"
    unfolding f2(14) using k1 by (intro first_diff_dummy) (simp add: c2_state_fields)
  have n2: "spans (diffs d2 g2) \<noteq> []" unfolding s2 by simp
  have v: "vsync_spacing d2 \<noteq> - 1" using f2(9) by (simp add: c2_state_fields)
  have nd: "diff1 d2 = None \<and> diff2 d2 = None" using f2(11) f2(12) by (simp add: c2_state_fields)
  from third_waits [where ?n3.0 = 0 and ?F3.0 = "[3]" and ?r3.0 = False and n = "Suc 0"
      and m = "Suc (Suc (Suc (Suc 0)))",
      OF f2(1) f2(4) f2(5) ne f2(7) f2(8) f2(10) f2(13) n2 v ex_env_fields(1)
      ex_env_fields(2) ex_env_fields(3)]
  obtain d3 d4 d5 s3 where
    s3: "diff1 d2 = None \<and> diff2 d2 = None \<longrightarrow> s3 = dummy_spans"
    and u3: "update (Suc (Suc (Suc (Suc (Suc 0))))) ex_env [3] False d2 = Some d3"
    and c: "last_interrupt (Suc (Suc (Suc (Suc (Suc 0))))) d3 = Some d4"
      "last_interrupt (Suc (Suc (Suc (Suc (Suc 0))))) d4 = Some d5"
      "panel d5 = panel d2 @ inflight d2 @ [Spans (mem d2 2) (spans (diffs d2 g2)), Spans [3] s3]"
    by blast
  have "three_submissions (Suc (Suc (Suc (Suc (Suc 0))))) ex_env [1] [2] [3] (c2_state 2) = Some d5"
    unfolding three_submissions_def using u1 u2 u3 c(1) c(2)
    by (simp only: bind.bind_lunit)
  moreover have "panel d5 = [Spans [1] dummy_spans, Spans [2] dummy_spans, Spans [3] dummy_spans]"
    using c(3) s3 nd f2(2) f2(3) f2(6) s1 s2 by (simp add: c2_state_fields)
  ultimately show ?thesis by (simp add: c2_state_fields)
qed

theorem triple_buffering_depth_one_queue_witness:
  "fb1 (c2_state (- 1)) = Some 1 \<and> fb2 (c2_state (- 1)) = Some 2
   \<and> dma_state (c2_state (- 1)) = DMA_IDLE \<and> \<not> fb2full (c2_state (- 1))
   \<and> vsync_spacing (c2_state (- 1)) = - 1
   \<and> diff1 (c2_state (- 1)) = None \<and> diff2 (c2_state (- 1)) = None
   \<and> dummydiff1 (c2_state (- 1)) = 100 \<and> dummydiff2 (c2_state (- 1)) = 101
   \<and> panel (c2_state (- 1)) = []
   \<and> e_spans ex_env = [(0, 0, 10)] \<and> e_irq1 ex_env = 0 \<and> e_irq2 ex_env = 0
   \<and> (\<exists>d1 d2 d3 d4 d5 s3. s3 \<noteq> []
        \<and> update (Suc (Suc (Suc (Suc (Suc 0))))) ex_env [1] False (c2_state (- 1)) = Some d1
        \<and> dma_state d1 = DMA_ON \<and> inflight d1 = [Spans [1] dummy_spans] \<and> panel d1 = []
        \<and> update (Suc (Suc (Suc (Suc (Suc 0))))) ex_env [2] False d1 = Some d2
        \<and> dma_state d2 = DMA_ON \<and> inflight d2 = [Spans [1] dummy_spans] \<and> panel d2 = []
        \<and> mem d2 2 = [2] \<and> fb2full d2
        \<and> update 0 ex_env [3] False d2 = Some d3
        \<and> dma_state d3 = DMA_ON \<and> inflight d3 = [Spans [1] dummy_spans] \<and> panel d3 = []
        \<and> mem d3 2 = [3] \<and> fb2full d3
        \<and> last_interrupt (Suc (Suc (Suc (Suc (Suc 0))))) d3 = Some d4
        \<and> dma_state d4 = DMA_ON \<and> fb1 d4 = Some 2 \<and> inflight d4 = [Spans [3] s3]
        \<and> last_interrupt (Suc (Suc (Suc (Suc (Suc 0))))) d4 = Some d5
        \<and> dma_state d5 = DMA_IDLE
        \<and> panel d5 = [Spans [1] dummy_spans, Spans [3] s3])"
proof -
  have ne: "(1::nat) \<noteq> 2" by simp
  have s1: "first_diff ex_env False (c2_state (- 1)) = dummy_spans"
    by (rule first_diff_dummy) (rule c2_state_fields)
  have v: "vsync_spacing (c2_state (- 1)) = - 1" by (rule c2_state_fields)
  note t = triple_buffering_depth_one_queue [where n = 0 and ?F1.0 = "[1]" and ?r1.0 = False
      and ?F2.0 = "[2]" and ?r2.0 = False and ?F3.0 = "[3]" and ?r3.0 = False,
      OF c2_state_fields(1) c2_state_fields(2) ne
      c2_state_fields(3) c2_state_fields(4) c2_state_fields(5) c2_state_fields(6)
      ex_env_fields(1) ex_env_fields(1) ex_env_fields(1)
      ex_env_fields(2) ex_env_fields(3) ex_env_fields(2) ex_env_fields(3), of "- 1"]
  from t obtain d1 d2 d3 d4 d5 s3 where big: "s3 \<noteq> []
     \<and> update (Suc (Suc (Suc (Suc (Suc 0))))) ex_env [1] False (c2_state (- 1)) = Some d1
     \<and> dma_state d1 = DMA_ON
     \<and> inflight d1 = [Spans [1] (first_diff ex_env False (c2_state (- 1)))]
     \<and> panel d1 = panel (c2_state (- 1))
     \<and> update (Suc (Suc (Suc (Suc (Suc 0))))) ex_env [2] False d1 = Some d2
     \<and> dma_state d2 = DMA_ON
     \<and> inflight d2 = [Spans [1] (first_diff ex_env False (c2_state (- 1)))]
     \<and> panel d2 = panel (c2_state (- 1))
     \<and> fb2 d2 = Some 2 \<and> mem d2 2 = [2] \<and> fb2full d2
     \<and> update (Suc (Suc (Suc (Suc (Suc 0))))) ex_env [3] False d2 = Some d3
     \<and> dma_state d3 = DMA_ON \<and> fb2full d3
     \<and> (if vsync_spacing (c2_state (- 1)) = - 1
         then update 0 ex_env [3] False d2 = Some d3 \<and> fb2 d3 = Some 2 \<and> mem d3 2 = [3]
              \<and> inflight d3 = [Spans [1] (first_diff ex_env False (c2_state (- 1)))]
              \<and> panel d3 = panel (c2_state (- 1))
         else fb2 d3 = Some 1 \<and> mem d3 1 = [3]
              \<and> inflight d3 = [Spans [2] (first_diff ex_env False d1)]
              \<and> panel d3 = panel (c2_state (- 1))
                    @ [Spans [1] (first_diff ex_env False (c2_state (- 1)))])
     \<and> last_interrupt (Suc (Suc (Suc (Suc (Suc 0))))) d3 = Some d4
     \<and> dma_state d4 = DMA_ON \<and> fb1 d4 = fb2 d3 \<and> \<not> fb2full d4 \<and> inflight d4 = [Spans [3] s3]
     \<and> last_interrupt (Suc (Suc (Suc (Suc (Suc 0))))) d4 = Some d5
     \<and> dma_state d5 = DMA_IDLE
     \<and> panel d5 = panel (c2_state (- 1)) @
          (if vsync_spacing (c2_state (- 1)) = - 1
           then [Spans [1] (first_diff ex_env False (c2_state (- 1))), Spans [3] s3]
           else [Spans [1] (first_diff ex_env False (c2_state (- 1))),
                 Spans [2] (first_diff ex_env False d1), Spans [3] s3])"
    by (elim exE)
  note big' = big [unfolded s1 v c2_state_fields(10) if_True append_Nil]
  have h: "s3 \<noteq> []"
      "update (Suc (Suc (Suc (Suc (Suc 0))))) ex_env [1] False (c2_state (- 1)) = Some d1"
      "dma_state d1 = DMA_ON" "inflight d1 = [Spans [1] dummy_spans]" "panel d1 = []"
      "update (Suc (Suc (Suc (Suc (Suc 0))))) ex_env [2] False d1 = Some d2"
      "dma_state d2 = DMA_ON" "inflight d2 = [Spans [1] dummy_spans]" "panel d2 = []"
      "mem d2 2 = [2]" "fb2full d2"
      "update 0 ex_env [3] False d2 = Some d3"
      "dma_state d3 = DMA_ON" "inflight d3 = [Spans [1] dummy_spans]" "panel d3 = []"
      "mem d3 2 = [3]" "fb2full d3"
      "last_interrupt (Suc (Suc (Suc (Suc (Suc 0))))) d3 = Some d4"
      "dma_state d4 = DMA_ON" "fb1 d4 = Some 2" "inflight d4 = [Spans [3] s3]"
      "last_interrupt (Suc (Suc (Suc (Suc (Suc 0))))) d4 = Some d5"
      "dma_state d5 = DMA_IDLE"
      "panel d5 = [Spans [1] dummy_spans, Spans [3] s3]"
    using big' by simp_all
  have "s3 \<noteq> []
        \<and> update (Suc (Suc (Suc (Suc (Suc 0))))) ex_env [1] False (c2_state (- 1)) = Some d1
        \<and> dma_state d1 = DMA_ON \<and> inflight d1 = [Spans [1] dummy_spans] \<and> panel d1 = []
        \<and> update (Suc (Suc (Suc (Suc (Suc 0))))) ex_env [2] False d1 = Some d2
        \<and> dma_state d2 = DMA_ON \<and> inflight d2 = [Spans [1] dummy_spans] \<and> panel d2 = []
        \<and> mem d2 2 = [2] \<and> fb2full d2
        \<and> update 0 ex_env [3] False d2 = Some d3
        \<and> dma_state d3 = DMA_ON \<and> inflight d3 = [Spans [1] dummy_spans] \<and> panel d3 = []
        \<and> mem d3 2 = [3] \<and> fb2full d3
        \<and> last_interrupt (Suc (Suc (Suc (Suc (Suc 0))))) d3 = Some d4
        \<and> dma_state d4 = DMA_ON \<and> fb1 d4 = Some 2 \<and> inflight d4 = [Spans [3] s3]
        \<and> last_interrupt (Suc (Suc (Suc (Suc (Suc 0))))) d4 = Some d5
        \<and> dma_state d5 = DMA_IDLE
        \<and> panel d5 = [Spans [1] dummy_spans, Spans [3] s3]"
    using h by (simp only: simp_thms)
  then have ex: "\<exists>d1 d2 d3 d4 d5 s3. s3 \<noteq> []
        \<and> update (Suc (Suc (Suc (Suc (Suc 0))))) ex_env [1] False (c2_state (- 1)) = Some d1
        \<and> dma_state d1 = DMA_ON \<and> inflight d1 = [Spans [1] dummy_spans] \<and> panel d1 = []
        \<and> update (Suc (Suc (Suc (Suc (Suc 0))))) ex_env [2] False d1 = Some d2
        \<and> dma_state d2 = DMA_ON \<and> inflight d2 = [Spans [1] dummy_spans] \<and> panel d2 = []
        \<and> mem d2 2 = [2] \<and> fb2full d2
        \<and> update 0 ex_env [3] False d2 = Some d3
        \<and> dma_state d3 = DMA_ON \<and> inflight d3 = [Spans [1] dummy_spans] \<and> panel d3 = []
        \<and> mem d3 2 = [3] \<and> fb2full d3
        \<and> last_interrupt (Suc (Suc (Suc (Suc (Suc 0))))) d3 = Some d4
        \<and> dma_state d4 = DMA_ON \<and> fb1 d4 = Some 2 \<and> inflight d4 = [Spans [3] s3]
        \<and> last_interrupt (Suc (Suc (Suc (Suc (Suc 0))))) d4 = Some d5
        \<and> dma_state d5 = DMA_IDLE
        \<and> panel d5 = [Spans [1] dummy_spans, Spans [3] s3]"
    by (intro exI)
  have e: "e_spans ex_env = [(0, 0, 10)]" by (simp add: ex_env_def)
  show ?thesis
    using ex e ex_env_fields(2) ex_env_fields(3)
      c2_state_fields(1) [of "- 1"] c2_state_fields(2) [of "- 1"] c2_state_fields(3) [of "- 1"]
      c2_state_fields(4) [of "- 1"] c2_state_fields(7) [of "- 1"] c2_state_fields(8) [of "- 1"]
      c2_state_fields(9) [of "- 1"] c2_state_fields(10) [of "- 1"]
      c2_state_fields(13) [of "- 1"] c2_state_fields(14) [of "- 1"]
    by (simp only: simp_thms)
qed

end
